theory Spec2Isabelle
  imports Main "HOL-Library.AList" "HOL-Library.Multiset" "HOL-Library.List_Lexorder" "HOL-Library.Char_ord"
begin

section \<open>Data model\<close>

text \<open>
  Course codes and student ids are Python strings. A calendar date is modelled by its
  proleptic Gregorian ordinal (\<^verbatim>\<open>date.toordinal()\<close>), so that
  \<^verbatim>\<open>(d1 - d2).days\<close> is integer subtraction and \<^verbatim>\<open>d + timedelta(days=1)\<close> is
  \<open>d + 1\<close>. Ordinal 1 is Monday 0001-01-01, hence \<^verbatim>\<open>d.weekday()\<close> is
  \<open>(d + 6) mod 7\<close> (Monday 0, Saturday 5, Sunday 6). The rendering of a date as a
  \<^verbatim>\<open>%Y-%m-%d\<close> string and its parsing back are inverse to each other on the dates
  of a scheduling window, so a schedule entry carries the date itself.
\<close>

type_synonym course = string
type_synonym student_id = string
type_synonym date = int

definition weekday :: "date \<Rightarrow> int" where
  "weekday d = (d + 6) mod 7"

text \<open>
  A Python \<^verbatim>\<open>dict\<close> keeps its keys in insertion order: it is an association list.
  \<^verbatim>\<open>d.get(k)\<close> is \<^const>\<open>map_of\<close>, \<^verbatim>\<open>d[k] = v\<close> is \<^const>\<open>AList.update\<close>
  (a known key keeps its position, a new key goes last). A \<^verbatim>\<open>defaultdict\<close> read
  \<^verbatim>\<open>d[k]\<close> of a missing key stores the default under \<open>k\<close> before returning it.
\<close>

type_synonym ('k, 'v) dict = "('k \<times> 'v) list"

definition dd_get :: "'v \<Rightarrow> ('k, 'v) dict \<Rightarrow> 'k \<Rightarrow> 'v" where
  "dd_get dflt d k = (case map_of d k of None \<Rightarrow> dflt | Some v \<Rightarrow> v)"

definition dd_touch :: "'v \<Rightarrow> ('k, 'v) dict \<Rightarrow> 'k \<Rightarrow> ('k, 'v) dict" where
  "dd_touch dflt d k = (case map_of d k of None \<Rightarrow> d @ [(k, dflt)] | Some v \<Rightarrow> d)"

text \<open>\<^verbatim>\<open>counts[k] += 1\<close> on a \<^verbatim>\<open>defaultdict(int)\<close>.\<close>

definition dd_incr :: "('k, nat) dict \<Rightarrow> 'k \<Rightarrow> ('k, nat) dict" where
  "dd_incr d k = AList.update k (dd_get 0 d k + 1) d"

text \<open>\<^verbatim>\<open>lists[k].append(x)\<close> on a \<^verbatim>\<open>defaultdict(list)\<close>.\<close>

definition dd_append :: "('k, 'v list) dict \<Rightarrow> 'k \<Rightarrow> 'v \<Rightarrow> ('k, 'v list) dict" where
  "dd_append d k x = AList.update k (dd_get [] d k @ [x]) d"

text \<open>
  \<^verbatim>\<open>sorted(xs, key=f, reverse=True)\<close>: CPython reverses the list, sorts it stably in
  ascending order, and reverses the result, so equal keys keep their original order.
\<close>

definition sorted_reverse :: "('a \<Rightarrow> 'k::linorder) \<Rightarrow> 'a list \<Rightarrow> 'a list" where
  "sorted_reverse f xs = rev (sort_key f (rev xs))"

text \<open>The student dictionaries built by the roster code, and one enrollment row.\<close>

record student_data =
  st_name :: string
  st_department :: string
  st_academic_level :: string
  st_courses :: "course list"

record enrollment =
  enr_id :: student_id
  enr_name :: string
  enr_department :: string
  enr_academic_level :: string
  enr_course_code :: course

text \<open>
  The module-level settings of \<^verbatim>\<open>src/scheduleGenerator.py\<close>:
  \<^verbatim>\<open>MIN_DAYS_BETWEEN_EXAMS\<close>, \<^verbatim>\<open>SCHEDULING['skip_weekends']\<close>,
  \<^verbatim>\<open>SPECIFIC_START_DATE\<close> and \<^verbatim>\<open>SPECIFIC_END_DATE\<close>. \<^verbatim>\<open>MAX_EXAMS_PER_DAY\<close> is the
  literal 5 in the source.
\<close>

record config =
  min_days_between_exams :: int
  skip_weekends :: bool
  specific_start_date :: date
  specific_end_date :: date

definition MAX_EXAMS_PER_DAY :: nat where
  "MAX_EXAMS_PER_DAY = 5"

definition default_config :: config where
  "default_config = \<lparr> min_days_between_exams = 1, skip_weekends = True,
     specific_start_date = 739396, specific_end_date = 739415 \<rparr>"

record api_data =
  students_full_details :: "(student_id, student_data) dict"
  all_course_codes :: "course list"

record schedule_item =
  item_course_code :: course
  item_date :: date

record statistics =
  total_courses_requested :: nat
  total_courses_scheduled :: nat
  total_scheduling_days_used :: int
  total_students :: nat
  unresolved_student_conflicts :: nat
  courses_not_scheduled :: nat

record conflict =
  conflict_type :: string
  conflict_student_id :: student_id
  conflict_date1 :: date
  conflict_date2 :: date
  days_between :: int
  conflict_exams :: "course list"

record response =
  resp_schedule :: "schedule_item list"
  resp_statistics :: statistics
  resp_issues :: "string list"
  resp_final_conflicts :: "conflict list option"

section \<open>Greedy scheduler (\<^verbatim>\<open>generate_schedule_locally\<close>, date-only variant)\<close>

text \<open>The local variables the course loop mutates.\<close>

record sched_state =
  schedule :: "schedule_item list"
  course_dates :: "(course, date) dict"
  student_exam_dates :: "(student_id, date list) dict"
  exams_per_day :: "(date, nat) dict"
  unscheduled_courses :: "course list"

definition init_state :: sched_state where
  "init_state = \<lparr> schedule = [], course_dates = [], student_exam_dates = [],
     exams_per_day = [], unscheduled_courses = [] \<rparr>"

definition student_courses_of :: "(student_id, student_data) dict \<Rightarrow> (student_id, course list) dict" where
  "student_courses_of details = map (\<lambda>(s_id, data). (s_id, st_courses data)) details"

text \<open>
  \<^verbatim>\<open>course_student_count[course] += 1\<close> for every entry of every student's course
  list, and the list sorted by that count, largest first.
\<close>

definition course_student_count :: "(student_id, course list) dict \<Rightarrow> (course, nat) dict" where
  "course_student_count student_courses =
     foldl (\<lambda>counts (s_id, courses). foldl dd_incr counts courses) [] student_courses"

definition sorted_courses :: "(student_id, course list) dict \<Rightarrow> course list \<Rightarrow> course list" where
  "sorted_courses student_courses codes =
     sorted_reverse (\<lambda>c. dd_get 0 (course_student_count student_courses) c) codes"

text \<open>The \<^verbatim>\<open>while current_loop_date <= end_date\<close> loop that collects the usable dates.\<close>

function available_dates_loop :: "bool \<Rightarrow> date \<Rightarrow> date \<Rightarrow> date list \<Rightarrow> date list" where
  "available_dates_loop skip current_loop_date end_d available_dates =
     (if current_loop_date \<le> end_d
      then available_dates_loop skip (current_loop_date + 1) end_d
             (if \<not> (skip \<and> weekday current_loop_date \<ge> 5)
              then available_dates @ [current_loop_date] else available_dates)
      else available_dates)"
  by pat_completeness auto
termination
  by (relation "measure (\<lambda>(skip, cur, end_d, acc). nat (end_d + 1 - cur))") auto

declare available_dates_loop.simps [simp del]

definition available_dates_of :: "config \<Rightarrow> date list" where
  "available_dates_of cfg =
     available_dates_loop (skip_weekends cfg) (specific_start_date cfg) (specific_end_date cfg) []"

definition course_students_taking_this :: "(student_id, course list) dict \<Rightarrow> course \<Rightarrow> student_id list" where
  "course_students_taking_this student_courses c =
     map fst (filter (\<lambda>(s_id, courses). c \<in> set courses) student_courses)"

text \<open>
  The test made for one student against a candidate date: the date is already in the
  student's list, or some date of the list is closer than the minimum gap.
\<close>

definition date_conflicts :: "int \<Rightarrow> date \<Rightarrow> date list \<Rightarrow> bool" where
  "date_conflicts min_days test_date dates =
     (if test_date \<in> set dates then True
      else list_ex (\<lambda>other_date. 0 < \<bar>test_date - other_date\<bar> \<and>
                                   \<bar>test_date - other_date\<bar> < min_days) dates)"

text \<open>
  The loop over the students of the course, left at the first conflict. Reading
  \<^verbatim>\<open>student_exam_dates[student_id]\<close> stores an empty list for a student seen for the
  first time.
\<close>

fun check_students ::
  "int \<Rightarrow> date \<Rightarrow> student_id list \<Rightarrow> (student_id, date list) dict \<Rightarrow> bool \<times> (student_id, date list) dict" where
  "check_students min_days test_date [] sed = (False, sed)"
| "check_students min_days test_date (s # ss) sed =
     (let sed' = dd_touch [] sed s in
      if date_conflicts min_days test_date (dd_get [] sed' s) then (True, sed')
      else check_students min_days test_date ss sed')"

text \<open>
  The commit loop: every student of the course gets the date appended, and, inside the
  same loop body, one entry is appended to the schedule list.
\<close>

fun record_students ::
  "course \<Rightarrow> date \<Rightarrow> student_id list \<Rightarrow> (student_id, date list) dict \<times> schedule_item list \<Rightarrow>
     (student_id, date list) dict \<times> schedule_item list" where
  "record_students c test_date [] (sed, sch) = (sed, sch)"
| "record_students c test_date (s # ss) (sed, sch) =
     record_students c test_date ss
       (dd_append sed s test_date, sch @ [\<lparr> item_course_code = c, item_date = test_date \<rparr>])"

definition commit :: "course \<Rightarrow> date \<Rightarrow> student_id list \<Rightarrow> sched_state \<Rightarrow> sched_state" where
  "commit c test_date studs st =
     (let (sed, sch) = record_students c test_date studs (student_exam_dates st, schedule st) in
      st \<lparr> course_dates := AList.update c test_date (course_dates st),
           exams_per_day := dd_incr (exams_per_day st) test_date,
           student_exam_dates := sed,
           schedule := sch \<rparr>)"

text \<open>
  One pass of the body of \<^verbatim>\<open>for test_date in dates_to_try\<close>; the flag tells whether
  the course was committed (and the loop left by \<^verbatim>\<open>break\<close>).
\<close>

definition try_date ::
  "config \<Rightarrow> (student_id, course list) dict \<Rightarrow> course \<Rightarrow> date \<Rightarrow> sched_state \<Rightarrow> bool \<times> sched_state" where
  "try_date cfg student_courses c test_date st =
     (let st1 = st \<lparr> exams_per_day := dd_touch 0 (exams_per_day st) test_date \<rparr> in
      if dd_get 0 (exams_per_day st1) test_date \<ge> MAX_EXAMS_PER_DAY then (False, st1)
      else
        (let studs = course_students_taking_this student_courses c;
             (conflicts, sed) = check_students (min_days_between_exams cfg) test_date studs
                                  (student_exam_dates st1);
             st2 = st1 \<lparr> student_exam_dates := sed \<rparr>
         in if \<not> conflicts then (True, commit c test_date studs st2) else (False, st2)))"

fun try_dates ::
  "config \<Rightarrow> (student_id, course list) dict \<Rightarrow> course \<Rightarrow> date list \<Rightarrow> sched_state \<Rightarrow> bool \<times> sched_state" where
  "try_dates cfg student_courses c [] st = (False, st)"
| "try_dates cfg student_courses c (test_date # rest) st =
     (case try_date cfg student_courses c test_date st of
        (True, st') \<Rightarrow> (True, st')
      | (False, st') \<Rightarrow> try_dates cfg student_courses c rest st')"

text \<open>
  The body of \<^verbatim>\<open>for course in sorted_courses\<close> for one course, given the shuffled
  list of dates.
\<close>

definition schedule_course ::
  "config \<Rightarrow> (student_id, course list) dict \<Rightarrow> course \<Rightarrow> date list \<Rightarrow> sched_state \<Rightarrow> sched_state" where
  "schedule_course cfg student_courses c dates_to_try st =
     (case try_dates cfg student_courses c dates_to_try st of
        (True, st') \<Rightarrow> st'
      | (False, st') \<Rightarrow> st' \<lparr> unscheduled_courses := unscheduled_courses st' @ [c] \<rparr>)"

text \<open>
  \<^verbatim>\<open>random.shuffle\<close> is the only source of nondeterminism. The run takes the outcome of
  the \<open>k\<close>-th call as a function of the list it is given.
\<close>

fun schedule_courses ::
  "config \<Rightarrow> (nat \<Rightarrow> date list \<Rightarrow> date list) \<Rightarrow> (student_id, course list) dict \<Rightarrow> date list \<Rightarrow>
     nat \<Rightarrow> course list \<Rightarrow> sched_state \<Rightarrow> sched_state" where
  "schedule_courses cfg shuffle student_courses available_dates k [] st = st"
| "schedule_courses cfg shuffle student_courses available_dates k (c # rest) st =
     schedule_courses cfg shuffle student_courses available_dates (Suc k) rest
       (schedule_course cfg student_courses c (shuffle k available_dates) st)"

fun list_max :: "int list \<Rightarrow> int" where
  "list_max [] = 0"
| "list_max (x # xs) = foldl max x xs"

fun list_min :: "int list \<Rightarrow> int" where
  "list_min [] = 0"
| "list_min (x # xs) = foldl min x xs"

definition issue_text :: "course \<Rightarrow> string" where
  "issue_text c = ''Course '' @ c @ '' could not be scheduled.''"

definition make_response :: "course list \<Rightarrow> (student_id, course list) dict \<Rightarrow> sched_state \<Rightarrow> response" where
  "make_response codes student_courses st =
     (let scheduled_dates = map item_date (schedule st);
          total_days = (if scheduled_dates = [] then 0
                        else list_max scheduled_dates - list_min scheduled_dates + 1)
      in \<lparr> resp_schedule = schedule st,
           resp_statistics = \<lparr> total_courses_requested = length codes,
             total_courses_scheduled = length (schedule st),
             total_scheduling_days_used = total_days,
             total_students = length student_courses,
             unresolved_student_conflicts = 0,
             courses_not_scheduled = length (unscheduled_courses st) \<rparr>,
           resp_issues = map issue_text (unscheduled_courses st),
           resp_final_conflicts = None \<rparr>)"

text \<open>
  The two early exits both return \<^verbatim>\<open>None, None, None\<close>, after different messages.
\<close>

datatype gen_error = MissingData | NoAvailableDates

definition generate_schedule_locally ::
  "config \<Rightarrow> (nat \<Rightarrow> date list \<Rightarrow> date list) \<Rightarrow> api_data \<Rightarrow>
     gen_error + (response \<times> (student_id, date list) dict \<times> (course, date) dict)" where
  "generate_schedule_locally cfg shuffle api =
     (let student_courses = student_courses_of (students_full_details api);
          codes = all_course_codes api
      in if codes = [] \<or> student_courses = [] then Inl MissingData
         else
           (let available_dates = available_dates_of cfg in
            if available_dates = [] then Inl NoAvailableDates
            else
              (let st = schedule_courses cfg shuffle student_courses available_dates 0
                          (sorted_courses student_courses codes) init_state
               in Inr (make_response codes student_courses st,
                       student_exam_dates st, course_dates st))))"

section \<open>Conflict verifier (\<^verbatim>\<open>check_final_schedule_conflicts\<close>)\<close>

text \<open>
  \<^verbatim>\<open>[c for c, dt in course_dates.items() if dt == d and c in student_courses.get(student_id, [])]\<close>
\<close>

definition courses_on ::
  "(course, date) dict \<Rightarrow> (student_id, course list) dict \<Rightarrow> student_id \<Rightarrow> date \<Rightarrow> course list" where
  "courses_on cd student_courses sid d =
     map fst (filter (\<lambda>(c, dt). dt = d \<and> c \<in> set (dd_get [] student_courses sid)) cd)"

text \<open>
  The loop \<^verbatim>\<open>for i in range(len(sorted_exam_dates) - 1)\<close> over the adjacent pairs of
  the sorted dates of one student.
\<close>

fun check_gaps ::
  "int \<Rightarrow> (course, date) dict \<Rightarrow> (student_id, course list) dict \<Rightarrow> student_id \<Rightarrow> date list \<Rightarrow>
     conflict list" where
  "check_gaps min_days cd student_courses sid (date1 # date2 # rest) =
     (let days_diff = date2 - date1;
          courses1 = courses_on cd student_courses sid date1;
          courses2 = courses_on cd student_courses sid date2
      in (if 0 < days_diff \<and> days_diff < min_days \<and> (courses1 \<noteq> [] \<or> courses2 \<noteq> [])
          then [\<lparr> conflict_type = ''Insufficient Days Conflict'', conflict_student_id = sid,
                   conflict_date1 = date1, conflict_date2 = date2, days_between = days_diff,
                   conflict_exams = courses1 @ courses2 \<rparr>]
          else [])
         @ check_gaps min_days cd student_courses sid (date2 # rest))"
| "check_gaps min_days cd student_courses sid dates = []"

text \<open>
  \<^verbatim>\<open>sorted(list(set(exams)))\<close> is the sorted list of the distinct dates; the first
  test returns the empty list when one of the three maps is empty.
\<close>

definition check_final_schedule_conflicts ::
  "int \<Rightarrow> (student_id, date list) dict \<Rightarrow> (course, date) dict \<Rightarrow> (student_id, course list) dict \<Rightarrow>
     conflict list" where
  "check_final_schedule_conflicts min_days sed cd student_courses =
     (if sed = [] \<or> cd = [] \<or> student_courses = [] then []
      else concat (map (\<lambda>(sid, exams).
             check_gaps min_days cd student_courses sid (sort (remdups exams))) sed))"

section \<open>Conflict analyzer (\<^verbatim>\<open>analyze_course_conflicts\<close>)\<close>

text \<open>
  The index pairs \<open>i < j\<close> of a list, in the order of the two nested \<^verbatim>\<open>range\<close>
  loops, and the dictionary key \<^verbatim>\<open>f"{course1}_{course2}"\<close>.
\<close>

fun pairs_of :: "'a list \<Rightarrow> ('a \<times> 'a) list" where
  "pairs_of [] = []"
| "pairs_of (x # xs) = map (Pair x) xs @ pairs_of xs"

definition pair_key :: "course \<Rightarrow> course \<Rightarrow> string" where
  "pair_key course1 course2 = course1 @ ''_'' @ course2"

definition count_pairs :: "(string, nat) dict \<Rightarrow> course list \<Rightarrow> (string, nat) dict" where
  "count_pairs course_pairs courses =
     foldl (\<lambda>m (course1, course2). dd_incr m (pair_key course1 course2)) course_pairs (pairs_of courses)"

text \<open>
  \<^verbatim>\<open>course1, course2 = pair.split('_')\<close> in the printing loop over the first twenty
  pairs raises \<^verbatim>\<open>ValueError\<close> unless the key splits into exactly two parts.
\<close>

definition split_count :: "string \<Rightarrow> nat" where
  "split_count pair = Suc (length (filter (\<lambda>ch. ch = CHR ''_'') pair))"

datatype py_error = ValueError

definition collect_pairs :: "(student_id, student_data) dict \<Rightarrow> (string, nat) dict" where
  "collect_pairs students =
     foldl (\<lambda>m (student_id, data). count_pairs m (sort (st_courses data))) [] students"

definition analyze_course_conflicts ::
  "(student_id, student_data) dict \<Rightarrow> py_error + (string \<times> nat) list" where
  "analyze_course_conflicts students =
     (let sorted_pairs = sorted_reverse snd (collect_pairs students)
      in if list_ex (\<lambda>(pair, n). split_count pair \<noteq> 2) (take 20 sorted_pairs)
         then Inl ValueError else Inr sorted_pairs)"

text \<open>
  The variant of \<^verbatim>\<open>src/fakeData/scheduleGenerator.py\<close> leaves the course list as it
  is and swaps the two codes of a pair when the first is the larger.
\<close>

definition fd_canonical :: "course \<times> course \<Rightarrow> course \<times> course" where
  "fd_canonical p = (case p of (course1, course2) \<Rightarrow>
     if course1 > course2 then (course2, course1) else (course1, course2))"

definition fd_count_pairs :: "(string, nat) dict \<Rightarrow> course list \<Rightarrow> (string, nat) dict" where
  "fd_count_pairs course_pairs courses =
     foldl (\<lambda>m p. case fd_canonical p of (course1, course2) \<Rightarrow> dd_incr m (pair_key course1 course2))
       course_pairs (pairs_of courses)"

definition fd_collect_pairs :: "(student_id, student_data) dict \<Rightarrow> (string, nat) dict" where
  "fd_collect_pairs students =
     foldl (\<lambda>m (student_id, data). fd_count_pairs m (st_courses data)) [] students"

definition fd_analyze_course_conflicts ::
  "(student_id, student_data) dict \<Rightarrow> py_error + (string \<times> nat) list" where
  "fd_analyze_course_conflicts students =
     (let sorted_pairs = sorted_reverse snd (fd_collect_pairs students)
      in if list_ex (\<lambda>(pair, n). split_count pair \<noteq> 2) (take 20 sorted_pairs)
         then Inl ValueError else Inr sorted_pairs)"

section \<open>Enrollment index (\<^verbatim>\<open>group_enrollments_by_student\<close>)\<close>

definition add_enrollment ::
  "(student_id, student_data) dict \<Rightarrow> enrollment \<Rightarrow> (student_id, student_data) dict" where
  "add_enrollment students e =
     (let students' =
        (case map_of students (enr_id e) of
           None \<Rightarrow> students @ [(enr_id e, \<lparr> st_name = enr_name e, st_department = enr_department e,
                       st_academic_level = enr_academic_level e, st_courses = [] \<rparr>)]
         | Some d \<Rightarrow> students)
      in AList.map_entry (enr_id e)
           (\<lambda>d. d \<lparr> st_courses := st_courses d @ [enr_course_code e] \<rparr>) students')"

definition group_enrollments_by_student :: "enrollment list \<Rightarrow> (student_id, student_data) dict" where
  "group_enrollments_by_student enrollments = foldl add_enrollment [] enrollments"

section \<open>Remote suggestion path and the scheduling stage of \<^verbatim>\<open>main\<close>\<close>

text \<open>
  A schedule item of a parsed remote answer may lack a key, and its date string may
  fail to parse. The outcome of the HTTP request is an input of the model: the request
  raised, the content was not JSON, or it parsed to an object whose \<^verbatim>\<open>schedule\<close> is
  a list of items.
\<close>

datatype date_field = DateMissing | DateMalformed | DateValid date

record remote_item =
  ri_course_code :: "course option"
  ri_date :: date_field

datatype remote_outcome = RequestException | JSONDecodeError | Parsed "remote_item list"

definition add_exam_for_students ::
  "(student_id, course list) dict \<Rightarrow> course \<Rightarrow> date \<Rightarrow> (student_id, date list) dict \<Rightarrow>
     (student_id, date list) dict" where
  "add_exam_for_students student_courses c exam_date sed =
     foldl (\<lambda>m (student_id, courses). if c \<in> set courses then dd_append m student_id exam_date else m)
       sed student_courses"

definition build_student_exam_dates_from_schedule ::
  "remote_item list \<Rightarrow> (student_id, student_data) dict \<Rightarrow> (student_id, date list) dict" where
  "build_student_exam_dates_from_schedule schedule_list details =
     (let student_courses = student_courses_of details;
          sed = foldl (\<lambda>m item.
                  case ri_course_code item of
                    None \<Rightarrow> m
                  | Some c \<Rightarrow>
                      (case ri_date item of
                         DateValid exam_date \<Rightarrow> add_exam_for_students student_courses c exam_date m
                       | DateMissing \<Rightarrow> m
                       | DateMalformed \<Rightarrow> m)) [] schedule_list
      in map (\<lambda>(student_id, dates). (student_id, sort dates)) sed)"

text \<open>
  \<^verbatim>\<open>call_deepseek_api\<close> returns the three values of the local scheduler on every
  fallback, and the two values \<^verbatim>\<open>schedule_data, student_exam_dates\<close> when the remote
  answer parsed.
\<close>

datatype api_return =
  Pair2 "remote_item list" "(student_id, date list) dict"
| Triple3 "gen_error + (response \<times> (student_id, date list) dict \<times> (course, date) dict)"

definition call_deepseek_api ::
  "config \<Rightarrow> (nat \<Rightarrow> date list \<Rightarrow> date list) \<Rightarrow> string \<Rightarrow> remote_outcome \<Rightarrow> api_data \<Rightarrow> api_return" where
  "call_deepseek_api cfg shuffle api_key remote api =
     (if api_key = [] then Triple3 (generate_schedule_locally cfg shuffle api)
      else (case remote of
              RequestException \<Rightarrow> Triple3 (generate_schedule_locally cfg shuffle api)
            | JSONDecodeError \<Rightarrow> Triple3 (generate_schedule_locally cfg shuffle api)
            | Parsed schedule_list \<Rightarrow>
                Pair2 schedule_list
                  (build_student_exam_dates_from_schedule schedule_list (students_full_details api))))"

text \<open>
  The stage of \<^verbatim>\<open>main\<close> from \<^verbatim>\<open>Generating schedule...\<close> to the final conflict check.
  \<^verbatim>\<open>main\<close> unpacks three values from either scheduler; the \<^verbatim>\<open>ValueError\<close> of
  unpacking two is caught by its \<^verbatim>\<open>except Exception\<close>, which prints the error and
  leaves \<^verbatim>\<open>main\<close> without any output.
\<close>

datatype main_outcome =
  Failed
| UnexpectedError py_error
| Completed response "(student_id, date list) dict" "(course, date) dict"

definition final_check ::
  "config \<Rightarrow> (student_id, student_data) dict \<Rightarrow>
     gen_error + (response \<times> (student_id, date list) dict \<times> (course, date) dict) \<Rightarrow> main_outcome" where
  "final_check cfg students r =
     (case r of
        Inl e \<Rightarrow> Failed
      | Inr (schedule_data, sed, cd) \<Rightarrow>
          (let final_conflicts = check_final_schedule_conflicts (min_days_between_exams cfg) sed cd
                                   (student_courses_of students)
           in Completed
                (schedule_data \<lparr> resp_final_conflicts := Some final_conflicts,
                   resp_statistics := (resp_statistics schedule_data)
                     \<lparr> unresolved_student_conflicts := length final_conflicts \<rparr> \<rparr>)
                sed cd))"

definition main_generate ::
  "config \<Rightarrow> (nat \<Rightarrow> date list \<Rightarrow> date list) \<Rightarrow> bool \<Rightarrow> string \<Rightarrow> remote_outcome \<Rightarrow> api_data \<Rightarrow>
     main_outcome" where
  "main_generate cfg shuffle local_only api_key remote api =
     (let use_local_scheduler = (local_only \<or> api_key = []) in
      if use_local_scheduler
      then final_check cfg (students_full_details api) (generate_schedule_locally cfg shuffle api)
      else (case call_deepseek_api cfg shuffle api_key remote api of
              Pair2 schedule_data sed \<Rightarrow> UnexpectedError ValueError
            | Triple3 r \<Rightarrow> final_check cfg (students_full_details api) r))"

section \<open>Greedy scheduler, time-slot variant (\<^verbatim>\<open>src/fakeData/scheduleGenerator.py\<close>)\<close>

text \<open>
  The older variant schedules a course into a (date, time slot) pair. Its settings add
  \<^verbatim>\<open>EXAM_TIME_SLOTS\<close> and \<^verbatim>\<open>SCHEDULING['no_same_day_exams']\<close>; the day limit is the
  literal 5. The function is modelled from its first line to the end of the course loop;
  the report it assembles afterwards from the state of the loop (the schedule list, one
  issue per unscheduled course, the statistics and a conflict list) is not.
\<close>

record fd_config = config +
  time_slots :: "string list"
  no_same_day_exams :: bool

type_synonym slot = "date \<times> string"

record fd_item =
  fd_item_course_code :: course
  fd_item_date :: date
  fd_item_time_slot :: string

record fd_state =
  fd_schedule :: "fd_item list"
  fd_course_dates :: "(course, slot) dict"
  fd_student_exam_dates :: "(student_id, slot list) dict"
  fd_exams_per_day :: "(date, nat) dict"
  fd_unscheduled_courses :: "course list"

definition fd_init_state :: fd_state where
  "fd_init_state = \<lparr> fd_schedule = [], fd_course_dates = [], fd_student_exam_dates = [],
     fd_exams_per_day = [], fd_unscheduled_courses = [] \<rparr>"

text \<open>
  \<^verbatim>\<open>conflict_pairs[course1][course2] = count\<close> and the symmetric entry, for every row
  of \<^verbatim>\<open>api_data['conflict_analysis']\<close>; then the sum of the values stored under a
  course.
\<close>

definition set_pair ::
  "(course, (course, nat) dict) dict \<Rightarrow> course \<Rightarrow> course \<Rightarrow> nat \<Rightarrow> (course, (course, nat) dict) dict" where
  "set_pair conflict_pairs course1 course2 n =
     (let cp = (case map_of conflict_pairs course1 of
                  None \<Rightarrow> conflict_pairs @ [(course1, [])] | Some inner \<Rightarrow> conflict_pairs)
      in AList.map_entry course1 (AList.update course2 n) cp)"

definition fd_conflict_pairs ::
  "(course \<times> course \<times> nat) list \<Rightarrow> (course, (course, nat) dict) dict" where
  "fd_conflict_pairs conflict_analysis =
     foldl (\<lambda>m (course1, course2, n). set_pair (set_pair m course1 course2 n) course2 course1 n)
       [] conflict_analysis"

definition fd_conflict_count :: "(course \<times> course \<times> nat) list \<Rightarrow> course \<Rightarrow> nat" where
  "fd_conflict_count conflict_analysis c =
     sum_list (map snd (dd_get [] (fd_conflict_pairs conflict_analysis) c))"

definition fd_sorted_courses :: "(course \<times> course \<times> nat) list \<Rightarrow> course list \<Rightarrow> course list" where
  "fd_sorted_courses conflict_analysis all_courses =
     sorted_reverse (fd_conflict_count conflict_analysis) all_courses"

function fd_available_loop :: "bool \<Rightarrow> string list \<Rightarrow> date \<Rightarrow> date \<Rightarrow> slot list \<Rightarrow> slot list" where
  "fd_available_loop skip slots current_loop_date end_d available_datetimes =
     (if current_loop_date \<le> end_d
      then (if skip \<and> weekday current_loop_date \<ge> 5
            then fd_available_loop skip slots (current_loop_date + 1) end_d available_datetimes
            else fd_available_loop skip slots (current_loop_date + 1) end_d
                   (available_datetimes @ map (Pair current_loop_date) slots))
      else available_datetimes)"
  by pat_completeness auto
termination
  by (relation "measure (\<lambda>(skip, slots, cur, end_d, acc). nat (end_d + 1 - cur))") auto

declare fd_available_loop.simps [simp del]

fun fd_exam_conflicts :: "fd_config \<Rightarrow> date \<Rightarrow> slot list \<Rightarrow> bool" where
  "fd_exam_conflicts cfg test_date [] = False"
| "fd_exam_conflicts cfg test_date ((other_date, other_time) # rest) =
     (if test_date = other_date \<and> no_same_day_exams cfg then True
      else if 0 < \<bar>test_date - other_date\<bar> \<and> \<bar>test_date - other_date\<bar> < min_days_between_exams cfg
           then True
           else fd_exam_conflicts cfg test_date rest)"

fun fd_check_students ::
  "fd_config \<Rightarrow> date \<Rightarrow> student_id list \<Rightarrow> (student_id, slot list) dict \<Rightarrow> bool" where
  "fd_check_students cfg test_date [] sed = False"
| "fd_check_students cfg test_date (s # ss) sed =
     (if (case map_of sed s of None \<Rightarrow> False | Some exams \<Rightarrow> fd_exam_conflicts cfg test_date exams)
      then True else fd_check_students cfg test_date ss sed)"

definition fd_commit :: "course \<Rightarrow> slot \<Rightarrow> student_id list \<Rightarrow> fd_state \<Rightarrow> fd_state" where
  "fd_commit c sl studs st =
     st \<lparr> fd_course_dates := AList.update c sl (fd_course_dates st),
          fd_exams_per_day := dd_incr (fd_exams_per_day st) (fst sl),
          fd_student_exam_dates := foldl (\<lambda>sed s. dd_append sed s sl) (fd_student_exam_dates st) studs,
          fd_schedule := fd_schedule st @
            [\<lparr> fd_item_course_code = c, fd_item_date = fst sl, fd_item_time_slot = snd sl \<rparr>] \<rparr>"

definition fd_try_slot ::
  "fd_config \<Rightarrow> (student_id, course list) dict \<Rightarrow> course \<Rightarrow> slot \<Rightarrow> fd_state \<Rightarrow> bool \<times> fd_state" where
  "fd_try_slot cfg student_courses c sl st =
     (let st1 = st \<lparr> fd_exams_per_day := dd_touch 0 (fd_exams_per_day st) (fst sl) \<rparr> in
      if dd_get 0 (fd_exams_per_day st1) (fst sl) \<ge> 5 then (False, st1)
      else
        (let course_students = course_students_taking_this student_courses c in
         if \<not> fd_check_students cfg (fst sl) course_students (fd_student_exam_dates st1)
         then (True, fd_commit c sl course_students st1) else (False, st1)))"

fun fd_try_slots ::
  "fd_config \<Rightarrow> (student_id, course list) dict \<Rightarrow> course \<Rightarrow> slot list \<Rightarrow> fd_state \<Rightarrow> bool \<times> fd_state" where
  "fd_try_slots cfg student_courses c [] st = (False, st)"
| "fd_try_slots cfg student_courses c (sl # rest) st =
     (case fd_try_slot cfg student_courses c sl st of
        (True, st') \<Rightarrow> (True, st')
      | (False, st') \<Rightarrow> fd_try_slots cfg student_courses c rest st')"

definition fd_schedule_course ::
  "fd_config \<Rightarrow> (student_id, course list) dict \<Rightarrow> course \<Rightarrow> slot list \<Rightarrow> fd_state \<Rightarrow> fd_state" where
  "fd_schedule_course cfg student_courses c slots_to_try st =
     (case fd_try_slots cfg student_courses c slots_to_try st of
        (True, st') \<Rightarrow> st'
      | (False, st') \<Rightarrow> st' \<lparr> fd_unscheduled_courses := fd_unscheduled_courses st' @ [c] \<rparr>)"

fun fd_schedule_courses ::
  "fd_config \<Rightarrow> (nat \<Rightarrow> slot list \<Rightarrow> slot list) \<Rightarrow> (student_id, course list) dict \<Rightarrow> slot list \<Rightarrow>
     nat \<Rightarrow> course list \<Rightarrow> fd_state \<Rightarrow> fd_state" where
  "fd_schedule_courses cfg shuffle student_courses available k [] st = st"
| "fd_schedule_courses cfg shuffle student_courses available k (c # rest) st =
     fd_schedule_courses cfg shuffle student_courses available (Suc k) rest
       (fd_schedule_course cfg student_courses c (shuffle k available) st)"

text \<open>
  The three entries of \<^verbatim>\<open>api_data\<close> that the function reads:
  \<^verbatim>\<open>courses_by_dept_level\<close> (under each department-level key a list of courses with
  their code and name), \<^verbatim>\<open>students\<close> (a list of student records, each with its id)
  and \<^verbatim>\<open>conflict_analysis\<close> (rows of \<^verbatim>\<open>course1\<close>, \<^verbatim>\<open>course2\<close>,
  \<^verbatim>\<open>common_students\<close>). \<^verbatim>\<open>all_courses\<close> is the codes of all the groups, one
  group after the other; \<^verbatim>\<open>student_courses\<close> maps each id to the course list of its
  record, a later record of the same id replacing the list of the earlier one.
\<close>

record fd_course =
  fd_code :: course
  fd_name :: string

record fd_api_data =
  fd_courses_by_dept_level :: "(string, fd_course list) dict"
  fd_students :: "(student_id \<times> student_data) list"
  fd_conflict_analysis :: "(course \<times> course \<times> nat) list"

definition fd_all_courses :: "fd_api_data \<Rightarrow> course list" where
  "fd_all_courses api =
     concat (map (\<lambda>(dept_level, courses). map fd_code courses) (fd_courses_by_dept_level api))"

definition fd_student_courses_of :: "(student_id \<times> student_data) list \<Rightarrow> (student_id, course list) dict" where
  "fd_student_courses_of students =
     foldl (\<lambda>m (student_id, data). AList.update student_id (st_courses data) m) [] students"

definition fd_available_datetimes :: "fd_config \<Rightarrow> slot list" where
  "fd_available_datetimes cfg =
     fd_available_loop (skip_weekends cfg) (time_slots cfg) (specific_start_date cfg)
       (specific_end_date cfg) []"

text \<open>
  \<^verbatim>\<open>generate_schedule_locally\<close> of the time-slot variant, from its first line to the end
  of \<^verbatim>\<open>for course in sorted_courses\<close>: \<open>None\<close> is the early \<^verbatim>\<open>return None\<close> of a
  window without a slot, otherwise the result is the state in which the course loop ends.
\<close>

definition fd_generate_schedule_locally ::
  "fd_config \<Rightarrow> (nat \<Rightarrow> slot list \<Rightarrow> slot list) \<Rightarrow> fd_api_data \<Rightarrow> fd_state option" where
  "fd_generate_schedule_locally cfg shuffle api =
     (let all_courses = fd_all_courses api;
          sorted_courses = fd_sorted_courses (fd_conflict_analysis api) all_courses;
          student_courses = fd_student_courses_of (fd_students api);
          available_datetimes = fd_available_datetimes cfg
      in if available_datetimes = [] then None
         else Some (fd_schedule_courses cfg shuffle student_courses available_datetimes 0
                      sorted_courses fd_init_state))"

section \<open>Predicates and sample inputs of the statements\<close>

text \<open>
  The two calendar rules for the dates of one student: any two different dates are at
  least the minimum gap apart. The same date twice in the list is the same exam date
  recorded twice, not two exams.
\<close>

definition gap_ok :: "int \<Rightarrow> date list \<Rightarrow> bool" where
  "gap_ok m ds = (\<forall>d1\<in>set ds. \<forall>d2\<in>set ds. d1 \<noteq> d2 \<longrightarrow> m \<le> \<bar>d1 - d2\<bar>)"

definition sed_ok :: "int \<Rightarrow> (student_id, date list) dict \<Rightarrow> bool" where
  "sed_ok m sed = (\<forall>(s, ds)\<in>set sed. gap_ok m ds)"

text \<open>
  Sample inputs: a window from Monday 2025-05-26 to Wednesday 2025-05-28 with a minimum
  gap of two days, and \<^verbatim>\<open>random.shuffle\<close> leaving every list as it is.
\<close>

definition student_with :: "course list \<Rightarrow> student_data" where
  "student_with cs = \<lparr> st_name = [], st_department = [], st_academic_level = [],
     st_courses = cs \<rparr>"

definition demo_config :: config where
  "demo_config = \<lparr> min_days_between_exams = 2, skip_weekends = True,
     specific_start_date = 739397, specific_end_date = 739399 \<rparr>"

definition no_shuffle :: "nat \<Rightarrow> 'a list \<Rightarrow> 'a list" where
  "no_shuffle k xs = xs"

definition demo_api :: api_data where
  "demo_api = \<lparr> students_full_details =
       [(''s1'', student_with [''A'', ''B'']), (''s2'', student_with [''A''])],
     all_course_codes = [''A'', ''B''] \<rparr>"

definition demo_state :: sched_state where
  "demo_state = \<lparr> schedule = [\<lparr> item_course_code = ''A'', item_date = 739397 \<rparr>,
                                \<lparr> item_course_code = ''A'', item_date = 739397 \<rparr>],
     course_dates = [(''A'', 739397)],
     student_exam_dates = [(''s1'', [739397]), (''s2'', [739397])],
     exams_per_day = [(739397, 1)], unscheduled_courses = [] \<rparr>"

text \<open>
  The states a run of the course loop passes through, at the grain of one candidate date:
  the initial state, the state after the body of \<^verbatim>\<open>for test_date in dates_to_try\<close>
  ran once more (for any course and any date), and the state after a course was put on
  the unscheduled list. The load invariant is the bound on the per-day counter together
  with the count of courses the course-date map assigns to a day.
\<close>

inductive reachable :: "config \<Rightarrow> (student_id, course list) dict \<Rightarrow> sched_state \<Rightarrow> bool"
  for cfg :: config and sc :: "(student_id, course list) dict" where
  start: "reachable cfg sc init_state"
| attempt: "reachable cfg sc st \<Longrightarrow> reachable cfg sc (snd (try_date cfg sc c t st))"
| give_up: "reachable cfg sc st \<Longrightarrow>
     reachable cfg sc (st \<lparr> unscheduled_courses := unscheduled_courses st @ [c] \<rparr>)"

definition courses_on_day :: "(course, date) dict \<Rightarrow> date \<Rightarrow> nat" where
  "courses_on_day cd d = length (filter (\<lambda>(c, dt). dt = d) cd)"

definition load_inv :: "sched_state \<Rightarrow> bool" where
  "load_inv st = ((\<forall>d. dd_get 0 (exams_per_day st) d \<le> MAX_EXAMS_PER_DAY) \<and>
     (\<forall>d. courses_on_day (course_dates st) d \<le> dd_get 0 (exams_per_day st) d) \<and>
     distinct (map fst (course_dates st)))"

inductive fd_reachable :: "fd_config \<Rightarrow> (student_id, course list) dict \<Rightarrow> fd_state \<Rightarrow> bool"
  for cfg :: fd_config and sc :: "(student_id, course list) dict" where
  fd_start: "fd_reachable cfg sc fd_init_state"
| fd_attempt: "fd_reachable cfg sc st \<Longrightarrow> fd_reachable cfg sc (snd (fd_try_slot cfg sc c sl st))"
| fd_give_up: "fd_reachable cfg sc st \<Longrightarrow>
     fd_reachable cfg sc (st \<lparr> fd_unscheduled_courses := fd_unscheduled_courses st @ [c] \<rparr>)"

definition fd_courses_on_day :: "(course, slot) dict \<Rightarrow> date \<Rightarrow> nat" where
  "fd_courses_on_day cd d = length (filter (\<lambda>(c, sl). fst sl = d) cd)"

definition fd_load_inv :: "fd_state \<Rightarrow> bool" where
  "fd_load_inv st = ((\<forall>d. dd_get 0 (fd_exams_per_day st) d \<le> 5) \<and>
     (\<forall>d. fd_courses_on_day (fd_course_dates st) d \<le> dd_get 0 (fd_exams_per_day st) d) \<and>
     distinct (map fst (fd_course_dates st)))"

definition full_day_state :: sched_state where
  "full_day_state = \<lparr> schedule = [],
     course_dates = [(''C1'', 739397), (''C2'', 739397), (''C3'', 739397), (''C4'', 739397), (''C5'', 739397)],
     student_exam_dates = [], exams_per_day = [(739397, 5)], unscheduled_courses = [] \<rparr>"

definition fd_demo_config :: fd_config where
  "fd_demo_config = \<lparr> min_days_between_exams = 2, skip_weekends = True,
     specific_start_date = 739397, specific_end_date = 739399,
     time_slots = [''8:30-10:30'', ''11:30-1:30''], no_same_day_exams = True \<rparr>"

definition fd_full_day_state :: fd_state where
  "fd_full_day_state = \<lparr> fd_schedule =
       [\<lparr> fd_item_course_code = ''C1'', fd_item_date = 739397, fd_item_time_slot = ''8:30-10:30'' \<rparr>,
        \<lparr> fd_item_course_code = ''C2'', fd_item_date = 739397, fd_item_time_slot = ''8:30-10:30'' \<rparr>,
        \<lparr> fd_item_course_code = ''C3'', fd_item_date = 739397, fd_item_time_slot = ''8:30-10:30'' \<rparr>,
        \<lparr> fd_item_course_code = ''C4'', fd_item_date = 739397, fd_item_time_slot = ''8:30-10:30'' \<rparr>,
        \<lparr> fd_item_course_code = ''C5'', fd_item_date = 739397, fd_item_time_slot = ''8:30-10:30'' \<rparr>],
     fd_course_dates = [(''C1'', (739397, ''8:30-10:30'')), (''C2'', (739397, ''8:30-10:30'')),
       (''C3'', (739397, ''8:30-10:30'')), (''C4'', (739397, ''8:30-10:30'')), (''C5'', (739397, ''8:30-10:30''))],
     fd_student_exam_dates = [], fd_exams_per_day = [(739397, 5)], fd_unscheduled_courses = [] \<rparr>"

text \<open>
  What a failed attempt may change: nothing but the presence of keys. The schedule list,
  the course-date map and the unscheduled list are the same, every per-day counter and
  every student's date list reads the same, and each of the two \<^verbatim>\<open>defaultdict\<close>s is
  the old one followed by keys that hold the default (0, the empty list): the keys the
  reads \<^verbatim>\<open>exams_per_day[test_date]\<close> and \<^verbatim>\<open>student_exam_dates[student_id]\<close> stored.
  In the time-slot variant the student map is a plain \<^verbatim>\<open>dict\<close> and stays as it is.
\<close>

definition state_kept :: "sched_state \<Rightarrow> sched_state \<Rightarrow> bool" where
  "state_kept st st' =
     (schedule st' = schedule st \<and> course_dates st' = course_dates st \<and>
      unscheduled_courses st' = unscheduled_courses st \<and>
      (\<forall>d. dd_get 0 (exams_per_day st') d = dd_get 0 (exams_per_day st) d) \<and>
      (\<forall>s. dd_get [] (student_exam_dates st') s = dd_get [] (student_exam_dates st) s) \<and>
      (\<exists>ds. exams_per_day st' = exams_per_day st @ map (\<lambda>d. (d, 0)) ds) \<and>
      (\<exists>ss. student_exam_dates st' = student_exam_dates st @ map (\<lambda>s. (s, [])) ss))"

definition fd_state_kept :: "fd_state \<Rightarrow> fd_state \<Rightarrow> bool" where
  "fd_state_kept st st' =
     (fd_schedule st' = fd_schedule st \<and> fd_course_dates st' = fd_course_dates st \<and>
      fd_unscheduled_courses st' = fd_unscheduled_courses st \<and>
      fd_student_exam_dates st' = fd_student_exam_dates st \<and>
      (\<forall>d. dd_get 0 (fd_exams_per_day st') d = dd_get 0 (fd_exams_per_day st) d) \<and>
      (\<exists>ds. fd_exams_per_day st' = fd_exams_per_day st @ map (\<lambda>d. (d, 0)) ds))"

definition demo_courses3 :: "(student_id, course list) dict" where
  "demo_courses3 = [(''s3'', [''B'']), (''s1'', [''A'', ''B'']), (''s2'', [''A''])]"

definition fd_demo_state :: fd_state where
  "fd_demo_state = \<lparr> fd_schedule =
       [\<lparr> fd_item_course_code = ''A'', fd_item_date = 739397, fd_item_time_slot = ''8:30-10:30'' \<rparr>],
     fd_course_dates = [(''A'', (739397, ''8:30-10:30''))],
     fd_student_exam_dates = [(''s1'', [(739397, ''8:30-10:30'')]), (''s2'', [(739397, ''8:30-10:30'')])],
     fd_exams_per_day = [(739397, 1)], fd_unscheduled_courses = [] \<rparr>"

text \<open>
  Two windows without a usable date: the start after the end, and the weekend of
  Saturday 2025-05-31 and Sunday 2025-06-01 with weekends skipped.
\<close>

definition reversed_window_config :: config where
  "reversed_window_config = \<lparr> min_days_between_exams = 2, skip_weekends = False,
     specific_start_date = 739400, specific_end_date = 739399 \<rparr>"

definition weekend_window_config :: config where
  "weekend_window_config = \<lparr> min_days_between_exams = 2, skip_weekends = True,
     specific_start_date = 739402, specific_end_date = 739403 \<rparr>"

text \<open>
  For the enrollment index: the keys of a list in the order of their first occurrence,
  the course codes of the enrollment rows of one student in input order, and three
  enrollment rows in which the pair (s1, A) occurs twice.
\<close>

definition enrollment_of :: "student_id \<Rightarrow> course \<Rightarrow> enrollment" where
  "enrollment_of s c = \<lparr> enr_id = s, enr_name = [], enr_department = [], enr_academic_level = [],
     enr_course_code = c \<rparr>"

definition first_seen :: "'a list \<Rightarrow> 'a list" where
  "first_seen xs = rev (remdups (rev xs))"

definition records_of :: "enrollment list \<Rightarrow> student_id \<Rightarrow> course list" where
  "records_of enrollments sid = map enr_course_code (filter (\<lambda>e. enr_id e = sid) enrollments)"

definition demo_enrollments :: "enrollment list" where
  "demo_enrollments = [enrollment_of ''s1'' ''A'', enrollment_of ''s1'' ''B'', enrollment_of ''s1'' ''A'']"

text \<open>
  For the conflict analyzer: the dictionary keys in the order in which the two loops
  count them (for either variant), the number of students enrolled in both courses of a
  pair, the inputs on which every key splits back into its two codes (course lists
  without repetition, course codes without an underscore), and what a ranked output is:
  sorted by count, largest first; pairs of equal count in the order in which their keys
  were first counted; every key once, built from two codes in ascending order; and the
  count stored for a pair of codes is the number of students who take both.
\<close>

definition all_keys :: "(student_id, student_data) dict \<Rightarrow> string list" where
  "all_keys students =
     concat (map (\<lambda>(student_id, data).
       map (\<lambda>(course1, course2). pair_key course1 course2) (pairs_of (sort (st_courses data)))) students)"

definition canon_key :: "course \<times> course \<Rightarrow> string" where
  "canon_key p = (case fd_canonical p of (course1, course2) \<Rightarrow> pair_key course1 course2)"

definition fd_all_keys :: "(student_id, student_data) dict \<Rightarrow> string list" where
  "fd_all_keys students =
     concat (map (\<lambda>(student_id, data).
       map canon_key (pairs_of (st_courses data))) students)"

definition shared_students :: "(student_id, student_data) dict \<Rightarrow> course \<Rightarrow> course \<Rightarrow> nat" where
  "shared_students students a b =
     length (filter (\<lambda>(student_id, data). a \<in> set (st_courses data) \<and> b \<in> set (st_courses data)) students)"

definition clean_courses :: "(student_id, student_data) dict \<Rightarrow> bool" where
  "clean_courses students =
     (\<forall>(student_id, data)\<in>set students.
        distinct (st_courses data) \<and> (\<forall>c\<in>set (st_courses data). CHR ''_'' \<notin> set c))"

definition ranked :: "(student_id, student_data) dict \<Rightarrow> string list \<Rightarrow> (string \<times> nat) list \<Rightarrow> bool" where
  "ranked students keys pairs =
     (sorted_wrt (\<lambda>p q. snd q \<le> snd p) pairs \<and>
      (\<forall>n. map fst (filter (\<lambda>p. snd p = n) pairs) =
            filter (\<lambda>k. count_list keys k = n) (first_seen keys)) \<and>
      distinct (map fst pairs) \<and>
      (\<forall>p\<in>set pairs. \<exists>a b. fst p = pair_key a b \<and> a < b \<and> CHR ''_'' \<notin> set a \<and> CHR ''_'' \<notin> set b) \<and>
      (\<forall>a b. CHR ''_'' \<notin> set a \<longrightarrow>
         map_of pairs (pair_key a b) =
           (if a < b \<and> 0 < shared_students students a b
            then Some (shared_students students a b) else None)))"

definition ranking_example :: "(student_id, student_data) dict" where
  "ranking_example = [(''s1'', student_with [''A'', ''B'']), (''s2'', student_with [''A'', ''B'']),
     (''s3'', student_with [''A'', ''C''])]"

definition tie_example :: "(student_id, student_data) dict" where
  "tie_example = [(''s1'', student_with [''C'', ''D'']), (''s2'', student_with [''A'', ''B''])]"

text \<open>
  For the course order. Following the spec's words, the conflict pressure of a course is
  the sum, over the other courses, of the number of students shared with it. The date-only
  scheduler sorts by the enrollment count instead: the number of entries of the students'
  course lists that name the course. The time-slot scheduler sorts by what it adds up from
  the rows of \<^verbatim>\<open>conflict_analysis\<close>; when no two rows are about the same
  unordered pair and no row pairs a course with itself, that is the sum of the counts of
  the rows that name the course.
\<close>

definition spec_conflict_pressure :: "(student_id, student_data) dict \<Rightarrow> course \<Rightarrow> nat" where
  "spec_conflict_pressure students c =
     sum_list (map (\<lambda>c'. shared_students students c c')
       (remdups (filter (\<lambda>c'. c' \<noteq> c) (concat (map (\<lambda>(student_id, data). st_courses data) students)))))"

definition enrollment_count :: "(student_id, course list) dict \<Rightarrow> course \<Rightarrow> nat" where
  "enrollment_count student_courses c =
     sum_list (map (\<lambda>(student_id, courses). count_list courses c) student_courses)"

definition pressure_example :: "(student_id, student_data) dict" where
  "pressure_example = [(''s1'', student_with [''A'']), (''s2'', student_with [''A'']),
     (''s3'', student_with [''C'', ''B''])]"

definition rows_well_formed :: "(course \<times> course \<times> nat) list \<Rightarrow> bool" where
  "rows_well_formed conflict_analysis =
     (distinct (map (\<lambda>(course1, course2, n). fd_canonical (course1, course2)) conflict_analysis) \<and>
      (\<forall>(course1, course2, n)\<in>set conflict_analysis. course1 \<noteq> course2))"

definition rows_pressure :: "(course \<times> course \<times> nat) list \<Rightarrow> course \<Rightarrow> nat" where
  "rows_pressure conflict_analysis c =
     sum_list (map (\<lambda>(course1, course2, n). if c = course1 \<or> c = course2 then n else 0) conflict_analysis)"

definition rows_of :: "(course \<times> course \<times> nat) list \<Rightarrow> course \<Rightarrow> (course, nat) dict" where
  "rows_of conflict_analysis c =
     concat (map (\<lambda>(course1, course2, n).
       (if c = course1 then [(course2, n)] else []) @ (if c = course2 then [(course1, n)] else []))
       conflict_analysis)"

text \<open>
  What it means that a run attempts the courses in a given order: the state in which the
  course loop ends is the initial state taken through one attempt per course of the list,
  from left to right, the \<open>k\<close>-th attempt trying the dates in the order of the \<open>k\<close>-th
  shuffle. What the outputs show of that order: the committed courses and the courses
  given up are the two parts of the list, each in the order of the list.
\<close>

definition attempts_in_order ::
  "config \<Rightarrow> (nat \<Rightarrow> date list \<Rightarrow> date list) \<Rightarrow> (student_id, course list) dict \<Rightarrow> date list \<Rightarrow>
     course list \<Rightarrow> sched_state" where
  "attempts_in_order cfg shuffle sc dates order =
     foldl (\<lambda>st (k, c). schedule_course cfg sc c (shuffle k dates) st) init_state (enumerate 0 order)"

definition fd_attempts_in_order ::
  "fd_config \<Rightarrow> (nat \<Rightarrow> slot list \<Rightarrow> slot list) \<Rightarrow> (student_id, course list) dict \<Rightarrow> slot list \<Rightarrow>
     course list \<Rightarrow> fd_state" where
  "fd_attempts_in_order cfg shuffle sc slots order =
     foldl (\<lambda>st (k, c). fd_schedule_course cfg sc c (shuffle k slots) st) fd_init_state (enumerate 0 order)"

definition in_attempt_order :: "course list \<Rightarrow> course list \<Rightarrow> course list \<Rightarrow> bool" where
  "in_attempt_order order committed failed =
     (committed = filter (\<lambda>c. c \<in> set committed) order \<and>
      failed = filter (\<lambda>c. c \<notin> set committed) order)"

text \<open>
  Sample inputs for the course order. In the first, course A has two students and the
  courses C, B and D share the one student s3; in the second, the rows are the pairs the
  conflict analyzer finds for the three students; in the third, A and B share three
  students and C and D have none.
\<close>

definition order_api :: api_data where
  "order_api = \<lparr> students_full_details =
       [(''s1'', student_with [''A'']), (''s2'', student_with [''A'']),
        (''s3'', student_with [''C'', ''B'', ''D''])],
     all_course_codes = [''D'', ''B'', ''C'', ''A''] \<rparr>"

definition pressure_api :: api_data where
  "pressure_api = \<lparr> students_full_details = pressure_example,
     all_course_codes = [''A'', ''C'', ''B''] \<rparr>"

definition course_named :: "course \<Rightarrow> fd_course" where
  "course_named c = \<lparr> fd_code = c, fd_name = [] \<rparr>"

definition fd_order_api :: fd_api_data where
  "fd_order_api = \<lparr> fd_courses_by_dept_level =
       [(''CS_1'', [course_named ''A'', course_named ''B'']),
        (''CS_2'', [course_named ''C'', course_named ''D''])],
     fd_students = [(''s1'', student_with [''B'', ''C'', ''D'']), (''s2'', student_with [''B'', ''C'']),
        (''s3'', student_with [''A'', ''B''])],
     fd_conflict_analysis = [(''B'', ''C'', 2), (''B'', ''D'', 1), (''C'', ''D'', 1), (''A'', ''B'', 1)] \<rparr>"

definition fd_tie_api :: fd_api_data where
  "fd_tie_api = \<lparr> fd_courses_by_dept_level =
       [(''CS_1'', [course_named ''D'', course_named ''C'', course_named ''B'', course_named ''A''])],
     fd_students = [(''s1'', student_with [''A'', ''B'']), (''s2'', student_with [''A'', ''B'']),
        (''s3'', student_with [''A'', ''B''])],
     fd_conflict_analysis = [(''A'', ''B'', 3)] \<rparr>"

text \<open>
  For the verifier: two dates of a student are adjacent when both are in the list, the
  first is the earlier, and no date of the list lies strictly between them; the record the
  verifier builds for such a pair; and when a record is flagged for a student.
\<close>

definition adjacent_dates :: "date list \<Rightarrow> date \<Rightarrow> date \<Rightarrow> bool" where
  "adjacent_dates exams d1 d2 =
     (d1 \<in> set exams \<and> d2 \<in> set exams \<and> d1 < d2 \<and> (\<forall>d\<in>set exams. \<not> (d1 < d \<and> d < d2)))"

definition gap_conflict ::
  "(course, date) dict \<Rightarrow> (student_id, course list) dict \<Rightarrow> student_id \<Rightarrow> date \<Rightarrow> date \<Rightarrow> conflict" where
  "gap_conflict cd student_courses sid d1 d2 =
     \<lparr> conflict_type = ''Insufficient Days Conflict'', conflict_student_id = sid,
       conflict_date1 = d1, conflict_date2 = d2, days_between = d2 - d1,
       conflict_exams = courses_on cd student_courses sid d1 @ courses_on cd student_courses sid d2 \<rparr>"

definition flagged ::
  "int \<Rightarrow> (course, date) dict \<Rightarrow> (student_id, course list) dict \<Rightarrow> student_id \<Rightarrow> date list \<Rightarrow>
     conflict \<Rightarrow> bool" where
  "flagged min_days cd student_courses sid exams r =
     (\<exists>d1 d2. adjacent_dates exams d1 d2 \<and> d2 - d1 < min_days \<and>
        (courses_on cd student_courses sid d1 \<noteq> [] \<or> courses_on cd student_courses sid d2 \<noteq> []) \<and>
        r = gap_conflict cd student_courses sid d1 d2)"

definition close_exams_conflict :: conflict where
  "close_exams_conflict =
     \<lparr> conflict_type = ''Insufficient Days Conflict'', conflict_student_id = ''s1'',
       conflict_date1 = 739397, conflict_date2 = 739398, days_between = 1,
       conflict_exams = [''A'', ''B''] \<rparr>"

text \<open>
  For the scheduling stage of \<^verbatim>\<open>main\<close>: a remote answer that puts courses A and B on
  the same day.
\<close>

definition same_day_remote :: "remote_item list" where
  "same_day_remote = [\<lparr> ri_course_code = Some ''A'', ri_date = DateValid 739397 \<rparr>,
                      \<lparr> ri_course_code = Some ''B'', ri_date = DateValid 739397 \<rparr>]"

section \<open>Facts about the dictionary operations\<close>

lemma dd_get_touch [simp]: "dd_get dflt (dd_touch dflt d k) k' = dd_get dflt d k'"
  by (auto simp: dd_get_def dd_touch_def map_add_def split: option.splits)

lemma set_dd_touch: "set (dd_touch dflt d k) \<subseteq> insert (k, dflt) (set d)"
  by (auto simp: dd_touch_def split: option.splits)

lemma set_update_subset: "set (AList.update k v al) \<subseteq> insert (k, v) (set al)"
  by (induction al) auto

lemma dd_get_append [simp]:
  "dd_get [] (dd_append d k x) k' = (if k' = k then dd_get [] d k @ [x] else dd_get [] d k')"
  by (simp add: dd_get_def dd_append_def update_conv')

lemma dd_get_incr [simp]:
  "dd_get 0 (dd_incr d k) k' = (if k' = k then dd_get 0 d k + 1 else dd_get 0 d k')"
  by (simp add: dd_get_def dd_incr_def update_conv')

lemma dd_get_in_set: "dd_get dflt d k = v \<Longrightarrow> v = dflt \<or> (k, v) \<in> set d"
  by (auto simp: dd_get_def split: option.splits dest: map_of_SomeD)

section \<open>The scheduler keeps every student's dates apart\<close>

lemma gap_ok_Nil [simp]: "gap_ok m []"
  by (simp add: gap_ok_def)

lemma gap_ok_set: "set xs = set ys \<Longrightarrow> gap_ok m xs = gap_ok m ys"
  by (simp add: gap_ok_def)

lemma sed_ok_get: "sed_ok m sed \<Longrightarrow> gap_ok m (dd_get [] sed s)"
  using dd_get_in_set[of "[]" sed s "dd_get [] sed s"] by (auto simp: sed_ok_def)

lemma no_conflict_gap_ok:
  assumes "\<not> date_conflicts m t ds" "gap_ok m ds"
  shows "gap_ok m (t # ds)"
proof -
  from assms(1) have nin: "t \<notin> set ds"
    and far: "\<forall>d\<in>set ds. \<not> (0 < \<bar>t - d\<bar> \<and> \<bar>t - d\<bar> < m)"
    by (auto simp: date_conflicts_def list_ex_iff split: if_splits)
  have "m \<le> \<bar>t - d\<bar> \<and> m \<le> \<bar>d - t\<bar>" if "d \<in> set ds" for d
  proof -
    from that nin have "d \<noteq> t" by auto
    with far that show ?thesis by fastforce
  qed
  with assms(2) show ?thesis
    by (auto simp: gap_ok_def)
qed

lemma check_students_frame:
  "check_students m t studs sed = (b, sed') \<Longrightarrow>
     (\<forall>s. dd_get [] sed' s = dd_get [] sed s) \<and> set sed' \<subseteq> set sed \<union> (\<lambda>s. (s, [])) ` set studs"
proof (induction studs arbitrary: sed)
  case Nil
  then show ?case by simp
next
  case (Cons s ss)
  show ?case
  proof (cases "date_conflicts m t (dd_get [] sed s)")
    case True
    with Cons.prems have "sed' = dd_touch [] sed s" by (simp add: Let_def)
    then show ?thesis using set_dd_touch[of "[]" sed s] by auto
  next
    case False
    with Cons.prems have "check_students m t ss (dd_touch [] sed s) = (b, sed')"
      by (simp add: Let_def)
    from Cons.IH[OF this] show ?thesis using set_dd_touch[of "[]" sed s] by auto
  qed
qed

lemma check_students_False:
  "check_students m t studs sed = (False, sed') \<Longrightarrow>
     \<forall>s\<in>set studs. \<not> date_conflicts m t (dd_get [] sed s)"
proof (induction studs arbitrary: sed)
  case Nil
  then show ?case by simp
next
  case (Cons s ss)
  from Cons.prems have nc: "\<not> date_conflicts m t (dd_get [] sed s)"
    by (auto simp: Let_def split: if_splits)
  with Cons.prems have "check_students m t ss (dd_touch [] sed s) = (False, sed')"
    by (simp add: Let_def)
  from Cons.IH[OF this] nc show ?case by simp
qed

lemma sed_ok_append:
  assumes "sed_ok m sed" and "gap_ok m (t # dd_get [] sed s)"
  shows "sed_ok m (dd_append sed s t)"
proof -
  have "gap_ok m (dd_get [] sed s @ [t])"
    using assms(2) gap_ok_set[of "dd_get [] sed s @ [t]" "t # dd_get [] sed s" m] by auto
  with assms(1) show ?thesis
    using set_update_subset[of s "dd_get [] sed s @ [t]" sed]
    by (auto simp: sed_ok_def dd_append_def)
qed

lemma record_students_sed_ok:
  "record_students c t studs (sed, sch) = (sed', sch') \<Longrightarrow> sed_ok m sed \<Longrightarrow>
     \<forall>s\<in>set studs. gap_ok m (t # dd_get [] sed s) \<Longrightarrow> sed_ok m sed'"
proof (induction studs arbitrary: sed sch)
  case Nil
  then show ?case by simp
next
  case (Cons s ss)
  from Cons.prems(1) have r: "record_students c t ss
      (dd_append sed s t, sch @ [\<lparr> item_course_code = c, item_date = t \<rparr>]) = (sed', sch')"
    by simp
  have ok1: "sed_ok m (dd_append sed s t)"
    using Cons.prems(2,3) by (simp add: sed_ok_append)
  have "gap_ok m (t # dd_get [] (dd_append sed s t) s')" if "s' \<in> set ss" for s'
  proof (cases "s' = s")
    case True
    have "set (t # dd_get [] sed s @ [t]) = set (t # dd_get [] sed s)" by auto
    from gap_ok_set[OF this, of m] Cons.prems(3) True show ?thesis by simp
  next
    case False
    with that Cons.prems(3) show ?thesis by simp
  qed
  with Cons.IH[OF r ok1] show ?case by blast
qed


lemma try_date_sed_ok:
  assumes "sed_ok (min_days_between_exams cfg) (student_exam_dates st)"
  shows "sed_ok (min_days_between_exams cfg) (student_exam_dates (snd (try_date cfg sc c t st)))"
proof -
  let ?m = "min_days_between_exams cfg"
  let ?studs = "course_students_taking_this sc c"
  obtain b sed where cs: "check_students ?m t ?studs (student_exam_dates st) = (b, sed)"
    by (cases "check_students ?m t ?studs (student_exam_dates st)")
  from check_students_frame[OF cs] assms have ok: "sed_ok ?m sed"
    by (fastforce simp: sed_ok_def)
  show ?thesis
  proof (cases "\<not> b \<and> \<not> MAX_EXAMS_PER_DAY \<le> dd_get 0 (exams_per_day st) t")
    case False
    then show ?thesis using assms ok cs by (auto simp: try_date_def Let_def)
  next
    case True
    obtain sed' sch' where rs: "record_students c t ?studs (sed, schedule st) = (sed', sch')"
      by (cases "record_students c t ?studs (sed, schedule st)")
    from True cs have "check_students ?m t ?studs (student_exam_dates st) = (False, sed)" by simp
    from check_students_False[OF this]
    have "\<forall>s\<in>set ?studs. \<not> date_conflicts ?m t (dd_get [] (student_exam_dates st) s)" .
    with check_students_frame[OF cs] have "\<forall>s\<in>set ?studs. \<not> date_conflicts ?m t (dd_get [] sed s)"
      by simp
    then have "\<forall>s\<in>set ?studs. gap_ok ?m (t # dd_get [] sed s)"
      using ok by (simp add: no_conflict_gap_ok sed_ok_get)
    from record_students_sed_ok[OF rs ok this] have "sed_ok ?m sed'" .
    with True cs rs show ?thesis by (simp add: try_date_def Let_def commit_def)
  qed
qed

lemma try_dates_sed_ok:
  "sed_ok (min_days_between_exams cfg) (student_exam_dates st) \<Longrightarrow>
   sed_ok (min_days_between_exams cfg) (student_exam_dates (snd (try_dates cfg sc c ds st)))"
proof (induction ds arbitrary: st)
  case Nil
  then show ?case by simp
next
  case (Cons d ds)
  obtain b st' where td: "try_date cfg sc c d st = (b, st')"
    by (cases "try_date cfg sc c d st")
  with try_date_sed_ok[OF Cons.prems, of sc c d]
  have ok: "sed_ok (min_days_between_exams cfg) (student_exam_dates st')" by simp
  show ?case
  proof (cases b)
    case True
    with td ok show ?thesis by simp
  next
    case False
    with td Cons.IH[OF ok] show ?thesis by simp
  qed
qed

lemma schedule_course_sed_ok:
  assumes "sed_ok (min_days_between_exams cfg) (student_exam_dates st)"
  shows "sed_ok (min_days_between_exams cfg) (student_exam_dates (schedule_course cfg sc c ds st))"
proof -
  obtain b st' where td: "try_dates cfg sc c ds st = (b, st')"
    by (cases "try_dates cfg sc c ds st")
  with try_dates_sed_ok[OF assms, of sc c ds] show ?thesis
    by (cases b) (simp_all add: schedule_course_def)
qed

lemma schedule_courses_sed_ok:
  "sed_ok (min_days_between_exams cfg) (student_exam_dates st) \<Longrightarrow>
   sed_ok (min_days_between_exams cfg)
     (student_exam_dates (schedule_courses cfg shuffle sc avail k cs st))"
  by (induction cs arbitrary: k st) (simp_all add: schedule_course_sed_ok)

lemma check_gaps_Nil:
  "sorted ds \<Longrightarrow> distinct ds \<Longrightarrow> gap_ok m ds \<Longrightarrow> check_gaps m cd sc sid ds = []"
proof (induction m cd sc sid ds rule: check_gaps.induct)
  case (1 m cd sc sid date1 date2 rest)
  from "1.prems" have lt: "date1 < date2" by auto
  from "1.prems"(3) lt have "m \<le> \<bar>date1 - date2\<bar>" by (auto simp: gap_ok_def)
  with lt have far: "\<not> date2 - date1 < m" by simp
  have "gap_ok m (date2 # rest)" using "1.prems"(3) by (auto simp: gap_ok_def)
  with "1.IH" "1.prems" have "check_gaps m cd sc sid (date2 # rest) = []" by simp
  with far show ?case by (simp add: Let_def)
qed simp_all

lemma verifier_Nil:
  assumes "sed_ok m sed"
  shows "check_final_schedule_conflicts m sed cd sc = []"
proof -
  have "check_gaps m cd sc sid (sort (remdups exams)) = []" if "(sid, exams) \<in> set sed" for sid exams
  proof -
    from assms that have "gap_ok m exams" by (auto simp: sed_ok_def)
    then have "gap_ok m (sort (remdups exams))"
      using gap_ok_set[of "sort (remdups exams)" exams m] by simp
    then show ?thesis by (simp add: check_gaps_Nil)
  qed
  then show ?thesis
    by (auto simp: check_final_schedule_conflicts_def)
qed



text \<open>
  Claim C3, at the input of two students both enrolled in course A, and a course C that
  nobody takes: the committed course A contributes two entries to the schedule list (one
  per enrolled student) and the committed course C contributes none, although both are
  in the course-date map and none is unscheduled.
\<close>

theorem C3_one_schedule_entry_per_enrolled_student:
  "generate_schedule_locally demo_config no_shuffle
     \<lparr> students_full_details = [(''s1'', student_with [''A'']), (''s2'', student_with [''A''])],
       all_course_codes = [''A'', ''C''] \<rparr> =
   Inr (\<lparr> resp_schedule = [\<lparr> item_course_code = ''A'', item_date = 739397 \<rparr>,
                           \<lparr> item_course_code = ''A'', item_date = 739397 \<rparr>],
          resp_statistics = \<lparr> total_courses_requested = 2, total_courses_scheduled = 2,
            total_scheduling_days_used = 1, total_students = 2,
            unresolved_student_conflicts = 0, courses_not_scheduled = 0 \<rparr>,
          resp_issues = [], resp_final_conflicts = None \<rparr>,
        [(''s1'', [739397]), (''s2'', [739397])],
        [(''A'', 739397), (''C'', 739397)])"
  by code_simp

section \<open>The day load never exceeds the maximum\<close>

lemma record_students_schedule:
  "record_students c t studs (sed, sch) =
     (foldl (\<lambda>m s. dd_append m s t) sed studs,
      sch @ replicate (length studs) \<lparr> item_course_code = c, item_date = t \<rparr>)"
  by (induction studs arbitrary: sed sch) (simp_all add: replicate_app_Cons_same)

lemma try_date_cases:
  fixes cfg sc c t st
  defines "st1 \<equiv> st \<lparr> exams_per_day := dd_touch 0 (exams_per_day st) t \<rparr>"
  defines "studs \<equiv> course_students_taking_this sc c"
  obtains (full) "MAX_EXAMS_PER_DAY \<le> dd_get 0 (exams_per_day st) t"
      "try_date cfg sc c t st = (False, st1)"
  | (conflict) sed where "dd_get 0 (exams_per_day st) t < MAX_EXAMS_PER_DAY"
      "check_students (min_days_between_exams cfg) t studs (student_exam_dates st) = (True, sed)"
      "try_date cfg sc c t st = (False, st1 \<lparr> student_exam_dates := sed \<rparr>)"
  | (commit) sed where "dd_get 0 (exams_per_day st) t < MAX_EXAMS_PER_DAY"
      "check_students (min_days_between_exams cfg) t studs (student_exam_dates st) = (False, sed)"
      "try_date cfg sc c t st = (True, commit c t studs (st1 \<lparr> student_exam_dates := sed \<rparr>))"
proof -
  obtain b sed where cs:
    "check_students (min_days_between_exams cfg) t studs (student_exam_dates st) = (b, sed)"
    by (cases "check_students (min_days_between_exams cfg) t studs (student_exam_dates st)")
  show thesis
  proof (cases "MAX_EXAMS_PER_DAY \<le> dd_get 0 (exams_per_day st) t")
    case True
    then show thesis using full by (simp add: try_date_def st1_def Let_def)
  next
    case False
    show thesis
    proof (cases b)
      case True
      with False cs show thesis using conflict[of sed]
        by (simp add: try_date_def st1_def studs_def Let_def)
    next
      case b: False
      with False cs show thesis using commit[of sed]
        by (simp add: try_date_def st1_def studs_def Let_def)
    qed
  qed
qed

lemma courses_on_day_update:
  "courses_on_day (AList.update c t cd) d \<le> courses_on_day cd d + (if d = t then 1 else 0)"
  by (induction cd) (auto simp: courses_on_day_def)

lemma commit_fields:
  "course_dates (commit c t studs st) = AList.update c t (course_dates st)"
  "exams_per_day (commit c t studs st) = dd_incr (exams_per_day st) t"
  "unscheduled_courses (commit c t studs st) = unscheduled_courses st"
  "schedule (commit c t studs st) =
     schedule st @ replicate (length studs) \<lparr> item_course_code = c, item_date = t \<rparr>"
  "student_exam_dates (commit c t studs st) = foldl (\<lambda>m s. dd_append m s t) (student_exam_dates st) studs"
  by (simp_all add: commit_def record_students_schedule)

lemma try_date_load_inv:
  assumes "load_inv st"
  shows "load_inv (snd (try_date cfg sc c t st))"
proof (cases rule: try_date_cases[of st t cfg sc c])
  case full
  with assms show ?thesis by (simp add: load_inv_def)
next
  case (conflict sed)
  with assms show ?thesis by (simp add: load_inv_def)
next
  case (commit sed)
  let ?st' = "snd (try_date cfg sc c t st)"
  have cd: "course_dates ?st' = AList.update c t (course_dates st)"
    and epd: "\<And>d. dd_get 0 (exams_per_day ?st') d =
                 (if d = t then dd_get 0 (exams_per_day st) t + 1 else dd_get 0 (exams_per_day st) d)"
    using commit(3) by (simp_all add: commit_fields)
  have a: "dd_get 0 (exams_per_day ?st') d \<le> MAX_EXAMS_PER_DAY" for d
    using assms commit(1) by (simp add: epd load_inv_def)
  have b: "courses_on_day (course_dates ?st') d \<le> dd_get 0 (exams_per_day ?st') d" for d
  proof -
    have "courses_on_day (course_dates st) d \<le> dd_get 0 (exams_per_day st) d"
      using assms by (simp add: load_inv_def)
    with courses_on_day_update[of c t "course_dates st" d] show ?thesis
      by (simp add: cd epd split: if_splits)
  qed
  have "distinct (map fst (course_dates ?st'))"
    using assms by (simp add: cd load_inv_def distinct_update)
  with a b show ?thesis by (simp add: load_inv_def)
qed

lemma reachable_load_inv: "reachable cfg sc st \<Longrightarrow> load_inv st"
proof (induction rule: reachable.induct)
  case start
  show ?case by (simp add: load_inv_def init_state_def dd_get_def courses_on_day_def)
next
  case (attempt st c t)
  then show ?case by (simp add: try_date_load_inv)
next
  case (give_up st c)
  then show ?case by (simp add: load_inv_def)
qed

lemma try_dates_reachable:
  "reachable cfg sc st \<Longrightarrow> reachable cfg sc (snd (try_dates cfg sc c ds st))"
proof (induction ds arbitrary: st)
  case Nil
  then show ?case by simp
next
  case (Cons d ds)
  obtain b st' where td: "try_date cfg sc c d st = (b, st')"
    by (cases "try_date cfg sc c d st")
  from reachable.attempt[OF Cons.prems, of c d] td have r: "reachable cfg sc st'" by simp
  show ?case
  proof (cases b)
    case True
    with td r show ?thesis by simp
  next
    case False
    with td Cons.IH[OF r] show ?thesis by simp
  qed
qed

lemma schedule_course_reachable:
  assumes "reachable cfg sc st"
  shows "reachable cfg sc (schedule_course cfg sc c ds st)"
proof -
  obtain b st' where td: "try_dates cfg sc c ds st = (b, st')"
    by (cases "try_dates cfg sc c ds st")
  with try_dates_reachable[OF assms, of c ds] have r: "reachable cfg sc st'" by simp
  show ?thesis
  proof (cases b)
    case True
    with td r show ?thesis by (simp add: schedule_course_def)
  next
    case False
    with td reachable.give_up[OF r, of c] show ?thesis by (simp add: schedule_course_def)
  qed
qed

lemma schedule_courses_reachable:
  "reachable cfg sc st \<Longrightarrow> reachable cfg sc (schedule_courses cfg shuffle sc avail k cs st)"
  by (induction cs arbitrary: k st) (simp_all add: schedule_course_reachable)

lemma try_date_full:
  assumes "MAX_EXAMS_PER_DAY \<le> dd_get 0 (exams_per_day st) t"
  shows "try_date cfg sc c t st = (False, st \<lparr> exams_per_day := dd_touch 0 (exams_per_day st) t \<rparr>)"
  using assms by (simp add: try_date_def Let_def)

lemma try_date_load:
  "dd_get 0 (exams_per_day (snd (try_date cfg sc c t st))) d =
     dd_get 0 (exams_per_day st) d + (if fst (try_date cfg sc c t st) \<and> d = t then 1 else 0)"
  by (cases rule: try_date_cases[of st t cfg sc c]) (simp_all add: commit_fields)

lemma fd_courses_on_day_update:
  "fd_courses_on_day (AList.update c sl cd) d \<le> fd_courses_on_day cd d + (if d = fst sl then 1 else 0)"
  by (induction cd) (auto simp: fd_courses_on_day_def)

lemma fd_try_slot_cases:
  fixes cfg sc c sl st
  defines "st1 \<equiv> st \<lparr> fd_exams_per_day := dd_touch 0 (fd_exams_per_day st) (fst sl) \<rparr>"
  obtains (full) "5 \<le> dd_get 0 (fd_exams_per_day st) (fst sl)"
      "fd_try_slot cfg sc c sl st = (False, st1)"
  | (conflict) "dd_get 0 (fd_exams_per_day st) (fst sl) < 5"
      "fd_check_students cfg (fst sl) (course_students_taking_this sc c) (fd_student_exam_dates st)"
      "fd_try_slot cfg sc c sl st = (False, st1)"
  | (commit) "dd_get 0 (fd_exams_per_day st) (fst sl) < 5"
      "\<not> fd_check_students cfg (fst sl) (course_students_taking_this sc c) (fd_student_exam_dates st)"
      "fd_try_slot cfg sc c sl st = (True, fd_commit c sl (course_students_taking_this sc c) st1)"
proof (cases "5 \<le> dd_get 0 (fd_exams_per_day st) (fst sl)")
  case True
  then show thesis using full by (simp add: fd_try_slot_def st1_def Let_def)
next
  case False
  show thesis
  proof (cases "fd_check_students cfg (fst sl) (course_students_taking_this sc c) (fd_student_exam_dates st)")
    case True
    with False show thesis using conflict by (simp add: fd_try_slot_def st1_def Let_def)
  next
    case nc: False
    with False show thesis using commit by (simp add: fd_try_slot_def st1_def Let_def)
  qed
qed

lemma fd_try_slot_load_inv:
  assumes "fd_load_inv st"
  shows "fd_load_inv (snd (fd_try_slot cfg sc c sl st))"
proof (cases rule: fd_try_slot_cases[of st sl cfg sc c])
  case full
  with assms show ?thesis by (simp add: fd_load_inv_def)
next
  case conflict
  with assms show ?thesis by (simp add: fd_load_inv_def)
next
  case commit
  let ?st' = "snd (fd_try_slot cfg sc c sl st)"
  have cd: "fd_course_dates ?st' = AList.update c sl (fd_course_dates st)"
    and epd: "\<And>d. dd_get 0 (fd_exams_per_day ?st') d =
                 (if d = fst sl then dd_get 0 (fd_exams_per_day st) (fst sl) + 1
                  else dd_get 0 (fd_exams_per_day st) d)"
    using commit(3) by (simp_all add: fd_commit_def)
  have a: "dd_get 0 (fd_exams_per_day ?st') d \<le> 5" for d
    using assms commit(1) by (simp add: epd fd_load_inv_def)
  have b: "fd_courses_on_day (fd_course_dates ?st') d \<le> dd_get 0 (fd_exams_per_day ?st') d" for d
  proof -
    have "fd_courses_on_day (fd_course_dates st) d \<le> dd_get 0 (fd_exams_per_day st) d"
      using assms by (simp add: fd_load_inv_def)
    with fd_courses_on_day_update[of c sl "fd_course_dates st" d] show ?thesis
      by (simp add: cd epd split: if_splits)
  qed
  have "distinct (map fst (fd_course_dates ?st'))"
    using assms by (simp add: cd fd_load_inv_def distinct_update)
  with a b show ?thesis by (simp add: fd_load_inv_def)
qed

lemma fd_reachable_load_inv: "fd_reachable cfg sc st \<Longrightarrow> fd_load_inv st"
proof (induction rule: fd_reachable.induct)
  case fd_start
  show ?case by (simp add: fd_load_inv_def fd_init_state_def dd_get_def fd_courses_on_day_def)
next
  case (fd_attempt st c sl)
  then show ?case by (simp add: fd_try_slot_load_inv)
next
  case (fd_give_up st c)
  then show ?case by (simp add: fd_load_inv_def)
qed

lemma fd_try_slots_reachable:
  "fd_reachable cfg sc st \<Longrightarrow> fd_reachable cfg sc (snd (fd_try_slots cfg sc c sls st))"
proof (induction sls arbitrary: st)
  case Nil
  then show ?case by simp
next
  case (Cons sl sls)
  obtain b st' where td: "fd_try_slot cfg sc c sl st = (b, st')"
    by (cases "fd_try_slot cfg sc c sl st")
  from fd_reachable.fd_attempt[OF Cons.prems, of c sl] td have r: "fd_reachable cfg sc st'" by simp
  show ?case
  proof (cases b)
    case True
    with td r show ?thesis by simp
  next
    case False
    with td Cons.IH[OF r] show ?thesis by simp
  qed
qed

lemma fd_schedule_course_reachable:
  assumes "fd_reachable cfg sc st"
  shows "fd_reachable cfg sc (fd_schedule_course cfg sc c sls st)"
proof -
  obtain b st' where td: "fd_try_slots cfg sc c sls st = (b, st')"
    by (cases "fd_try_slots cfg sc c sls st")
  with fd_try_slots_reachable[OF assms, of c sls] have r: "fd_reachable cfg sc st'" by simp
  show ?thesis
  proof (cases b)
    case True
    with td r show ?thesis by (simp add: fd_schedule_course_def)
  next
    case False
    with td fd_reachable.fd_give_up[OF r, of c] show ?thesis by (simp add: fd_schedule_course_def)
  qed
qed

lemma fd_schedule_courses_reachable:
  "fd_reachable cfg sc st \<Longrightarrow> fd_reachable cfg sc (fd_schedule_courses cfg shuffle sc avail k cs st)"
  by (induction cs arbitrary: k st) (simp_all add: fd_schedule_course_reachable)

lemma fd_try_slot_full:
  assumes "5 \<le> dd_get 0 (fd_exams_per_day st) (fst sl)"
  shows "fd_try_slot cfg sc c sl st =
           (False, st \<lparr> fd_exams_per_day := dd_touch 0 (fd_exams_per_day st) (fst sl) \<rparr>)"
  using assms by (simp add: fd_try_slot_def Let_def)

lemma fd_try_slot_load:
  "dd_get 0 (fd_exams_per_day (snd (fd_try_slot cfg sc c sl st))) d =
     dd_get 0 (fd_exams_per_day st) d + (if fst (fd_try_slot cfg sc c sl st) \<and> d = fst sl then 1 else 0)"
  by (cases rule: fd_try_slot_cases[of st sl cfg sc c]) (simp_all add: fd_commit_def)

text \<open>
  Claim C2. In every state a run of either scheduler variant can reach, and for every
  date, the per-day counter is at most \<^verbatim>\<open>MAX_EXAMS_PER_DAY\<close> (the literal 5 in the
  time-slot variant), and so is the number of courses the course-date map assigns to the
  date. A candidate whose date already holds the maximum is rejected without any change
  but the counter key being present, and the counter of a date grows (by one) only when
  the candidate on that date is committed. The states of a whole run are reachable.
\<close>

theorem C2_day_load_never_exceeds_maximum:
  "(reachable cfg sc st \<longrightarrow>
      dd_get 0 (exams_per_day st) d \<le> MAX_EXAMS_PER_DAY \<and>
      courses_on_day (course_dates st) d \<le> dd_get 0 (exams_per_day st) d \<and>
      (MAX_EXAMS_PER_DAY \<le> dd_get 0 (exams_per_day st) t \<longrightarrow>
         try_date cfg sc c t st = (False, st \<lparr> exams_per_day := dd_touch 0 (exams_per_day st) t \<rparr>)) \<and>
      dd_get 0 (exams_per_day (snd (try_date cfg sc c t st))) d =
        dd_get 0 (exams_per_day st) d + (if fst (try_date cfg sc c t st) \<and> d = t then 1 else 0)) \<and>
   reachable cfg sc (schedule_courses cfg shuffle sc avail k cs init_state) \<and>
   (fd_reachable fcfg sc fd_st \<longrightarrow>
      dd_get 0 (fd_exams_per_day fd_st) d \<le> 5 \<and>
      fd_courses_on_day (fd_course_dates fd_st) d \<le> dd_get 0 (fd_exams_per_day fd_st) d \<and>
      (5 \<le> dd_get 0 (fd_exams_per_day fd_st) (fst sl) \<longrightarrow>
         fd_try_slot fcfg sc c sl fd_st =
           (False, fd_st \<lparr> fd_exams_per_day := dd_touch 0 (fd_exams_per_day fd_st) (fst sl) \<rparr>)) \<and>
      dd_get 0 (fd_exams_per_day (snd (fd_try_slot fcfg sc c sl fd_st))) d =
        dd_get 0 (fd_exams_per_day fd_st) d + (if fst (fd_try_slot fcfg sc c sl fd_st) \<and> d = fst sl then 1 else 0)) \<and>
   fd_reachable fcfg sc (fd_schedule_courses fcfg fshuffle sc favail k cs fd_init_state)"
proof (intro conjI impI)
  assume r: "reachable cfg sc st"
  from reachable_load_inv[OF r]
  show "dd_get 0 (exams_per_day st) d \<le> MAX_EXAMS_PER_DAY"
    and "courses_on_day (course_dates st) d \<le> dd_get 0 (exams_per_day st) d"
    by (simp_all add: load_inv_def)
next
  assume "MAX_EXAMS_PER_DAY \<le> dd_get 0 (exams_per_day st) t"
  then show "try_date cfg sc c t st = (False, st \<lparr> exams_per_day := dd_touch 0 (exams_per_day st) t \<rparr>)"
    by (rule try_date_full)
next
  show "dd_get 0 (exams_per_day (snd (try_date cfg sc c t st))) d =
        dd_get 0 (exams_per_day st) d + (if fst (try_date cfg sc c t st) \<and> d = t then 1 else 0)"
    by (rule try_date_load)
next
  show "reachable cfg sc (schedule_courses cfg shuffle sc avail k cs init_state)"
    by (rule schedule_courses_reachable[OF reachable.start])
next
  assume r: "fd_reachable fcfg sc fd_st"
  from fd_reachable_load_inv[OF r]
  show "dd_get 0 (fd_exams_per_day fd_st) d \<le> 5"
    and "fd_courses_on_day (fd_course_dates fd_st) d \<le> dd_get 0 (fd_exams_per_day fd_st) d"
    by (simp_all add: fd_load_inv_def)
next
  assume "5 \<le> dd_get 0 (fd_exams_per_day fd_st) (fst sl)"
  then show "fd_try_slot fcfg sc c sl fd_st =
           (False, fd_st \<lparr> fd_exams_per_day := dd_touch 0 (fd_exams_per_day fd_st) (fst sl) \<rparr>)"
    by (rule fd_try_slot_full)
next
  show "dd_get 0 (fd_exams_per_day (snd (fd_try_slot fcfg sc c sl fd_st))) d =
        dd_get 0 (fd_exams_per_day fd_st) d + (if fst (fd_try_slot fcfg sc c sl fd_st) \<and> d = fst sl then 1 else 0)"
    by (rule fd_try_slot_load)
next
  show "fd_reachable fcfg sc (fd_schedule_courses fcfg fshuffle sc favail k cs fd_init_state)"
    by (rule fd_schedule_courses_reachable[OF fd_reachable.fd_start])
qed

theorem C2_witness:
  "reachable demo_config [(''s1'', [''A''])] full_day_state \<and>
   dd_get 0 (exams_per_day full_day_state) 739397 \<le> MAX_EXAMS_PER_DAY \<and>
   MAX_EXAMS_PER_DAY \<le> dd_get 0 (exams_per_day full_day_state) 739397 \<and>
   try_date demo_config [(''s1'', [''A''])] ''A'' 739397 full_day_state = (False, full_day_state) \<and>
   fd_reachable fd_demo_config [(''s1'', [''A''])] fd_full_day_state \<and>
   dd_get 0 (fd_exams_per_day fd_full_day_state) 739397 \<le> 5 \<and>
   5 \<le> dd_get 0 (fd_exams_per_day fd_full_day_state) 739397 \<and>
   fd_try_slot fd_demo_config [(''s1'', [''A''])] ''A'' (739397, ''11:30-1:30'') fd_full_day_state =
     (False, fd_full_day_state)"
proof -
  let ?sc = "[(''s1'', [''A''])]"
  let ?cs = "[''C1'', ''C2'', ''C3'', ''C4'', ''C5'']"
  let ?sl = "(739397, ''11:30-1:30'')"
  have run: "schedule_courses demo_config no_shuffle ?sc [739397] 0 ?cs init_state = full_day_state"
    by code_simp
  have fd_run: "fd_schedule_courses fd_demo_config no_shuffle ?sc
      [(739397, ''8:30-10:30''), (739397, ''11:30-1:30'')] 0 ?cs fd_init_state = fd_full_day_state"
    by code_simp
  have full: "MAX_EXAMS_PER_DAY \<le> dd_get 0 (exams_per_day full_day_state) 739397"
    by code_simp
  have fd_full: "5 \<le> dd_get 0 (fd_exams_per_day fd_full_day_state) (fst ?sl)"
    by code_simp
  have same: "full_day_state \<lparr> exams_per_day := dd_touch 0 (exams_per_day full_day_state) 739397 \<rparr>
      = full_day_state"
    by code_simp
  have fd_same: "fd_full_day_state \<lparr> fd_exams_per_day :=
      dd_touch 0 (fd_exams_per_day fd_full_day_state) (fst ?sl) \<rparr> = fd_full_day_state"
    by code_simp
  note inst = C2_day_load_never_exceeds_maximum[of demo_config ?sc full_day_state 739397 739397 "''A''" no_shuffle "[739397]" 0 ?cs
      fd_demo_config fd_full_day_state ?sl no_shuffle "[(739397, ''8:30-10:30''), (739397, ''11:30-1:30'')]"]
  from inst run have r: "reachable demo_config ?sc full_day_state" by simp
  from inst fd_run have fr: "fd_reachable fd_demo_config ?sc fd_full_day_state" by simp
  from inst r full same have a: "dd_get 0 (exams_per_day full_day_state) 739397 \<le> MAX_EXAMS_PER_DAY"
    and b: "try_date demo_config ?sc ''A'' 739397 full_day_state = (False, full_day_state)"
    by simp_all
  from inst fr fd_full fd_same have c: "dd_get 0 (fd_exams_per_day fd_full_day_state) 739397 \<le> 5"
    and d: "fd_try_slot fd_demo_config ?sc ''A'' ?sl fd_full_day_state = (False, fd_full_day_state)"
    by simp_all
  from r fr full fd_full a b c d show ?thesis by simp
qed

section \<open>A course left unscheduled leaves the state as it was\<close>

lemma dd_touch_app: "\<exists>ks. dd_touch dflt d k = d @ map (\<lambda>k. (k, dflt)) ks"
proof (cases "map_of d k")
  case None
  then have "dd_touch dflt d k = d @ map (\<lambda>k. (k, dflt)) [k]" by (simp add: dd_touch_def)
  then show ?thesis by blast
next
  case (Some v)
  then have "dd_touch dflt d k = d @ map (\<lambda>k. (k, dflt)) []" by (simp add: dd_touch_def)
  then show ?thesis by blast
qed

lemma app_app_defaults:
  assumes "\<exists>ks. d1 = d @ map f ks" "\<exists>ks. d2 = d1 @ map f ks"
  shows "\<exists>ks. d2 = d @ map f ks"
proof -
  from assms obtain ks1 ks2 where "d1 = d @ map f ks1" "d2 = d1 @ map f ks2" by blast
  then have "d2 = d @ map f (ks1 @ ks2)" by simp
  then show ?thesis by blast
qed

lemma check_students_app:
  "check_students m t studs sed = (b, sed') \<Longrightarrow> \<exists>ks. sed' = sed @ map (\<lambda>s. (s, [])) ks"
proof (induction studs arbitrary: sed)
  case Nil
  then have "sed' = sed @ map (\<lambda>s. (s, [])) []" by simp
  then show ?case by blast
next
  case (Cons s ss)
  show ?case
  proof (cases "date_conflicts m t (dd_get [] sed s)")
    case True
    with Cons.prems have "sed' = dd_touch [] sed s" by (simp add: Let_def)
    with dd_touch_app[of "[]" sed s] show ?thesis by simp
  next
    case False
    with Cons.prems have "check_students m t ss (dd_touch [] sed s) = (b, sed')"
      by (simp add: Let_def)
    from Cons.IH[OF this] dd_touch_app[of "[]" sed s] show ?thesis
      by (rule_tac app_app_defaults[of "dd_touch [] sed s"]) auto
  qed
qed

lemma state_kept_refl: "state_kept st st"
proof -
  have "exams_per_day st = exams_per_day st @ map (\<lambda>d. (d, 0)) []"
    and "student_exam_dates st = student_exam_dates st @ map (\<lambda>s. (s, [])) []" by simp_all
  then show ?thesis unfolding state_kept_def by blast
qed

lemma state_kept_trans: "state_kept st st1 \<Longrightarrow> state_kept st1 st2 \<Longrightarrow> state_kept st st2"
  unfolding state_kept_def
  using app_app_defaults[of "exams_per_day st1" "exams_per_day st" "\<lambda>d. (d, 0)" "exams_per_day st2"]
    app_app_defaults[of "student_exam_dates st1" "student_exam_dates st" "\<lambda>s. (s, [])" "student_exam_dates st2"]
  by simp

lemma try_date_False_kept:
  assumes "try_date cfg sc c t st = (False, st')"
  shows "state_kept st st'"
proof (cases rule: try_date_cases[of st t cfg sc c])
  case full
  with assms have "st' = st \<lparr> exams_per_day := dd_touch 0 (exams_per_day st) t \<rparr>" by simp
  with dd_touch_app[of 0 "exams_per_day st" t] state_kept_refl[of st] show ?thesis
    by (simp add: state_kept_def)
next
  case (conflict sed)
  with assms have st': "st' = st \<lparr> exams_per_day := dd_touch 0 (exams_per_day st) t,
      student_exam_dates := sed \<rparr>" by simp
  from check_students_frame[OF conflict(2)] check_students_app[OF conflict(2)]
    dd_touch_app[of 0 "exams_per_day st" t]
  show ?thesis by (simp add: state_kept_def st')
next
  case (commit sed)
  with assms show ?thesis by simp
qed

lemma try_dates_False_kept:
  "try_dates cfg sc c ds st = (False, st') \<Longrightarrow> state_kept st st'"
proof (induction ds arbitrary: st)
  case Nil
  then show ?case by (simp add: state_kept_refl)
next
  case (Cons d ds)
  obtain b st1 where td: "try_date cfg sc c d st = (b, st1)"
    by (cases "try_date cfg sc c d st")
  with Cons.prems have b: "\<not> b" by (cases b) auto
  with td Cons.prems have "try_dates cfg sc c ds st1 = (False, st')" by simp
  from Cons.IH[OF this] try_date_False_kept[of cfg sc c d st st1] td b
  show ?case by (auto intro: state_kept_trans)
qed

lemma fd_state_kept_refl: "fd_state_kept st st"
proof -
  have "fd_exams_per_day st = fd_exams_per_day st @ map (\<lambda>d. (d, 0)) []" by simp
  then show ?thesis unfolding fd_state_kept_def by blast
qed

lemma fd_state_kept_trans: "fd_state_kept st st1 \<Longrightarrow> fd_state_kept st1 st2 \<Longrightarrow> fd_state_kept st st2"
  unfolding fd_state_kept_def
  using app_app_defaults[of "fd_exams_per_day st1" "fd_exams_per_day st" "\<lambda>d. (d, 0)" "fd_exams_per_day st2"]
  by simp

lemma fd_try_slot_False_kept:
  assumes "fd_try_slot cfg sc c sl st = (False, st')"
  shows "fd_state_kept st st'"
proof -
  have "st' = st \<lparr> fd_exams_per_day := dd_touch 0 (fd_exams_per_day st) (fst sl) \<rparr>"
    using assms by (cases rule: fd_try_slot_cases[of st sl cfg sc c]) simp_all
  with dd_touch_app[of 0 "fd_exams_per_day st" "fst sl"] show ?thesis
    by (simp add: fd_state_kept_def)
qed

lemma fd_try_slots_False_kept:
  "fd_try_slots cfg sc c sls st = (False, st') \<Longrightarrow> fd_state_kept st st'"
proof (induction sls arbitrary: st)
  case Nil
  then show ?case by (simp add: fd_state_kept_refl)
next
  case (Cons sl sls)
  obtain b st1 where td: "fd_try_slot cfg sc c sl st = (b, st1)"
    by (cases "fd_try_slot cfg sc c sl st")
  with Cons.prems have b: "\<not> b" by (cases b) auto
  with td Cons.prems have "fd_try_slots cfg sc c sls st1 = (False, st')" by simp
  from Cons.IH[OF this] fd_try_slot_False_kept[of cfg sc c sl st st1] td b
  show ?case by (auto intro: fd_state_kept_trans)
qed

text \<open>
  Claim C10. When the scan of the whole shuffled list ends without a commit and the
  course is put on the unscheduled list, the schedule list and the course-date map are
  as before, every per-day counter and every student's exam-date list has the value it
  had, and the unscheduled list (hence the issues list of the response) has grown by
  exactly that course. Both scheduler variants.
\<close>

theorem C10_unscheduled_course_keeps_state:
  "(fst (try_dates cfg sc c dates_to_try st) = False \<longrightarrow>
      state_kept st (snd (try_dates cfg sc c dates_to_try st)) \<and>
      schedule_course cfg sc c dates_to_try st =
        (snd (try_dates cfg sc c dates_to_try st))
          \<lparr> unscheduled_courses := unscheduled_courses st @ [c] \<rparr> \<and>
      resp_issues (make_response codes sc (schedule_course cfg sc c dates_to_try st)) =
        resp_issues (make_response codes sc st) @ [issue_text c]) \<and>
   (fst (fd_try_slots fcfg sc c slots_to_try fd_st) = False \<longrightarrow>
      fd_state_kept fd_st (snd (fd_try_slots fcfg sc c slots_to_try fd_st)) \<and>
      fd_schedule_course fcfg sc c slots_to_try fd_st =
        (snd (fd_try_slots fcfg sc c slots_to_try fd_st))
          \<lparr> fd_unscheduled_courses := fd_unscheduled_courses fd_st @ [c] \<rparr>)"
proof (intro conjI impI)
  assume f: "fst (try_dates cfg sc c dates_to_try st) = False"
  obtain st' where td: "try_dates cfg sc c dates_to_try st = (False, st')"
    using f by (cases "try_dates cfg sc c dates_to_try st") auto
  from try_dates_False_kept[OF td] have k: "state_kept st st'" .
  with td show "state_kept st (snd (try_dates cfg sc c dates_to_try st))" by simp
  from k have u: "unscheduled_courses st' = unscheduled_courses st" by (simp add: state_kept_def)
  with td show e: "schedule_course cfg sc c dates_to_try st =
        (snd (try_dates cfg sc c dates_to_try st))
          \<lparr> unscheduled_courses := unscheduled_courses st @ [c] \<rparr>"
    by (simp add: schedule_course_def)
  show "resp_issues (make_response codes sc (schedule_course cfg sc c dates_to_try st)) =
        resp_issues (make_response codes sc st) @ [issue_text c]"
    by (simp add: e make_response_def Let_def)
next
  assume f: "fst (fd_try_slots fcfg sc c slots_to_try fd_st) = False"
  obtain st' where td: "fd_try_slots fcfg sc c slots_to_try fd_st = (False, st')"
    using f by (cases "fd_try_slots fcfg sc c slots_to_try fd_st") auto
  from fd_try_slots_False_kept[OF td] have k: "fd_state_kept fd_st st'" .
  with td show "fd_state_kept fd_st (snd (fd_try_slots fcfg sc c slots_to_try fd_st))" by simp
  from k have "fd_unscheduled_courses st' = fd_unscheduled_courses fd_st"
    by (simp add: fd_state_kept_def)
  with td show "fd_schedule_course fcfg sc c slots_to_try fd_st =
        (snd (fd_try_slots fcfg sc c slots_to_try fd_st))
          \<lparr> fd_unscheduled_courses := fd_unscheduled_courses fd_st @ [c] \<rparr>"
    by (simp add: fd_schedule_course_def)
qed

theorem C10_witness:
  "fst (try_dates demo_config demo_courses3 ''B'' [739397, 739398] demo_state) = False \<and>
   state_kept demo_state (snd (try_dates demo_config demo_courses3 ''B'' [739397, 739398] demo_state)) \<and>
   schedule_course demo_config demo_courses3 ''B'' [739397, 739398] demo_state =
     demo_state \<lparr> student_exam_dates := student_exam_dates demo_state @ [(''s3'', [])],
                  exams_per_day := exams_per_day demo_state @ [(739398, 0)],
                  unscheduled_courses := [''B''] \<rparr> \<and>
   fst (fd_try_slots fd_demo_config demo_courses3 ''B''
          [(739397, ''8:30-10:30''), (739397, ''11:30-1:30''), (739398, ''8:30-10:30'')] fd_demo_state) = False \<and>
   fd_schedule_course fd_demo_config demo_courses3 ''B''
       [(739397, ''8:30-10:30''), (739397, ''11:30-1:30''), (739398, ''8:30-10:30'')] fd_demo_state =
     fd_demo_state \<lparr> fd_exams_per_day := fd_exams_per_day fd_demo_state @ [(739398, 0)],
                     fd_unscheduled_courses := [''B''] \<rparr>"
proof -
  let ?ds = "[739397, 739398]"
  let ?sls = "[(739397, ''8:30-10:30''), (739397, ''11:30-1:30''), (739398, ''8:30-10:30'')]"
  have a: "fst (try_dates demo_config demo_courses3 ''B'' ?ds demo_state) = False"
    by code_simp
  have b: "fst (fd_try_slots fd_demo_config demo_courses3 ''B'' ?sls fd_demo_state) = False"
    by code_simp
  have c: "(snd (try_dates demo_config demo_courses3 ''B'' ?ds demo_state))
             \<lparr> unscheduled_courses := unscheduled_courses demo_state @ [''B''] \<rparr> =
           demo_state \<lparr> student_exam_dates := student_exam_dates demo_state @ [(''s3'', [])],
                  exams_per_day := exams_per_day demo_state @ [(739398, 0)],
                  unscheduled_courses := [''B''] \<rparr>"
    by code_simp
  have d: "(snd (fd_try_slots fd_demo_config demo_courses3 ''B'' ?sls fd_demo_state))
             \<lparr> fd_unscheduled_courses := fd_unscheduled_courses fd_demo_state @ [''B''] \<rparr> =
           fd_demo_state \<lparr> fd_exams_per_day := fd_exams_per_day fd_demo_state @ [(739398, 0)],
                     fd_unscheduled_courses := [''B''] \<rparr>"
    by code_simp
  note inst = C10_unscheduled_course_keeps_state[of demo_config demo_courses3 "''B''" ?ds demo_state "[]" fd_demo_config ?sls fd_demo_state]
  from inst a have e: "state_kept demo_state (snd (try_dates demo_config demo_courses3 ''B'' ?ds demo_state))"
    and f: "schedule_course demo_config demo_courses3 ''B'' ?ds demo_state =
        (snd (try_dates demo_config demo_courses3 ''B'' ?ds demo_state))
          \<lparr> unscheduled_courses := unscheduled_courses demo_state @ [''B''] \<rparr>"
    by blast+
  from inst b have g: "fd_schedule_course fd_demo_config demo_courses3 ''B'' ?sls fd_demo_state =
        (snd (fd_try_slots fd_demo_config demo_courses3 ''B'' ?sls fd_demo_state))
          \<lparr> fd_unscheduled_courses := fd_unscheduled_courses fd_demo_state @ [''B''] \<rparr>"
    by blast
  from a b e f g c d show ?thesis by simp
qed

section \<open>A window without usable dates\<close>

lemma available_dates_loop_eq:
  "available_dates_loop skip cur end_d acc =
     acc @ filter (\<lambda>d. \<not> (skip \<and> weekday d \<ge> 5)) [cur..end_d]"
proof (induction skip cur end_d acc rule: available_dates_loop.induct)
  case (1 skip cur end_d acc)
  let ?acc' = "if \<not> (skip \<and> weekday cur \<ge> 5) then acc @ [cur] else acc"
  show ?case
  proof (cases "cur \<le> end_d")
    case True
    have "available_dates_loop skip cur end_d acc = available_dates_loop skip (cur + 1) end_d ?acc'"
      by (subst available_dates_loop.simps) (simp only: True if_True)
    also have "\<dots> = ?acc' @ filter (\<lambda>d. \<not> (skip \<and> weekday d \<ge> 5)) [cur + 1..end_d]"
      using "1.IH"[OF True] .
    also have "\<dots> = acc @ filter (\<lambda>d. \<not> (skip \<and> weekday d \<ge> 5)) [cur..end_d]"
      using True by (simp add: upto_rec1[of cur end_d] del: available_dates_loop.simps)
    finally show ?thesis .
  next
    case False
    have "available_dates_loop skip cur end_d acc = acc"
      by (subst available_dates_loop.simps) (simp only: False if_False)
    with False show ?thesis by (simp del: available_dates_loop.simps)
  qed
qed

lemma available_dates_of_eq:
  "available_dates_of cfg =
     filter (\<lambda>d. \<not> (skip_weekends cfg \<and> weekday d \<ge> 5)) [specific_start_date cfg..specific_end_date cfg]"
  unfolding available_dates_of_def available_dates_loop_eq by simp

lemma empty_window:
  assumes "specific_start_date cfg > specific_end_date cfg \<or>
           (skip_weekends cfg \<and>
            (\<forall>d. specific_start_date cfg \<le> d \<and> d \<le> specific_end_date cfg \<longrightarrow> weekday d \<ge> 5))"
  shows "available_dates_of cfg = []"
proof -
  have "skip_weekends cfg \<and> weekday d \<ge> 5"
    if "d \<in> set [specific_start_date cfg..specific_end_date cfg]" for d
    using that assms by auto
  then show ?thesis
    unfolding available_dates_of_eq filter_empty_conv by blast
qed

lemma generate_no_dates:
  assumes "available_dates_of cfg = []"
  shows "generate_schedule_locally cfg shuffle api =
           Inl (if all_course_codes api = [] \<or> students_full_details api = []
                then MissingData else NoAvailableDates)"
  unfolding generate_schedule_locally_def Let_def assms student_courses_of_def
  by simp

text \<open>
  Claim C8. When the window holds no usable date (its start is after its end, or weekends
  are skipped and every day of the window is a Saturday or a Sunday), the list of
  available dates is empty, \<^verbatim>\<open>generate_schedule_locally\<close> returns its error value
  (\<^verbatim>\<open>None, None, None\<close>) before the course loop is entered, so no state and no
  assignment exists, and the local run of \<^verbatim>\<open>main\<close> stops with
  \<^verbatim>\<open>Failed to generate schedule\<close>.
\<close>

theorem C8_empty_window_fails_before_scheduling:
  assumes "specific_start_date cfg > specific_end_date cfg \<or>
           (skip_weekends cfg \<and>
            (\<forall>d. specific_start_date cfg \<le> d \<and> d \<le> specific_end_date cfg \<longrightarrow> weekday d \<ge> 5))"
  shows "available_dates_of cfg = [] \<and>
         generate_schedule_locally cfg shuffle api =
           Inl (if all_course_codes api = [] \<or> students_full_details api = []
                then MissingData else NoAvailableDates) \<and>
         main_generate cfg shuffle True api_key remote api = Failed"
proof -
  from empty_window[OF assms] have e: "available_dates_of cfg = []" .
  note g = generate_no_dates[OF e, of shuffle api]
  have "main_generate cfg shuffle True api_key remote api = Failed"
    unfolding main_generate_def Let_def g final_check_def by simp
  with e g show ?thesis by blast
qed

theorem C8_witness:
  "specific_start_date reversed_window_config > specific_end_date reversed_window_config \<and>
   generate_schedule_locally reversed_window_config no_shuffle demo_api = Inl NoAvailableDates \<and>
   main_generate reversed_window_config no_shuffle True [] RequestException demo_api = Failed \<and>
   skip_weekends weekend_window_config \<and> weekday 739402 = 5 \<and> weekday 739403 = 6 \<and>
   available_dates_of weekend_window_config = [] \<and>
   generate_schedule_locally weekend_window_config no_shuffle demo_api = Inl NoAvailableDates \<and>
   main_generate weekend_window_config no_shuffle True [] RequestException demo_api = Failed"
proof -
  have a: "specific_start_date reversed_window_config > specific_end_date reversed_window_config"
    by (simp add: reversed_window_config_def)
  have w: "weekday 739402 = 5" "weekday 739403 = 6" by (simp_all add: weekday_def)
  have b: "skip_weekends weekend_window_config \<and>
      (\<forall>d. specific_start_date weekend_window_config \<le> d \<and> d \<le> specific_end_date weekend_window_config
          \<longrightarrow> weekday d \<ge> 5)"
  proof (intro conjI allI impI)
    show "skip_weekends weekend_window_config" by (simp add: weekend_window_config_def)
  next
    fix d
    assume "specific_start_date weekend_window_config \<le> d \<and> d \<le> specific_end_date weekend_window_config"
    then have "d = 739402 \<or> d = 739403" by (auto simp: weekend_window_config_def)
    with w show "weekday d \<ge> 5" by auto
  qed
  have ne: "\<not> (all_course_codes demo_api = [] \<or> students_full_details demo_api = [])"
    by (simp add: demo_api_def)
  from C8_empty_window_fails_before_scheduling[of reversed_window_config no_shuffle demo_api "[]" RequestException] a ne
  have r: "generate_schedule_locally reversed_window_config no_shuffle demo_api = Inl NoAvailableDates"
      "main_generate reversed_window_config no_shuffle True [] RequestException demo_api = Failed"
    by simp_all
  from C8_empty_window_fails_before_scheduling[of weekend_window_config no_shuffle demo_api "[]" RequestException] b ne
  have s: "available_dates_of weekend_window_config = []"
      "generate_schedule_locally weekend_window_config no_shuffle demo_api = Inl NoAvailableDates"
      "main_generate weekend_window_config no_shuffle True [] RequestException demo_api = Failed"
    by simp_all
  from a b w r s show ?thesis by simp
qed

section \<open>The enrollment index keeps every record\<close>

lemma first_seen_snoc:
  "first_seen (xs @ [x]) = (if x \<in> set xs then first_seen xs else first_seen xs @ [x])"
  by (simp add: first_seen_def)

lemma map_entry_keys: "map fst (AList.map_entry k f xs) = map fst xs"
  by (induction xs) auto

lemma map_entry_distinct:
  "distinct (map fst xs) \<Longrightarrow>
     AList.map_entry k f xs = map (\<lambda>(k', v). (k', if k' = k then f v else v)) xs"
proof (induction xs)
  case Nil
  then show ?case by simp
next
  case (Cons p xs)
  obtain k' v where p: "p = (k', v)" by (cases p)
  show ?case
  proof (cases "k' = k")
    case True
    with Cons.prems p have "k \<notin> fst ` set xs" by auto
    then have "map (\<lambda>(k', v). (k', if k' = k then f v else v)) xs = xs"
      by (intro map_idI) (auto simp: image_iff)
    with True p show ?thesis by simp
  next
    case False
    with Cons p show ?thesis by simp
  qed
qed

lemma add_enrollment_keys:
  "map fst (add_enrollment students e) =
     (if enr_id e \<in> set (map fst students) then map fst students else map fst students @ [enr_id e])"
proof (cases "map_of students (enr_id e)")
  case None
  then have "enr_id e \<notin> set (map fst students)" by (simp add: map_of_eq_None_iff)
  with None show ?thesis by (simp add: add_enrollment_def map_entry_keys)
next
  case (Some d)
  then have "enr_id e \<in> set (map fst students)"
    by (metis map_of_eq_None_iff option.distinct(1) set_map)
  with Some show ?thesis by (simp add: add_enrollment_def map_entry_keys)
qed

lemma group_snoc:
  "group_enrollments_by_student (es @ [e]) = add_enrollment (group_enrollments_by_student es) e"
  by (simp add: group_enrollments_by_student_def)

lemma group_keys: "map fst (group_enrollments_by_student es) = first_seen (map enr_id es)"
proof (induction es rule: rev_induct)
  case Nil
  show ?case by (simp add: group_enrollments_by_student_def first_seen_def)
next
  case (snoc e es)
  have "set (first_seen (map enr_id es)) = enr_id ` set es" by (simp add: first_seen_def)
  with snoc show ?case
    by (simp add: group_snoc add_enrollment_keys first_seen_snoc)
qed

lemma group_distinct: "distinct (map fst (group_enrollments_by_student es))"
  by (simp add: group_keys first_seen_def)

lemma records_of_snoc:
  "records_of (es @ [e]) sid =
     (if enr_id e = sid then records_of es sid @ [enr_course_code e] else records_of es sid)"
  by (simp add: records_of_def)

lemma group_courses:
  "(sid, data) \<in> set (group_enrollments_by_student es) \<Longrightarrow> st_courses data = records_of es sid"
proof (induction es arbitrary: sid data rule: rev_induct)
  case Nil
  then show ?case by (simp add: group_enrollments_by_student_def)
next
  case (snoc e es)
  let ?g = "group_enrollments_by_student es"
  let ?k = "enr_id e"
  let ?new = "\<lparr> st_name = enr_name e, st_department = enr_department e,
                 st_academic_level = enr_academic_level e, st_courses = [] \<rparr>"
  let ?f = "\<lambda>d. d \<lparr> st_courses := st_courses d @ [enr_course_code e] \<rparr>"
  let ?g' = "case map_of ?g ?k of None \<Rightarrow> ?g @ [(?k, ?new)] | Some d \<Rightarrow> ?g"
  have keys: "set (map fst ?g) = enr_id ` set es"
    by (simp add: group_keys first_seen_def)
  have dist: "distinct (map fst ?g')"
    using group_distinct[of es]
    by (auto split: option.splits simp: map_of_eq_None_iff)
  have "group_enrollments_by_student (es @ [e]) =
          map (\<lambda>(k', v). (k', if k' = ?k then ?f v else v)) ?g'"
    unfolding group_snoc add_enrollment_def Let_def using map_entry_distinct[OF dist] by simp
  with snoc.prems obtain v where v: "(sid, v) \<in> set ?g'" and data: "data = (if sid = ?k then ?f v else v)"
    by auto
  show ?case
  proof (cases "(sid, v) \<in> set ?g")
    case True
    from snoc.IH[OF True] data show ?thesis by (auto simp: records_of_snoc)
  next
    case False
    with v have none: "map_of ?g ?k = None" and sv: "sid = ?k" "v = ?new"
      by (auto split: option.splits)
    from none keys have "?k \<notin> enr_id ` set es" by (simp add: map_of_eq_None_iff)
    then have "\<forall>x\<in>set es. enr_id x \<noteq> ?k" by (metis imageI)
    then have "records_of es ?k = []" by (simp add: records_of_def filter_empty_conv)
    with sv data show ?thesis by (simp add: records_of_snoc)
  qed
qed

lemma count_records_of:
  "count_list (records_of es sid) c = length (filter (\<lambda>e. enr_id e = sid \<and> enr_course_code e = c) es)"
  by (induction es) (auto simp: records_of_def)

text \<open>
  Claim C9, as amended. \<^verbatim>\<open>group_enrollments_by_student\<close> keeps one entry of the
  course list per enrollment row: every student id is a key once, in the order of first
  appearance, and the student's course list is the sequence of the course codes of the
  student's rows in input order. A (student, course) pair that occurs \<open>n\<close> times in
  the input occurs \<open>n\<close> times in the list: duplicates are not collapsed.
\<close>

theorem C9_one_course_entry_per_enrollment_record:
  "map fst (group_enrollments_by_student enrollments) = first_seen (map enr_id enrollments) \<and>
   (\<forall>sid data. (sid, data) \<in> set (group_enrollments_by_student enrollments) \<longrightarrow>
      st_courses data = records_of enrollments sid \<and>
      (\<forall>c. count_list (st_courses data) c =
           length (filter (\<lambda>e. enr_id e = sid \<and> enr_course_code e = c) enrollments)))"
  using group_keys group_courses count_records_of by auto

theorem C9_witness:
  "(''s1'', student_with [''A'', ''B'', ''A'']) \<in> set (group_enrollments_by_student demo_enrollments) \<and>
   map fst (group_enrollments_by_student demo_enrollments) = [''s1''] \<and>
   st_courses (student_with [''A'', ''B'', ''A'']) = records_of demo_enrollments ''s1'' \<and>
   count_list (st_courses (student_with [''A'', ''B'', ''A''])) ''A'' = 2"
proof -
  have a: "(''s1'', student_with [''A'', ''B'', ''A'']) \<in> set (group_enrollments_by_student demo_enrollments)"
    by code_simp
  have b: "first_seen (map enr_id demo_enrollments) = [''s1'']"
    by code_simp
  have c: "length (filter (\<lambda>e. enr_id e = ''s1'' \<and> enr_course_code e = ''A'') demo_enrollments) = 2"
    by code_simp
  note inst = C9_one_course_entry_per_enrollment_record[of demo_enrollments]
  from inst a have d: "st_courses (student_with [''A'', ''B'', ''A'']) = records_of demo_enrollments ''s1''"
    and e: "count_list (st_courses (student_with [''A'', ''B'', ''A''])) ''A'' =
      length (filter (\<lambda>e. enr_id e = ''s1'' \<and> enr_course_code e = ''A'') demo_enrollments)"
    by blast+
  from inst b have f: "map fst (group_enrollments_by_student demo_enrollments) = [''s1'']" by simp
  from a f d e c show ?thesis by simp
qed

theorem C9_counterexample:
  "group_enrollments_by_student demo_enrollments = [(''s1'', student_with [''A'', ''B'', ''A''])] \<and>
   count_list (st_courses (student_with [''A'', ''B'', ''A''])) ''A'' = 2 \<and>
   fd_analyze_course_conflicts (group_enrollments_by_student demo_enrollments) =
     Inr [(''A_B'', 2), (''A_A'', 1)]"
  by code_simp

section \<open>The conflict analyzer ranks the pairs by shared students\<close>

lemma first_seen_set [simp]: "set (first_seen xs) = set xs"
  by (simp add: first_seen_def)

lemma first_seen_distinct [simp]: "distinct (first_seen xs)"
  by (simp add: first_seen_def)

lemma update_tabulated:
  "distinct xs \<Longrightarrow>
     AList.update k v (map (\<lambda>x. (x, f x)) xs) =
       (if k \<in> set xs then map (\<lambda>x. (x, if x = k then v else f x)) xs
        else map (\<lambda>x. (x, f x)) xs @ [(k, v)])"
  by (induction xs) auto

lemma dd_get_tabulated:
  "dd_get dflt (map (\<lambda>x. (x, f x)) xs) k = (if k \<in> set xs then f k else dflt)"
  by (induction xs) (auto simp: dd_get_def)

lemma foldl_dd_incr:
  "foldl dd_incr [] ks = map (\<lambda>k. (k, count_list ks k)) (first_seen ks)"
proof (induction ks rule: rev_induct)
  case Nil
  show ?case by (simp add: first_seen_def)
next
  case (snoc k ks)
  let ?M = "map (\<lambda>k. (k, count_list ks k)) (first_seen ks)"
  have g: "dd_get 0 ?M k = count_list ks k"
    by (simp add: dd_get_tabulated count_list_0_iff)
  have "foldl dd_incr [] (ks @ [k]) = dd_incr ?M k"
    using snoc by simp
  also have "\<dots> = AList.update k (count_list ks k + 1) ?M"
    unfolding dd_incr_def g ..
  also have "\<dots> = map (\<lambda>x. (x, count_list (ks @ [k]) x)) (first_seen (ks @ [k]))"
  proof (cases "k \<in> set ks")
    case True
    then have "AList.update k (count_list ks k + 1) ?M =
          map (\<lambda>x. (x, if x = k then count_list ks k + 1 else count_list ks x)) (first_seen ks)"
      by (simp add: update_tabulated)
    also have "\<dots> = map (\<lambda>x. (x, count_list (ks @ [k]) x)) (first_seen ks)"
      by (rule map_cong) auto
    also have "\<dots> = map (\<lambda>x. (x, count_list (ks @ [k]) x)) (first_seen (ks @ [k]))"
      using True by (simp add: first_seen_snoc)
    finally show ?thesis .
  next
    case False
    then have "AList.update k (count_list ks k + 1) ?M = ?M @ [(k, 1)]"
      by (simp add: update_tabulated count_list_0_iff)
    also have "\<dots> = map (\<lambda>x. (x, count_list (ks @ [k]) x)) (first_seen ks) @ [(k, 1)]"
      using False by auto
    also have "\<dots> = map (\<lambda>x. (x, count_list (ks @ [k]) x)) (first_seen (ks @ [k]))"
      using False by (simp add: first_seen_snoc count_list_0_iff)
    finally show ?thesis .
  qed
  finally show ?case .
qed

lemma foldl_students:
  "foldl (\<lambda>m (student_id, data). foldl dd_incr m (h data)) m students =
     foldl dd_incr m (concat (map (\<lambda>(student_id, data). h data) students))"
  by (induction students arbitrary: m) auto

lemma count_pairs_eq:
  "count_pairs m courses =
     foldl dd_incr m (map (\<lambda>(course1, course2). pair_key course1 course2) (pairs_of courses))"
  unfolding count_pairs_def foldl_map by (rule arg_cong[where f = "\<lambda>f. foldl f m (pairs_of courses)"]) auto

lemma fd_count_pairs_eq:
  "fd_count_pairs m courses = foldl dd_incr m (map canon_key (pairs_of courses))"
  unfolding fd_count_pairs_def foldl_map
  by (rule arg_cong[where f = "\<lambda>f. foldl f m (pairs_of courses)"])
     (auto simp: fun_eq_iff canon_key_def split: prod.splits)

lemma collect_pairs_eq: "collect_pairs students = foldl dd_incr [] (all_keys students)"
  unfolding collect_pairs_def all_keys_def count_pairs_eq by (rule foldl_students)

lemma fd_collect_pairs_eq: "fd_collect_pairs students = foldl dd_incr [] (fd_all_keys students)"
  unfolding fd_collect_pairs_def fd_all_keys_def fd_count_pairs_eq by (rule foldl_students)

lemma sorted_reverse_set [simp]: "set (sorted_reverse f xs) = set xs"
  by (simp add: sorted_reverse_def)

lemma sorted_reverse_mset [simp]: "mset (sorted_reverse f xs) = mset xs"
  by (simp add: sorted_reverse_def)

lemma sorted_reverse_descending: "sorted_wrt (\<lambda>x y. f y \<le> f x) (sorted_reverse f xs)"
proof -
  have "sorted (map f (sort_key f (rev xs)))" by simp
  then have "sorted_wrt (\<lambda>x y. f x \<le> f y) (sort_key f (rev xs))"
    by (simp add: sorted_map)
  then show ?thesis
    by (simp add: sorted_reverse_def sorted_wrt_rev)
qed

lemma sorted_reverse_stable:
  "filter (\<lambda>x. f x = k) (sorted_reverse f xs) = filter (\<lambda>x. f x = k) xs"
proof -
  have "filter (\<lambda>x. f x = k) (sorted_reverse f xs) = rev (filter (\<lambda>x. f x = k) (sort_key f (rev xs)))"
    by (simp add: sorted_reverse_def rev_filter)
  also have "\<dots> = rev (filter (\<lambda>x. f x = k) (rev xs))"
    by (simp only: sort_key_stable)
  also have "\<dots> = filter (\<lambda>x. f x = k) xs"
    by (simp add: rev_filter)
  finally show ?thesis .
qed

lemma pair_key_inject:
  assumes "pair_key a b = pair_key a' b'" "CHR ''_'' \<notin> set a" "CHR ''_'' \<notin> set a'"
  shows "a = a' \<and> b = b'"
proof -
  have tw: "takeWhile (\<lambda>ch. ch \<noteq> CHR ''_'') (pair_key x y) = x" if "CHR ''_'' \<notin> set x" for x y
    using that by (auto simp: pair_key_def takeWhile_append)
  from assms(1) have "takeWhile (\<lambda>ch. ch \<noteq> CHR ''_'') (pair_key a b) =
                      takeWhile (\<lambda>ch. ch \<noteq> CHR ''_'') (pair_key a' b')" by simp
  with tw assms(2,3) have "a = a'" by simp
  with assms(1) show ?thesis by (simp add: pair_key_def)
qed

lemma split_count_pair_key:
  "CHR ''_'' \<notin> set a \<Longrightarrow> CHR ''_'' \<notin> set b \<Longrightarrow> split_count (pair_key a b) = 2"
proof -
  assume a: "CHR ''_'' \<notin> set a" and b: "CHR ''_'' \<notin> set b"
  have "filter (\<lambda>ch. ch = CHR ''_'') a = []" using a by (auto simp: filter_empty_conv)
  moreover have "filter (\<lambda>ch. ch = CHR ''_'') b = []" using b by (auto simp: filter_empty_conv)
  ultimately show ?thesis by (simp add: split_count_def pair_key_def)
qed

lemma canon_key_eq:
  assumes "x \<noteq> y" "CHR ''_'' \<notin> set x" "CHR ''_'' \<notin> set y" "CHR ''_'' \<notin> set a"
  shows "(canon_key (x, y) = pair_key a b) = (a < b \<and> ((x = a \<and> y = b) \<or> (x = b \<and> y = a)))"
proof (cases "x > y")
  case True
  then have "canon_key (x, y) = pair_key y x" by (simp add: canon_key_def fd_canonical_def)
  with True assms pair_key_inject[of y x a b] show ?thesis by auto
next
  case False
  with assms(1) have lt: "x < y" by auto
  from False have "canon_key (x, y) = pair_key x y" by (simp add: canon_key_def fd_canonical_def)
  with lt assms pair_key_inject[of x y a b] show ?thesis by auto
qed

lemma count_one: "distinct xs \<Longrightarrow> length (filter (\<lambda>y. y = b) xs) = (if b \<in> set xs then 1 else 0)"
  by (induction xs) auto

lemma count_list_filter: "count_list xs k = length (filter (\<lambda>x. x = k) xs)"
  by (induction xs) auto

lemma count_canon_keys:
  assumes "distinct cs" "\<forall>c\<in>set cs. CHR ''_'' \<notin> set c" "CHR ''_'' \<notin> set a"
  shows "count_list (map canon_key (pairs_of cs)) (pair_key a b) =
           (if a < b \<and> a \<in> set cs \<and> b \<in> set cs then 1 else 0)"
  using assms(1,2)
proof (induction cs)
  case Nil
  show ?case by simp
next
  case (Cons x xs)
  let ?k = "pair_key a b"
  have "filter (\<lambda>y. canon_key (x, y) = ?k) xs =
        filter (\<lambda>y. a < b \<and> ((x = a \<and> y = b) \<or> (x = b \<and> y = a))) xs"
  proof (rule filter_cong[OF refl])
    fix y assume "y \<in> set xs"
    with Cons.prems have "x \<noteq> y" "CHR ''_'' \<notin> set x" "CHR ''_'' \<notin> set y" by auto
    from canon_key_eq[OF this assms(3)]
    show "(canon_key (x, y) = ?k) = (a < b \<and> ((x = a \<and> y = b) \<or> (x = b \<and> y = a)))" .
  qed
  then have first: "count_list (map (\<lambda>y. canon_key (x, y)) xs) ?k =
        length (filter (\<lambda>y. a < b \<and> ((x = a \<and> y = b) \<or> (x = b \<and> y = a))) xs)"
    by (simp add: count_list_filter filter_map comp_def)
  have dx: "distinct xs" "x \<notin> set xs" using Cons.prems by auto
  have "length (filter (\<lambda>y. a < b \<and> ((x = a \<and> y = b) \<or> (x = b \<and> y = a))) xs) =
        (if a < b \<and> ((x = a \<and> b \<in> set xs) \<or> (x = b \<and> a \<in> set xs)) then 1 else 0)"
  proof (cases "a < b")
    case False
    then show ?thesis by simp
  next
    case True
    then have ne: "a \<noteq> b" by auto
    show ?thesis
    proof (cases "x = a")
      case xa: True
      with True ne have "(\<lambda>y. a < b \<and> ((x = a \<and> y = b) \<or> (x = b \<and> y = a))) = (\<lambda>y. y = b)"
        by auto
      with xa True ne count_one[OF dx(1), of b] show ?thesis by simp
    next
      case xna: False
      show ?thesis
      proof (cases "x = b")
        case xb: True
        with True ne have "(\<lambda>y. a < b \<and> ((x = a \<and> y = b) \<or> (x = b \<and> y = a))) = (\<lambda>y. y = a)"
          by auto
        with xb True ne count_one[OF dx(1), of a] show ?thesis by simp
      next
        case False
        with xna show ?thesis by simp
      qed
    qed
  qed
  with first have f: "count_list (map (\<lambda>y. canon_key (x, y)) xs) ?k =
        (if a < b \<and> ((x = a \<and> b \<in> set xs) \<or> (x = b \<and> a \<in> set xs)) then 1 else 0)"
    by simp
  have ih: "count_list (map canon_key (pairs_of xs)) ?k =
        (if a < b \<and> a \<in> set xs \<and> b \<in> set xs then 1 else 0)"
    using Cons.IH Cons.prems by simp
  have "count_list (map canon_key (pairs_of (x # xs))) ?k =
        count_list (map (\<lambda>y. canon_key (x, y)) xs) ?k + count_list (map canon_key (pairs_of xs)) ?k"
    by (simp add: comp_def)
  with f ih dx show ?case by auto
qed

lemma pairs_of_sorted: "sorted xs \<Longrightarrow> (x, y) \<in> set (pairs_of xs) \<Longrightarrow> x \<le> y"
  by (induction xs) auto

lemma sorted_keys_canon:
  "map (\<lambda>(course1, course2). pair_key course1 course2) (pairs_of (sort cs)) =
     map canon_key (pairs_of (sort cs))"
proof (rule map_cong[OF refl])
  fix p assume "p \<in> set (pairs_of (sort cs))"
  then have "fst p \<le> snd p" using pairs_of_sorted[of "sort cs" "fst p" "snd p"] by simp
  then show "(case p of (course1, course2) \<Rightarrow> pair_key course1 course2) = canon_key p"
    by (cases p) (auto simp: canon_key_def fd_canonical_def)
qed

lemma sum_indicator: "(\<Sum>x\<leftarrow>xs. if P x then 1 else 0) = length (filter P xs)"
  by (induction xs) auto

lemma count_all_keys:
  assumes "clean_courses students" "CHR ''_'' \<notin> set a"
  shows "count_list (all_keys students) (pair_key a b) = (if a < b then shared_students students a b else 0)"
    and "count_list (fd_all_keys students) (pair_key a b) = (if a < b then shared_students students a b else 0)"
proof -
  have one: "count_list (map canon_key (pairs_of (sort (st_courses data)))) (pair_key a b) =
          (if a < b \<and> a \<in> set (st_courses data) \<and> b \<in> set (st_courses data) then 1 else 0)"
    and two: "count_list (map canon_key (pairs_of (st_courses data))) (pair_key a b) =
          (if a < b \<and> a \<in> set (st_courses data) \<and> b \<in> set (st_courses data) then 1 else 0)"
    if "(sid, data) \<in> set students" for sid data
  proof -
    from that assms(1) have d: "distinct (st_courses data)" "\<forall>c\<in>set (st_courses data). CHR ''_'' \<notin> set c"
      by (auto simp: clean_courses_def)
    from count_canon_keys[OF d assms(2), of b] show "count_list (map canon_key (pairs_of (st_courses data))) (pair_key a b) =
          (if a < b \<and> a \<in> set (st_courses data) \<and> b \<in> set (st_courses data) then 1 else 0)" .
    from d have d': "distinct (sort (st_courses data))" "\<forall>c\<in>set (sort (st_courses data)). CHR ''_'' \<notin> set c"
      by auto
    from count_canon_keys[OF d' assms(2), of b]
    show "count_list (map canon_key (pairs_of (sort (st_courses data)))) (pair_key a b) =
          (if a < b \<and> a \<in> set (st_courses data) \<and> b \<in> set (st_courses data) then 1 else 0)"
      by simp
  qed
  have "count_list (all_keys students) (pair_key a b) =
        (\<Sum>x\<leftarrow>students. if a < b \<and> a \<in> set (st_courses (snd x)) \<and> b \<in> set (st_courses (snd x)) then 1 else 0)"
    unfolding all_keys_def count_list_concat map_map comp_def
    by (rule arg_cong[where f = sum_list], rule map_cong[OF refl])
       (use one in \<open>auto simp: sorted_keys_canon split: prod.splits\<close>)
  also have "\<dots> = (if a < b then shared_students students a b else 0)"
    by (simp add: sum_indicator shared_students_def case_prod_unfold)
  finally show "count_list (all_keys students) (pair_key a b) =
      (if a < b then shared_students students a b else 0)" .
  have "count_list (fd_all_keys students) (pair_key a b) =
        (\<Sum>x\<leftarrow>students. if a < b \<and> a \<in> set (st_courses (snd x)) \<and> b \<in> set (st_courses (snd x)) then 1 else 0)"
    unfolding fd_all_keys_def count_list_concat map_map comp_def
    by (rule arg_cong[where f = sum_list], rule map_cong[OF refl])
       (use two in \<open>auto split: prod.splits\<close>)
  also have "\<dots> = (if a < b then shared_students students a b else 0)"
    by (simp add: sum_indicator shared_students_def case_prod_unfold)
  finally show "count_list (fd_all_keys students) (pair_key a b) =
      (if a < b then shared_students students a b else 0)" .
qed

lemma pairs_of_set: "(x, y) \<in> set (pairs_of xs) \<Longrightarrow> x \<in> set xs \<and> y \<in> set xs"
  by (induction xs) auto

lemma pairs_of_distinct: "distinct xs \<Longrightarrow> (x, y) \<in> set (pairs_of xs) \<Longrightarrow> x \<noteq> y"
  by (induction xs) (auto dest: pairs_of_set)

lemma canon_key_form:
  assumes "x \<noteq> y"
  shows "\<exists>a b. canon_key (x, y) = pair_key a b \<and> a < b \<and> {a, b} = {x, y}"
proof (cases "x > y")
  case True
  then have "canon_key (x, y) = pair_key y x \<and> y < x \<and> {y, x} = {x, y}"
    by (auto simp: canon_key_def fd_canonical_def)
  then show ?thesis by blast
next
  case False
  with assms have "canon_key (x, y) = pair_key x y \<and> x < y \<and> {x, y} = {x, y}"
    by (auto simp: canon_key_def fd_canonical_def)
  then show ?thesis by blast
qed

lemma canon_keys_form:
  assumes "distinct cs" "\<forall>c\<in>set cs. CHR ''_'' \<notin> set c" "k \<in> set (map canon_key (pairs_of cs))"
  shows "\<exists>a b. k = pair_key a b \<and> a < b \<and> CHR ''_'' \<notin> set a \<and> CHR ''_'' \<notin> set b"
proof -
  from assms(3) obtain x y where xy: "(x, y) \<in> set (pairs_of cs)" "k = canon_key (x, y)" by auto
  from pairs_of_distinct[OF assms(1) xy(1)] have "x \<noteq> y" .
  from canon_key_form[OF this] obtain a b where
    ab: "canon_key (x, y) = pair_key a b" "a < b" "{a, b} = {x, y}" by blast
  from pairs_of_set[OF xy(1)] assms(2) have "CHR ''_'' \<notin> set x" "CHR ''_'' \<notin> set y" by auto
  with ab(3) have "CHR ''_'' \<notin> set a \<and> CHR ''_'' \<notin> set b" by (metis doubleton_eq_iff)
  with ab xy show ?thesis by auto
qed

lemma all_keys_form:
  assumes "clean_courses students"
  shows "k \<in> set (all_keys students) \<Longrightarrow>
           \<exists>a b. k = pair_key a b \<and> a < b \<and> CHR ''_'' \<notin> set a \<and> CHR ''_'' \<notin> set b"
    and "k \<in> set (fd_all_keys students) \<Longrightarrow>
           \<exists>a b. k = pair_key a b \<and> a < b \<and> CHR ''_'' \<notin> set a \<and> CHR ''_'' \<notin> set b"
proof -
  assume "k \<in> set (all_keys students)"
  then obtain sid data where sd: "(sid, data) \<in> set students"
    and k: "k \<in> set (map canon_key (pairs_of (sort (st_courses data))))"
    by (auto simp: all_keys_def sorted_keys_canon)
  from sd assms have "distinct (sort (st_courses data))"
    "\<forall>c\<in>set (sort (st_courses data)). CHR ''_'' \<notin> set c"
    by (auto simp: clean_courses_def)
  from canon_keys_form[OF this k]
  show "\<exists>a b. k = pair_key a b \<and> a < b \<and> CHR ''_'' \<notin> set a \<and> CHR ''_'' \<notin> set b" .
next
  assume "k \<in> set (fd_all_keys students)"
  then obtain sid data where sd: "(sid, data) \<in> set students"
    and k: "k \<in> set (map canon_key (pairs_of (st_courses data)))"
    by (auto simp: fd_all_keys_def)
  from sd assms have "distinct (st_courses data)" "\<forall>c\<in>set (st_courses data). CHR ''_'' \<notin> set c"
    by (auto simp: clean_courses_def)
  from canon_keys_form[OF this k]
  show "\<exists>a b. k = pair_key a b \<and> a < b \<and> CHR ''_'' \<notin> set a \<and> CHR ''_'' \<notin> set b" .
qed

lemma map_of_tabulated:
  "map_of (map (\<lambda>k. (k, f k)) xs) k = (if k \<in> set xs then Some (f k) else None)"
  by (induction xs) auto

lemma ranked_sorted:
  assumes form: "\<And>k. k \<in> set keys \<Longrightarrow>
             \<exists>a b. k = pair_key a b \<and> a < b \<and> CHR ''_'' \<notin> set a \<and> CHR ''_'' \<notin> set b"
    and cnt: "\<And>a b. CHR ''_'' \<notin> set a \<Longrightarrow>
             count_list keys (pair_key a b) = (if a < b then shared_students students a b else 0)"
  shows "ranked students keys (sorted_reverse snd (foldl dd_incr [] keys))"
proof -
  let ?P = "map (\<lambda>k. (k, count_list keys k)) (first_seen keys)"
  let ?R = "sorted_reverse snd ?P"
  have a: "sorted_wrt (\<lambda>p q. snd q \<le> snd p) ?R" by (rule sorted_reverse_descending)
  have b: "map fst (filter (\<lambda>p. snd p = n) ?R) =
           filter (\<lambda>k. count_list keys k = n) (first_seen keys)" for n
    by (simp add: sorted_reverse_stable filter_map comp_def)
  have "mset (map fst ?R) = mset (map fst ?P)" by (simp only: mset_map sorted_reverse_mset)
  moreover have dP: "distinct (map fst ?P)" by (simp add: comp_def)
  ultimately have c: "distinct (map fst ?R)" by (metis mset_eq_imp_distinct_iff)
  have d: "\<exists>a b. fst p = pair_key a b \<and> a < b \<and> CHR ''_'' \<notin> set a \<and> CHR ''_'' \<notin> set b"
    if "p \<in> set ?R" for p
  proof -
    from that have "fst p \<in> set keys" by auto
    from form[OF this] show ?thesis .
  qed
  have "map_of ?R = map_of ?P"
    using c dP by (simp add: map_of_inject_set)
  then have e: "map_of ?R (pair_key a b) =
           (if a < b \<and> 0 < shared_students students a b
            then Some (shared_students students a b) else None)" if "CHR ''_'' \<notin> set a" for a b
    using cnt[OF that, of b] count_list_0_iff[of keys "pair_key a b"]
    by (auto simp: map_of_tabulated split: if_splits)
  from a b c d e show ?thesis
    unfolding ranked_def foldl_dd_incr by blast
qed

lemma no_value_error:
  assumes "\<And>k. k \<in> set keys \<Longrightarrow>
             \<exists>a b. k = pair_key a b \<and> a < b \<and> CHR ''_'' \<notin> set a \<and> CHR ''_'' \<notin> set b"
  shows "\<not> list_ex (\<lambda>(pair, n). split_count pair \<noteq> 2)
            (take 20 (sorted_reverse snd (foldl dd_incr [] keys)))"
proof -
  have "split_count (fst p) = 2" if "p \<in> set (take 20 (sorted_reverse snd (foldl dd_incr [] keys)))" for p
  proof -
    from that have "p \<in> set (sorted_reverse snd (foldl dd_incr [] keys))" by (rule in_set_takeD)
    then have "fst p \<in> set keys" by (auto simp: foldl_dd_incr)
    from assms[OF this] show ?thesis by (auto simp: split_count_pair_key)
  qed
  then show ?thesis by (auto simp: list_ex_iff)
qed

text \<open>
  Claim C7, as amended. For students whose course lists hold no course twice and whose
  course codes hold no underscore, \<^verbatim>\<open>analyze_course_conflicts\<close> (both variants) returns
  one entry per unordered pair of co-enrolled courses, keyed by the two codes in ascending
  order, with the number of students who take both, sorted by that number, largest first.
  Pairs with the same number keep the order in which they were first counted (the
  insertion order of the dictionary), not the lexicographic order of the pairs. For
  \<open>s1:[A,B], s2:[A,B], s3:[A,C]\<close> the pair (A,B) with count 2 comes before (A,C) with
  count 1.
\<close>

theorem C7_pairs_ranked_by_shared_students:
  "(clean_courses students \<longrightarrow>
      (\<exists>pairs. analyze_course_conflicts students = Inr pairs \<and>
                ranked students (all_keys students) pairs) \<and>
      (\<exists>pairs. fd_analyze_course_conflicts students = Inr pairs \<and>
                ranked students (fd_all_keys students) pairs)) \<and>
   analyze_course_conflicts ranking_example = Inr [(''A_B'', 2), (''A_C'', 1)] \<and>
   fd_analyze_course_conflicts ranking_example = Inr [(''A_B'', 2), (''A_C'', 1)]"
proof (intro conjI impI)
  assume c: "clean_courses students"
  have "analyze_course_conflicts students = Inr (sorted_reverse snd (foldl dd_incr [] (all_keys students)))"
    using no_value_error[of "all_keys students"] all_keys_form(1)[OF c]
    by (simp add: analyze_course_conflicts_def collect_pairs_eq Let_def)
  moreover have "ranked students (all_keys students) (sorted_reverse snd (foldl dd_incr [] (all_keys students)))"
    using all_keys_form(1)[OF c] count_all_keys(1)[OF c] by (rule ranked_sorted)
  ultimately show "\<exists>pairs. analyze_course_conflicts students = Inr pairs \<and>
                ranked students (all_keys students) pairs" by blast
  have "fd_analyze_course_conflicts students =
          Inr (sorted_reverse snd (foldl dd_incr [] (fd_all_keys students)))"
    using no_value_error[of "fd_all_keys students"] all_keys_form(2)[OF c]
    by (simp add: fd_analyze_course_conflicts_def fd_collect_pairs_eq Let_def)
  moreover have "ranked students (fd_all_keys students)
      (sorted_reverse snd (foldl dd_incr [] (fd_all_keys students)))"
    using all_keys_form(2)[OF c] count_all_keys(2)[OF c] by (rule ranked_sorted)
  ultimately show "\<exists>pairs. fd_analyze_course_conflicts students = Inr pairs \<and>
                ranked students (fd_all_keys students) pairs" by blast
next
  show "analyze_course_conflicts ranking_example = Inr [(''A_B'', 2), (''A_C'', 1)]"
    by code_simp
  show "fd_analyze_course_conflicts ranking_example = Inr [(''A_B'', 2), (''A_C'', 1)]"
    by code_simp
qed

theorem C7_witness:
  "clean_courses ranking_example \<and>
   analyze_course_conflicts ranking_example = Inr [(''A_B'', 2), (''A_C'', 1)] \<and>
   ranked ranking_example (all_keys ranking_example) [(''A_B'', 2), (''A_C'', 1)] \<and>
   fd_analyze_course_conflicts ranking_example = Inr [(''A_B'', 2), (''A_C'', 1)] \<and>
   ranked ranking_example (fd_all_keys ranking_example) [(''A_B'', 2), (''A_C'', 1)]"
proof -
  have c: "clean_courses ranking_example" by code_simp
  note inst = C7_pairs_ranked_by_shared_students[of ranking_example]
  from inst have a: "analyze_course_conflicts ranking_example = Inr [(''A_B'', 2), (''A_C'', 1)]"
    and b: "fd_analyze_course_conflicts ranking_example = Inr [(''A_B'', 2), (''A_C'', 1)]"
    by blast+
  from inst c obtain pairs where "analyze_course_conflicts ranking_example = Inr pairs"
    "ranked ranking_example (all_keys ranking_example) pairs" by blast
  with a have r: "ranked ranking_example (all_keys ranking_example) [(''A_B'', 2), (''A_C'', 1)]"
    by simp
  from inst c obtain pairs where "fd_analyze_course_conflicts ranking_example = Inr pairs"
    "ranked ranking_example (fd_all_keys ranking_example) pairs" by blast
  with b have fr: "ranked ranking_example (fd_all_keys ranking_example) [(''A_B'', 2), (''A_C'', 1)]"
    by simp
  from c a b r fr show ?thesis by blast
qed

theorem C7_counterexample:
  "analyze_course_conflicts tie_example = Inr [(''C_D'', 1), (''A_B'', 1)] \<and>
   fd_analyze_course_conflicts tie_example = Inr [(''C_D'', 1), (''A_B'', 1)] \<and>
   ''A_B'' < ''C_D'' \<and>
   analyze_course_conflicts [(''s1'', student_with [''X_1'', ''Y''])] = Inl ValueError \<and>
   analyze_course_conflicts [(''s1'', student_with [''A'', ''B'', ''A''])] =
     Inr [(''A_B'', 2), (''A_A'', 1)]"
  by code_simp

section \<open>The order in which the courses are attempted\<close>

lemma course_student_count_eq:
  "dd_get 0 (course_student_count student_courses) c = enrollment_count student_courses c"
proof -
  have "course_student_count student_courses =
          foldl dd_incr [] (concat (map (\<lambda>(student_id, courses). courses) student_courses))"
    unfolding course_student_count_def by (rule foldl_students[where h = "\<lambda>x. x"])
  then show ?thesis
    by (simp add: foldl_dd_incr dd_get_tabulated count_list_0_iff enrollment_count_def
        count_list_concat comp_def case_prod_unfold)
qed

lemma update_new_key: "k \<notin> fst ` set al \<Longrightarrow> AList.update k v al = al @ [(k, v)]"
  by (induction al) auto

lemma dd_get_set_pair:
  "dd_get [] (set_pair m k p n) c =
     (if c = k then AList.update p n (dd_get [] m k) else dd_get [] m c)"
  by (cases "map_of m k")
     (auto simp: set_pair_def dd_get_def map_of_map_entry Let_def split: option.splits)

lemma fd_canonical_commute: "fd_canonical (a, b) = fd_canonical (b, a)"
  by (auto simp: fd_canonical_def)

lemma rows_of_partner:
  "p \<in> fst ` set (rows_of ca c) \<Longrightarrow>
     fd_canonical (c, p) \<in> set (map (\<lambda>(course1, course2, n). fd_canonical (course1, course2)) ca)"
proof (induction ca)
  case Nil
  then show ?case by (simp add: rows_of_def)
next
  case (Cons r ca)
  obtain c1 c2 n where r: "r = (c1, c2, n)" by (cases r) auto
  have split: "rows_of (r # ca) c =
      (if c = c1 then [(c2, n)] else []) @ (if c = c2 then [(c1, n)] else []) @ rows_of ca c"
    by (simp add: rows_of_def r)
  show ?case
  proof (cases "p \<in> fst ` set (rows_of ca c)")
    case True
    from Cons.IH[OF this] show ?thesis by simp
  next
    case False
    with Cons.prems split have "(c = c1 \<and> p = c2) \<or> (c = c2 \<and> p = c1)"
      by (auto split: if_splits)
    then have "fd_canonical (c, p) = fd_canonical (c1, c2)"
      using fd_canonical_commute[of c1 c2] by auto
    then show ?thesis by (simp add: r)
  qed
qed

lemma fd_conflict_pairs_snoc:
  "fd_conflict_pairs (ca @ [(c1, c2, n)]) = set_pair (set_pair (fd_conflict_pairs ca) c1 c2 n) c2 c1 n"
  by (simp add: fd_conflict_pairs_def)

lemma rows_of_snoc:
  "rows_of (ca @ [(c1, c2, n)]) c =
     rows_of ca c @ (if c = c1 then [(c2, n)] else []) @ (if c = c2 then [(c1, n)] else [])"
  by (simp add: rows_of_def)

lemma fd_conflict_pairs_rows:
  "rows_well_formed ca \<Longrightarrow> dd_get [] (fd_conflict_pairs ca) c = rows_of ca c"
proof (induction ca arbitrary: c rule: rev_induct)
  case Nil
  show ?case by (simp add: fd_conflict_pairs_def rows_of_def dd_get_def)
next
  case (snoc r ca)
  obtain c1 c2 n where r: "r = (c1, c2, n)" by (cases r) auto
  from snoc.prems r have wf: "rows_well_formed ca" and ne: "c1 \<noteq> c2"
    and new: "fd_canonical (c1, c2) \<notin> set (map (\<lambda>(course1, course2, n). fd_canonical (course1, course2)) ca)"
    by (auto simp: rows_well_formed_def)
  note ih = snoc.IH[OF wf]
  have n1: "c2 \<notin> fst ` set (rows_of ca c1)"
    using rows_of_partner[of c2 ca c1] new by auto
  have n2: "c1 \<notin> fst ` set (rows_of ca c2)"
    using rows_of_partner[of c1 ca c2] new fd_canonical_commute[of c1 c2] by auto
  show ?case
    unfolding r fd_conflict_pairs_snoc dd_get_set_pair ih rows_of_snoc
    using ne n1 n2 by (auto simp: update_new_key)
qed

lemma sum_rows_of:
  "\<forall>(course1, course2, n)\<in>set ca. course1 \<noteq> course2 \<Longrightarrow>
     sum_list (map snd (rows_of ca c)) = rows_pressure ca c"
  by (induction ca) (auto simp: rows_of_def rows_pressure_def)

lemma fd_conflict_count_eq:
  "rows_well_formed ca \<Longrightarrow> fd_conflict_count ca c = rows_pressure ca c"
  by (simp add: fd_conflict_count_def fd_conflict_pairs_rows sum_rows_of rows_well_formed_def)

lemma schedule_courses_foldl:
  "schedule_courses cfg shuffle sc dates k cs st =
     foldl (\<lambda>st (k, c). schedule_course cfg sc c (shuffle k dates) st) st (enumerate k cs)"
  by (induction cs arbitrary: k st) simp_all

lemma fd_schedule_courses_foldl:
  "fd_schedule_courses cfg shuffle sc slots k cs st =
     foldl (\<lambda>st (k, c). fd_schedule_course cfg sc c (shuffle k slots) st) st (enumerate k cs)"
  by (induction cs arbitrary: k st) simp_all

lemma try_dates_True_fields:
  "try_dates cfg sc c ds st = (True, st') \<Longrightarrow>
     (\<exists>d. course_dates st' = AList.update c d (course_dates st)) \<and>
     unscheduled_courses st' = unscheduled_courses st"
proof (induction ds arbitrary: st)
  case Nil
  then show ?case by simp
next
  case (Cons d ds)
  obtain b st1 where td: "try_date cfg sc c d st = (b, st1)"
    by (cases "try_date cfg sc c d st")
  show ?case
  proof (cases b)
    case True
    with td Cons.prems have e: "try_date cfg sc c d st = (True, st')" by simp
    then show ?thesis
      by (cases rule: try_date_cases[of st d cfg sc c]) (auto simp: commit_fields)
  next
    case False
    with td Cons.prems have r: "try_dates cfg sc c ds st1 = (True, st')" by simp
    from td False have "try_date cfg sc c d st = (False, st1)" by simp
    then have "state_kept st st1" by (rule try_date_False_kept)
    then have "course_dates st1 = course_dates st" "unscheduled_courses st1 = unscheduled_courses st"
      by (simp_all add: state_kept_def)
    with Cons.IH[OF r] show ?thesis by simp
  qed
qed

lemma schedule_course_fields:
  "(\<exists>d. course_dates (schedule_course cfg sc c ds st) = AList.update c d (course_dates st) \<and>
        unscheduled_courses (schedule_course cfg sc c ds st) = unscheduled_courses st) \<or>
   (course_dates (schedule_course cfg sc c ds st) = course_dates st \<and>
    unscheduled_courses (schedule_course cfg sc c ds st) = unscheduled_courses st @ [c])"
proof -
  obtain b st' where t: "try_dates cfg sc c ds st = (b, st')"
    by (cases "try_dates cfg sc c ds st")
  show ?thesis
  proof (cases b)
    case True
    with t try_dates_True_fields[of cfg sc c ds st st'] show ?thesis
      by (auto simp: schedule_course_def)
  next
    case False
    with t have f: "try_dates cfg sc c ds st = (False, st')" by simp
    then have "state_kept st st'" by (rule try_dates_False_kept)
    with f show ?thesis by (simp add: schedule_course_def state_kept_def)
  qed
qed

lemma schedule_courses_order:
  "distinct cs \<Longrightarrow> set cs \<inter> fst ` set (course_dates st) = {} \<Longrightarrow>
     st' = schedule_courses cfg shuffle sc dates k cs st \<Longrightarrow>
     map fst (course_dates st') =
       map fst (course_dates st) @ filter (\<lambda>c. c \<in> fst ` set (course_dates st')) cs \<and>
     unscheduled_courses st' =
       unscheduled_courses st @ filter (\<lambda>c. c \<notin> fst ` set (course_dates st')) cs \<and>
     fst ` set (course_dates st') \<subseteq> fst ` set (course_dates st) \<union> set cs"
proof (induction cs arbitrary: st k)
  case Nil
  then show ?case by simp
next
  case (Cons c cs)
  let ?st1 = "schedule_course cfg sc c (shuffle k dates) st"
  from Cons.prems have c_new: "c \<notin> fst ` set (course_dates st)" and c_cs: "c \<notin> set cs"
    and d: "distinct cs" and disj: "set cs \<inter> fst ` set (course_dates st) = {}"
    and st': "st' = schedule_courses cfg shuffle sc dates (Suc k) cs ?st1" by auto
  from schedule_course_fields[of cfg sc c "shuffle k dates" st]
  consider (committed) d where "course_dates ?st1 = AList.update c d (course_dates st)"
      "unscheduled_courses ?st1 = unscheduled_courses st"
    | (failed) "course_dates ?st1 = course_dates st"
      "unscheduled_courses ?st1 = unscheduled_courses st @ [c]" by blast
  then show ?case
  proof cases
    case committed
    from committed(1) c_new have cd1: "course_dates ?st1 = course_dates st @ [(c, d)]"
      by (simp add: update_new_key)
    with disj c_cs have disj1: "set cs \<inter> fst ` set (course_dates ?st1) = {}" by auto
    note ih = Cons.IH[OF d disj1 st']
    from ih cd1 have cin: "c \<in> fst ` set (course_dates st')"
      by (metis (no_types, lifting) Un_iff image_set list.set_intros(1) map_append set_append list.simps(9) fst_conv)
    from ih cd1 committed(2) cin show ?thesis by auto
  next
    case failed
    with disj have disj1: "set cs \<inter> fst ` set (course_dates ?st1) = {}" by simp
    note ih = Cons.IH[OF d disj1 st']
    from ih failed c_new c_cs have cnot: "c \<notin> fst ` set (course_dates st')" by auto
    from ih failed cnot show ?thesis by auto
  qed
qed

lemma fd_try_slots_True_fields:
  "fd_try_slots cfg sc c sls st = (True, st') \<Longrightarrow>
     map fd_item_course_code (fd_schedule st') = map fd_item_course_code (fd_schedule st) @ [c] \<and>
     fd_unscheduled_courses st' = fd_unscheduled_courses st"
proof (induction sls arbitrary: st)
  case Nil
  then show ?case by simp
next
  case (Cons sl sls)
  obtain b st1 where td: "fd_try_slot cfg sc c sl st = (b, st1)"
    by (cases "fd_try_slot cfg sc c sl st")
  show ?case
  proof (cases b)
    case True
    with td Cons.prems have e: "fd_try_slot cfg sc c sl st = (True, st')" by simp
    then show ?thesis
      by (cases rule: fd_try_slot_cases[of st sl cfg sc c]) (auto simp: fd_commit_def)
  next
    case False
    with td Cons.prems have r: "fd_try_slots cfg sc c sls st1 = (True, st')" by simp
    from td False have "fd_try_slot cfg sc c sl st = (False, st1)" by simp
    then have "fd_state_kept st st1" by (rule fd_try_slot_False_kept)
    then have "fd_schedule st1 = fd_schedule st" "fd_unscheduled_courses st1 = fd_unscheduled_courses st"
      by (simp_all add: fd_state_kept_def)
    with Cons.IH[OF r] show ?thesis by simp
  qed
qed

lemma fd_schedule_course_fields:
  "(map fd_item_course_code (fd_schedule (fd_schedule_course cfg sc c sls st)) =
      map fd_item_course_code (fd_schedule st) @ [c] \<and>
    fd_unscheduled_courses (fd_schedule_course cfg sc c sls st) = fd_unscheduled_courses st) \<or>
   (fd_schedule (fd_schedule_course cfg sc c sls st) = fd_schedule st \<and>
    fd_unscheduled_courses (fd_schedule_course cfg sc c sls st) = fd_unscheduled_courses st @ [c])"
proof -
  obtain b st' where t: "fd_try_slots cfg sc c sls st = (b, st')"
    by (cases "fd_try_slots cfg sc c sls st")
  show ?thesis
  proof (cases b)
    case True
    with t fd_try_slots_True_fields[of cfg sc c sls st st'] show ?thesis
      by (auto simp: fd_schedule_course_def)
  next
    case False
    with t have f: "fd_try_slots cfg sc c sls st = (False, st')" by simp
    then have "fd_state_kept st st'" by (rule fd_try_slots_False_kept)
    with f show ?thesis by (simp add: fd_schedule_course_def fd_state_kept_def)
  qed
qed

lemma fd_schedule_courses_order:
  "distinct cs \<Longrightarrow> set cs \<inter> fd_item_course_code ` set (fd_schedule st) = {} \<Longrightarrow>
     st' = fd_schedule_courses cfg shuffle sc slots k cs st \<Longrightarrow>
     map fd_item_course_code (fd_schedule st') =
       map fd_item_course_code (fd_schedule st) @
         filter (\<lambda>c. c \<in> fd_item_course_code ` set (fd_schedule st')) cs \<and>
     fd_unscheduled_courses st' =
       fd_unscheduled_courses st @ filter (\<lambda>c. c \<notin> fd_item_course_code ` set (fd_schedule st')) cs \<and>
     fd_item_course_code ` set (fd_schedule st') \<subseteq> fd_item_course_code ` set (fd_schedule st) \<union> set cs"
proof (induction cs arbitrary: st k)
  case Nil
  then show ?case by simp
next
  case (Cons c cs)
  let ?st1 = "fd_schedule_course cfg sc c (shuffle k slots) st"
  let ?codes = "\<lambda>s. map fd_item_course_code (fd_schedule s)"
  from Cons.prems have c_new: "c \<notin> fd_item_course_code ` set (fd_schedule st)" and c_cs: "c \<notin> set cs"
    and d: "distinct cs" and disj: "set cs \<inter> fd_item_course_code ` set (fd_schedule st) = {}"
    and st': "st' = fd_schedule_courses cfg shuffle sc slots (Suc k) cs ?st1" by auto
  from fd_schedule_course_fields[of cfg sc c "shuffle k slots" st]
  consider (committed) "?codes ?st1 = ?codes st @ [c]"
      "fd_unscheduled_courses ?st1 = fd_unscheduled_courses st"
    | (failed) "fd_schedule ?st1 = fd_schedule st"
      "fd_unscheduled_courses ?st1 = fd_unscheduled_courses st @ [c]" by blast
  then show ?case
  proof cases
    case committed
    from committed(1) have s1: "fd_item_course_code ` set (fd_schedule ?st1) =
        fd_item_course_code ` set (fd_schedule st) \<union> {c}"
      by (metis (no_types, lifting) Un_insert_right image_set list.set(2) list.simps(8,9) set_append
          sup_bot.right_neutral list.set(1))
    with disj c_cs have disj1: "set cs \<inter> fd_item_course_code ` set (fd_schedule ?st1) = {}" by auto
    note ih = Cons.IH[OF d disj1 st']
    from ih committed(1) have cin: "c \<in> fd_item_course_code ` set (fd_schedule st')"
      by (metis (no_types, lifting) Un_iff image_set list.set_intros(1) set_append)
    from ih committed s1 cin show ?thesis by auto
  next
    case failed
    with disj have disj1: "set cs \<inter> fd_item_course_code ` set (fd_schedule ?st1) = {}" by simp
    note ih = Cons.IH[OF d disj1 st']
    from ih failed c_new c_cs have cnot: "c \<notin> fd_item_course_code ` set (fd_schedule st')" by auto
    from ih failed cnot show ?thesis by auto
  qed
qed

lemma sorted_reverse_distinct: "distinct xs \<Longrightarrow> distinct (sorted_reverse f xs)"
  using mset_eq_imp_distinct_iff[of "sorted_reverse f xs" xs] by simp

lemma attempts_in_order_observed:
  assumes "distinct order"
  shows "in_attempt_order order
           (map fst (course_dates (attempts_in_order cfg shuffle sc dates order)))
           (unscheduled_courses (attempts_in_order cfg shuffle sc dates order))"
proof -
  let ?st = "attempts_in_order cfg shuffle sc dates order"
  have e: "?st = schedule_courses cfg shuffle sc dates 0 order init_state"
    by (simp add: attempts_in_order_def schedule_courses_foldl)
  have i: "map fst (course_dates init_state) = []" "unscheduled_courses init_state = []"
    by (simp_all add: init_state_def)
  have "set order \<inter> fst ` set (course_dates init_state) = {}" by (simp add: init_state_def)
  from schedule_courses_order[OF assms this e]
  show ?thesis unfolding in_attempt_order_def set_map i append_Nil by blast
qed

lemma fd_attempts_in_order_observed:
  assumes "distinct order"
  shows "in_attempt_order order
           (map fd_item_course_code (fd_schedule (fd_attempts_in_order cfg shuffle sc slots order)))
           (fd_unscheduled_courses (fd_attempts_in_order cfg shuffle sc slots order))"
proof -
  let ?st = "fd_attempts_in_order cfg shuffle sc slots order"
  have e: "?st = fd_schedule_courses cfg shuffle sc slots 0 order fd_init_state"
    by (simp add: fd_attempts_in_order_def fd_schedule_courses_foldl)
  have i: "map fd_item_course_code (fd_schedule fd_init_state) = []"
    "fd_unscheduled_courses fd_init_state = []"
    by (simp_all add: fd_init_state_def)
  have "set order \<inter> fd_item_course_code ` set (fd_schedule fd_init_state) = {}"
    by (simp add: fd_init_state_def)
  from fd_schedule_courses_order[OF assms this e]
  show ?thesis unfolding in_attempt_order_def set_map i append_Nil by blast
qed

text \<open>
  Claim C6, as amended. Every run of the date-only scheduler is the sequence of attempts,
  one per course, over \<^verbatim>\<open>all_course_codes\<close> in descending order of the enrollment
  count, and every run of the time-slot scheduler is the sequence of attempts over
  \<^verbatim>\<open>all_courses\<close> in descending order of the conflict count it adds up from the
  \<^verbatim>\<open>conflict_analysis\<close> rows it is given (for well-formed rows: the sum of the
  shared-student counts of the rows naming the course). Both orders are permutations of
  the input list, and courses of equal count keep their input order: there is no
  tie-break by course code. The date-only run returns whenever course and student data
  and a date exist, the time-slot loop ends whenever a slot exists, and when no course
  code is repeated the outputs show the order: the keys of the course-date map (the
  schedule list in the time-slot variant) are the committed courses and the unscheduled
  list is the other courses, each in the order of the attempts.
\<close>

theorem C6_courses_attempted_in_count_order:
  fixes api :: api_data and fapi :: fd_api_data
    and cfg :: config and shuffle :: "nat \<Rightarrow> date list \<Rightarrow> date list"
    and fcfg :: fd_config and fshuffle :: "nat \<Rightarrow> slot list \<Rightarrow> slot list"
  defines "student_courses \<equiv> student_courses_of (students_full_details api)"
    and "codes \<equiv> all_course_codes api"
    and "rows \<equiv> fd_conflict_analysis fapi"
    and "all_courses \<equiv> fd_all_courses fapi"
  defines "course_order \<equiv> sorted_courses student_courses codes"
    and "fd_course_order \<equiv> fd_sorted_courses rows all_courses"
  defines "st \<equiv> attempts_in_order cfg shuffle student_courses (available_dates_of cfg) course_order"
    and "fd_st \<equiv> fd_attempts_in_order fcfg fshuffle (fd_student_courses_of (fd_students fapi))
                    (fd_available_datetimes fcfg) fd_course_order"
  shows
    "course_order = sorted_reverse (enrollment_count student_courses) codes \<and>
     mset course_order = mset codes \<and>
     sorted_wrt (\<lambda>x y. enrollment_count student_courses y \<le> enrollment_count student_courses x)
       course_order \<and>
     (\<forall>n. filter (\<lambda>c. enrollment_count student_courses c = n) course_order =
          filter (\<lambda>c. enrollment_count student_courses c = n) codes) \<and>
     generate_schedule_locally cfg shuffle api =
       (if codes = [] \<or> student_courses = [] then Inl MissingData
        else if available_dates_of cfg = [] then Inl NoAvailableDates
        else Inr (make_response codes student_courses st, student_exam_dates st, course_dates st)) \<and>
     (distinct codes \<longrightarrow>
        in_attempt_order course_order (map fst (course_dates st)) (unscheduled_courses st)) \<and>
     mset fd_course_order = mset all_courses \<and>
     sorted_wrt (\<lambda>x y. fd_conflict_count rows y \<le> fd_conflict_count rows x) fd_course_order \<and>
     (\<forall>n. filter (\<lambda>c. fd_conflict_count rows c = n) fd_course_order =
          filter (\<lambda>c. fd_conflict_count rows c = n) all_courses) \<and>
     (rows_well_formed rows \<longrightarrow> fd_conflict_count rows c = rows_pressure rows c) \<and>
     fd_generate_schedule_locally fcfg fshuffle fapi =
       (if fd_available_datetimes fcfg = [] then None else Some fd_st) \<and>
     (distinct all_courses \<longrightarrow>
        in_attempt_order fd_course_order (map fd_item_course_code (fd_schedule fd_st))
          (fd_unscheduled_courses fd_st))"
proof -
  have e: "course_order = sorted_reverse (enrollment_count student_courses) codes"
    by (simp add: course_order_def sorted_courses_def course_student_count_eq)
  have fe: "fd_course_order = sorted_reverse (fd_conflict_count rows) all_courses"
    by (simp add: fd_course_order_def fd_sorted_courses_def)
  have p1: "mset course_order = mset codes"
    and p2: "sorted_wrt (\<lambda>x y. enrollment_count student_courses y \<le> enrollment_count student_courses x)
       course_order"
    and p3: "\<forall>n. filter (\<lambda>c. enrollment_count student_courses c = n) course_order =
          filter (\<lambda>c. enrollment_count student_courses c = n) codes"
    unfolding e by (simp_all add: sorted_reverse_descending sorted_reverse_stable)
  have q1: "mset fd_course_order = mset all_courses"
    and q2: "sorted_wrt (\<lambda>x y. fd_conflict_count rows y \<le> fd_conflict_count rows x) fd_course_order"
    and q3: "\<forall>n. filter (\<lambda>c. fd_conflict_count rows c = n) fd_course_order =
          filter (\<lambda>c. fd_conflict_count rows c = n) all_courses"
    unfolding fe by (simp_all add: sorted_reverse_descending sorted_reverse_stable)
  have g: "generate_schedule_locally cfg shuffle api =
       (if codes = [] \<or> student_courses = [] then Inl MissingData
        else if available_dates_of cfg = [] then Inl NoAvailableDates
        else Inr (make_response codes student_courses st, student_exam_dates st, course_dates st))"
    by (simp add: generate_schedule_locally_def Let_def schedule_courses_foldl st_def
        attempts_in_order_def course_order_def student_courses_def codes_def)
  have fg: "fd_generate_schedule_locally fcfg fshuffle fapi =
       (if fd_available_datetimes fcfg = [] then None else Some fd_st)"
    by (simp add: fd_generate_schedule_locally_def Let_def fd_schedule_courses_foldl fd_st_def
        fd_attempts_in_order_def fd_course_order_def rows_def all_courses_def)
  have o: "distinct codes \<longrightarrow>
        in_attempt_order course_order (map fst (course_dates st)) (unscheduled_courses st)"
    unfolding st_def e by (intro impI attempts_in_order_observed sorted_reverse_distinct)
  have fo: "distinct all_courses \<longrightarrow>
        in_attempt_order fd_course_order (map fd_item_course_code (fd_schedule fd_st))
          (fd_unscheduled_courses fd_st)"
    unfolding fd_st_def fe by (intro impI fd_attempts_in_order_observed sorted_reverse_distinct)
  have w: "rows_well_formed rows \<longrightarrow> fd_conflict_count rows c = rows_pressure rows c"
    by (simp add: fd_conflict_count_eq)
  from e p1 p2 p3 g o q1 q2 q3 w fg fo show ?thesis by blast
qed

theorem C6_counterexample:
  "sorted_courses (student_courses_of (students_full_details pressure_api))
     (all_course_codes pressure_api) = [''A'', ''C'', ''B''] \<and>
   spec_conflict_pressure pressure_example ''A'' = 0 \<and>
   spec_conflict_pressure pressure_example ''C'' = 1 \<and>
   spec_conflict_pressure pressure_example ''B'' = 1 \<and>
   ''B'' < ''C'' \<and>
   generate_schedule_locally demo_config no_shuffle pressure_api =
     Inr (\<lparr> resp_schedule = [\<lparr> item_course_code = ''A'', item_date = 739397 \<rparr>,
                               \<lparr> item_course_code = ''A'', item_date = 739397 \<rparr>,
                               \<lparr> item_course_code = ''C'', item_date = 739397 \<rparr>,
                               \<lparr> item_course_code = ''B'', item_date = 739399 \<rparr>],
            resp_statistics = \<lparr> total_courses_requested = 3, total_courses_scheduled = 4,
              total_scheduling_days_used = 3, total_students = 3,
              unresolved_student_conflicts = 0, courses_not_scheduled = 0 \<rparr>,
            resp_issues = [], resp_final_conflicts = None \<rparr>,
          [(''s1'', [739397]), (''s2'', [739397]), (''s3'', [739397, 739399])],
          [(''A'', 739397), (''C'', 739397), (''B'', 739399)]) \<and>
   fd_sorted_courses (fd_conflict_analysis fd_tie_api) (fd_all_courses fd_tie_api) =
     [''B'', ''A'', ''D'', ''C''] \<and>
   map_option (\<lambda>s. map fd_item_course_code (fd_schedule s))
     (fd_generate_schedule_locally fd_demo_config no_shuffle fd_tie_api) =
     Some [''B'', ''A'', ''D'', ''C'']"
  by code_simp

theorem C6_witness:
  "sorted_courses (student_courses_of (students_full_details order_api)) (all_course_codes order_api) =
     [''A'', ''D'', ''B'', ''C''] \<and>
   generate_schedule_locally demo_config no_shuffle order_api =
     Inr (\<lparr> resp_schedule = [\<lparr> item_course_code = ''A'', item_date = 739397 \<rparr>,
                               \<lparr> item_course_code = ''A'', item_date = 739397 \<rparr>,
                               \<lparr> item_course_code = ''D'', item_date = 739397 \<rparr>,
                               \<lparr> item_course_code = ''B'', item_date = 739399 \<rparr>],
            resp_statistics = \<lparr> total_courses_requested = 4, total_courses_scheduled = 4,
              total_scheduling_days_used = 3, total_students = 3,
              unresolved_student_conflicts = 0, courses_not_scheduled = 1 \<rparr>,
            resp_issues = [''Course C could not be scheduled.''], resp_final_conflicts = None \<rparr>,
          [(''s1'', [739397]), (''s2'', [739397]), (''s3'', [739397, 739399])],
          [(''A'', 739397), (''D'', 739397), (''B'', 739399)]) \<and>
   distinct (all_course_codes order_api) \<and>
   in_attempt_order [''A'', ''D'', ''B'', ''C''] [''A'', ''D'', ''B''] [''C''] \<and>
   rows_well_formed (fd_conflict_analysis fd_order_api) \<and>
   fd_conflict_count (fd_conflict_analysis fd_order_api) ''B'' = 4 \<and>
   fd_sorted_courses (fd_conflict_analysis fd_order_api) (fd_all_courses fd_order_api) =
     [''B'', ''C'', ''D'', ''A''] \<and>
   fd_generate_schedule_locally fd_demo_config no_shuffle fd_order_api =
     Some \<lparr> fd_schedule =
         [\<lparr> fd_item_course_code = ''B'', fd_item_date = 739397, fd_item_time_slot = ''8:30-10:30'' \<rparr>,
          \<lparr> fd_item_course_code = ''C'', fd_item_date = 739399, fd_item_time_slot = ''8:30-10:30'' \<rparr>,
          \<lparr> fd_item_course_code = ''A'', fd_item_date = 739399, fd_item_time_slot = ''8:30-10:30'' \<rparr>],
       fd_course_dates = [(''B'', (739397, ''8:30-10:30'')), (''C'', (739399, ''8:30-10:30'')),
          (''A'', (739399, ''8:30-10:30''))],
       fd_student_exam_dates =
         [(''s1'', [(739397, ''8:30-10:30''), (739399, ''8:30-10:30'')]),
          (''s2'', [(739397, ''8:30-10:30''), (739399, ''8:30-10:30'')]),
          (''s3'', [(739397, ''8:30-10:30''), (739399, ''8:30-10:30'')])],
       fd_exams_per_day = [(739397, 1), (739398, 0), (739399, 2)],
       fd_unscheduled_courses = [''D''] \<rparr> \<and>
   distinct (fd_all_courses fd_order_api) \<and>
   in_attempt_order [''B'', ''C'', ''D'', ''A''] [''B'', ''C'', ''A''] [''D'']"
proof -
  let ?sc = "student_courses_of (students_full_details order_api)"
  let ?codes = "all_course_codes order_api"
  let ?st = "attempts_in_order demo_config no_shuffle ?sc (available_dates_of demo_config)
               (sorted_courses ?sc ?codes)"
  let ?rows = "fd_conflict_analysis fd_order_api"
  let ?all = "fd_all_courses fd_order_api"
  let ?fst = "fd_attempts_in_order fd_demo_config no_shuffle (fd_student_courses_of (fd_students fd_order_api))
                (fd_available_datetimes fd_demo_config) (fd_sorted_courses ?rows ?all)"
  note inst = C6_courses_attempted_in_count_order[where api = order_api and fapi = fd_order_api
      and cfg = demo_config and shuffle = no_shuffle and fcfg = fd_demo_config
      and fshuffle = no_shuffle and c = "''B''"]
  have o: "sorted_reverse (enrollment_count ?sc) ?codes = [''A'', ''D'', ''B'', ''C'']" by code_simp
  from inst o have a: "sorted_courses ?sc ?codes = [''A'', ''D'', ''B'', ''C'']" by simp
  have c1: "?codes \<noteq> []" and c2: "?sc \<noteq> []" and c3: "available_dates_of demo_config \<noteq> []"
    and dc: "distinct ?codes"
    by code_simp+
  have b: "generate_schedule_locally demo_config no_shuffle order_api =
     Inr (\<lparr> resp_schedule = [\<lparr> item_course_code = ''A'', item_date = 739397 \<rparr>,
                               \<lparr> item_course_code = ''A'', item_date = 739397 \<rparr>,
                               \<lparr> item_course_code = ''D'', item_date = 739397 \<rparr>,
                               \<lparr> item_course_code = ''B'', item_date = 739399 \<rparr>],
            resp_statistics = \<lparr> total_courses_requested = 4, total_courses_scheduled = 4,
              total_scheduling_days_used = 3, total_students = 3,
              unresolved_student_conflicts = 0, courses_not_scheduled = 1 \<rparr>,
            resp_issues = [''Course C could not be scheduled.''], resp_final_conflicts = None \<rparr>,
          [(''s1'', [739397]), (''s2'', [739397]), (''s3'', [739397, 739399])],
          [(''A'', 739397), (''D'', 739397), (''B'', 739399)])"
    by code_simp
  from inst c1 c2 c3 have "generate_schedule_locally demo_config no_shuffle order_api =
      Inr (make_response ?codes ?sc ?st, student_exam_dates ?st, course_dates ?st)" by simp
  with b have cd: "course_dates ?st = [(''A'', 739397), (''D'', 739397), (''B'', 739399)]"
    and r: "resp_issues (make_response ?codes ?sc ?st) = [''Course C could not be scheduled.'']"
    by simp_all
  have "resp_issues (make_response ?codes ?sc ?st) = map issue_text (unscheduled_courses ?st)"
    by (simp add: make_response_def Let_def)
  with r have "map issue_text (unscheduled_courses ?st) = map issue_text [''C'']"
    by (simp add: issue_text_def)
  moreover have "inj issue_text" by (simp add: inj_def issue_text_def)
  ultimately have u: "unscheduled_courses ?st = [''C'']"
    using inj_map_eq_map by blast
  from inst dc have "in_attempt_order (sorted_courses ?sc ?codes) (map fst (course_dates ?st))
      (unscheduled_courses ?st)" by blast
  then have "in_attempt_order (sorted_courses ?sc ?codes) [''A'', ''D'', ''B''] [''C'']"
    unfolding cd u by simp
  then have c: "in_attempt_order [''A'', ''D'', ''B'', ''C''] [''A'', ''D'', ''B''] [''C'']"
    unfolding a .
  have wf: "rows_well_formed ?rows" by code_simp
  have rp: "rows_pressure ?rows ''B'' = 4" by code_simp
  from inst wf rp have d: "fd_conflict_count ?rows ''B'' = 4" by simp
  have e: "fd_sorted_courses ?rows ?all = [''B'', ''C'', ''D'', ''A'']" by code_simp
  have f3: "fd_available_datetimes fd_demo_config \<noteq> []" and fdc: "distinct ?all" by code_simp+
  have g: "fd_generate_schedule_locally fd_demo_config no_shuffle fd_order_api =
     Some \<lparr> fd_schedule =
         [\<lparr> fd_item_course_code = ''B'', fd_item_date = 739397, fd_item_time_slot = ''8:30-10:30'' \<rparr>,
          \<lparr> fd_item_course_code = ''C'', fd_item_date = 739399, fd_item_time_slot = ''8:30-10:30'' \<rparr>,
          \<lparr> fd_item_course_code = ''A'', fd_item_date = 739399, fd_item_time_slot = ''8:30-10:30'' \<rparr>],
       fd_course_dates = [(''B'', (739397, ''8:30-10:30'')), (''C'', (739399, ''8:30-10:30'')),
          (''A'', (739399, ''8:30-10:30''))],
       fd_student_exam_dates =
         [(''s1'', [(739397, ''8:30-10:30''), (739399, ''8:30-10:30'')]),
          (''s2'', [(739397, ''8:30-10:30''), (739399, ''8:30-10:30'')]),
          (''s3'', [(739397, ''8:30-10:30''), (739399, ''8:30-10:30'')])],
       fd_exams_per_day = [(739397, 1), (739398, 0), (739399, 2)],
       fd_unscheduled_courses = [''D''] \<rparr>"
    by code_simp
  from inst f3 have "fd_generate_schedule_locally fd_demo_config no_shuffle fd_order_api = Some ?fst"
    by simp
  with g have fs: "?fst = \<lparr> fd_schedule =
         [\<lparr> fd_item_course_code = ''B'', fd_item_date = 739397, fd_item_time_slot = ''8:30-10:30'' \<rparr>,
          \<lparr> fd_item_course_code = ''C'', fd_item_date = 739399, fd_item_time_slot = ''8:30-10:30'' \<rparr>,
          \<lparr> fd_item_course_code = ''A'', fd_item_date = 739399, fd_item_time_slot = ''8:30-10:30'' \<rparr>],
       fd_course_dates = [(''B'', (739397, ''8:30-10:30'')), (''C'', (739399, ''8:30-10:30'')),
          (''A'', (739399, ''8:30-10:30''))],
       fd_student_exam_dates =
         [(''s1'', [(739397, ''8:30-10:30''), (739399, ''8:30-10:30'')]),
          (''s2'', [(739397, ''8:30-10:30''), (739399, ''8:30-10:30'')]),
          (''s3'', [(739397, ''8:30-10:30''), (739399, ''8:30-10:30'')])],
       fd_exams_per_day = [(739397, 1), (739398, 0), (739399, 2)],
       fd_unscheduled_courses = [''D''] \<rparr>"
    by simp
  from inst fdc have "in_attempt_order (fd_sorted_courses ?rows ?all)
      (map fd_item_course_code (fd_schedule ?fst)) (fd_unscheduled_courses ?fst)" by blast
  then have "in_attempt_order (fd_sorted_courses ?rows ?all) [''B'', ''C'', ''A''] [''D'']"
    unfolding fs by simp
  then have h: "in_attempt_order [''B'', ''C'', ''D'', ''A''] [''B'', ''C'', ''A''] [''D'']"
    unfolding e .
  from a b dc c wf d e g fdc h show ?thesis by blast
qed

section \<open>What the conflict verifier flags\<close>

lemma adjacent_dates_set: "set xs = set ys \<Longrightarrow> adjacent_dates xs = adjacent_dates ys"
  by (simp add: adjacent_dates_def fun_eq_iff)

lemma adjacent_short [simp]: "\<not> adjacent_dates [] d1 d2" "\<not> adjacent_dates [x] d1 d2"
  by (auto simp: adjacent_dates_def)

lemma adjacent_Cons:
  assumes "sorted (x # y # rest)" "distinct (x # y # rest)"
  shows "adjacent_dates (x # y # rest) d1 d2 = ((d1 = x \<and> d2 = y) \<or> adjacent_dates (y # rest) d1 d2)"
proof -
  from assms have xy: "x < y" and low: "\<forall>s\<in>set (y # rest). y \<le> s" by auto
  show ?thesis
  proof
    assume a: "adjacent_dates (x # y # rest) d1 d2"
    then have d1: "d1 \<in> set (x # y # rest)" and d2: "d2 \<in> set (x # y # rest)" and lt: "d1 < d2"
      and nb: "\<forall>d\<in>set (x # y # rest). \<not> (d1 < d \<and> d < d2)"
      by (auto simp: adjacent_dates_def)
    show "(d1 = x \<and> d2 = y) \<or> adjacent_dates (y # rest) d1 d2"
    proof (cases "d1 = x")
      case True
      with lt d2 have "d2 \<in> set (y # rest)" by auto
      with low have "y \<le> d2" by auto
      moreover from nb True xy have "\<not> y < d2" by auto
      ultimately show ?thesis using True by auto
    next
      case False
      with d1 have m1: "d1 \<in> set (y # rest)" by auto
      with low xy have "x < d1" by auto
      with lt d2 have m2: "d2 \<in> set (y # rest)" by auto
      from m1 m2 lt nb have "adjacent_dates (y # rest) d1 d2" by (auto simp: adjacent_dates_def)
      then show ?thesis ..
    qed
  next
    assume "(d1 = x \<and> d2 = y) \<or> adjacent_dates (y # rest) d1 d2"
    then show "adjacent_dates (x # y # rest) d1 d2"
    proof
      assume "d1 = x \<and> d2 = y"
      with xy low show ?thesis by (fastforce simp: adjacent_dates_def)
    next
      assume a: "adjacent_dates (y # rest) d1 d2"
      then have "d1 \<in> set (y # rest)" by (simp add: adjacent_dates_def)
      with low xy have "x < d1" by auto
      with a show ?thesis by (auto simp: adjacent_dates_def)
    qed
  qed
qed

lemma check_gaps_iff:
  "sorted ds \<Longrightarrow> distinct ds \<Longrightarrow>
     (r \<in> set (check_gaps m cd sc sid ds)) = flagged m cd sc sid ds r"
proof (induction m cd sc sid ds rule: check_gaps.induct)
  case (1 m cd sc sid date1 date2 rest)
  from "1.prems" have lt: "date1 < date2" by auto
  have ih: "(r \<in> set (check_gaps m cd sc sid (date2 # rest))) = flagged m cd sc sid (date2 # rest) r"
    using "1.IH" "1.prems" by simp
  have "(r \<in> set (check_gaps m cd sc sid (date1 # date2 # rest))) =
        ((date2 - date1 < m \<and> (courses_on cd sc sid date1 \<noteq> [] \<or> courses_on cd sc sid date2 \<noteq> []) \<and>
          r = gap_conflict cd sc sid date1 date2) \<or>
         r \<in> set (check_gaps m cd sc sid (date2 # rest)))"
    using lt by (auto simp: Let_def gap_conflict_def)
  also have "\<dots> = flagged m cd sc sid (date1 # date2 # rest) r"
    unfolding ih flagged_def adjacent_Cons[OF "1.prems"] by blast
  finally show ?case .
qed (simp_all add: flagged_def)

lemma flagged_set: "set xs = set ys \<Longrightarrow> flagged m cd sc sid xs r = flagged m cd sc sid ys r"
  using adjacent_dates_set[of xs ys] by (simp add: flagged_def)

text \<open>
  Claim C4, as amended. When none of its three maps is empty,
  \<^verbatim>\<open>check_final_schedule_conflicts\<close> returns exactly the following records: for every
  student of the exam-date map and every pair of adjacent distinct dates of that student
  whose gap is below the minimum, provided a course of the student is found on one of the
  two dates in the course-date map, one \<^verbatim>\<open>Insufficient Days Conflict\<close> record with the
  course codes found on the two dates. When a map is empty it returns nothing. It never
  returns a same-day record: equal dates are merged before the comparison, so every record
  has two different dates and a positive gap.
\<close>

theorem C4_verifier_flags_short_gaps_only:
  "(sed \<noteq> [] \<and> cd \<noteq> [] \<and> student_courses \<noteq> [] \<longrightarrow>
      (r \<in> set (check_final_schedule_conflicts min_days sed cd student_courses)) =
        (\<exists>sid exams. (sid, exams) \<in> set sed \<and> flagged min_days cd student_courses sid exams r)) \<and>
   (sed = [] \<or> cd = [] \<or> student_courses = [] \<longrightarrow>
      check_final_schedule_conflicts min_days sed cd student_courses = []) \<and>
   (r \<in> set (check_final_schedule_conflicts min_days sed cd student_courses) \<longrightarrow>
      conflict_type r = ''Insufficient Days Conflict'' \<and> conflict_date1 r < conflict_date2 r \<and>
      0 < days_between r \<and> days_between r < min_days \<and> conflict_exams r \<noteq> [])"
proof -
  have per: "(r \<in> set (check_gaps min_days cd student_courses sid (sort (remdups exams)))) =
        flagged min_days cd student_courses sid exams r" for sid exams
    using check_gaps_iff[of "sort (remdups exams)" r min_days cd student_courses sid]
      flagged_set[of "sort (remdups exams)" exams min_days cd student_courses sid r]
    by simp
  have a: "(r \<in> set (check_final_schedule_conflicts min_days sed cd student_courses)) =
        (\<exists>sid exams. (sid, exams) \<in> set sed \<and> flagged min_days cd student_courses sid exams r)"
    if "sed \<noteq> [] \<and> cd \<noteq> [] \<and> student_courses \<noteq> []"
    using that by (auto simp: check_final_schedule_conflicts_def per)
  have b: "check_final_schedule_conflicts min_days sed cd student_courses = []"
    if "sed = [] \<or> cd = [] \<or> student_courses = []"
    using that by (auto simp: check_final_schedule_conflicts_def)
  have c: "conflict_type r = ''Insufficient Days Conflict'' \<and> conflict_date1 r < conflict_date2 r \<and>
      0 < days_between r \<and> days_between r < min_days \<and> conflict_exams r \<noteq> []"
    if "r \<in> set (check_final_schedule_conflicts min_days sed cd student_courses)"
  proof -
    from that have "\<exists>sid exams. (sid, exams) \<in> set sed \<and> flagged min_days cd student_courses sid exams r"
      by (auto simp: check_final_schedule_conflicts_def per split: if_splits)
    then show ?thesis
      by (auto simp: flagged_def adjacent_dates_def gap_conflict_def)
  qed
  from a b c show ?thesis by blast
qed

theorem C4_witness:
  "[(''s1'', [739398, 739397, 739397])] \<noteq> [] \<and> [(''A'', 739397), (''B'', 739398)] \<noteq> [] \<and>
   [(''s1'', [''A'', ''B''])] \<noteq> [] \<and>
   flagged 3 [(''A'', 739397), (''B'', 739398)] [(''s1'', [''A'', ''B''])] ''s1''
     [739398, 739397, 739397] close_exams_conflict \<and>
   close_exams_conflict \<in> set (check_final_schedule_conflicts 3 [(''s1'', [739398, 739397, 739397])]
     [(''A'', 739397), (''B'', 739398)] [(''s1'', [''A'', ''B''])]) \<and>
   conflict_date1 close_exams_conflict < conflict_date2 close_exams_conflict \<and>
   check_final_schedule_conflicts 3 [] [(''A'', 739397), (''B'', 739398)] [(''s1'', [''A'', ''B''])] = []"
proof -
  let ?sed = "[(''s1'', [739398, 739397, 739397])]"
  let ?cd = "[(''A'', 739397), (''B'', 739398)]"
  let ?sc = "[(''s1'', [''A'', ''B''])]"
  have adj: "adjacent_dates [739398, 739397, 739397] 739397 739398" by code_simp
  have c1: "courses_on ?cd ?sc ''s1'' 739397 \<noteq> []" by code_simp
  have g: "close_exams_conflict = gap_conflict ?cd ?sc ''s1'' 739397 739398" by code_simp
  have f: "flagged 3 ?cd ?sc ''s1'' [739398, 739397, 739397] close_exams_conflict"
    unfolding flagged_def using adj c1 g by (intro exI[of _ 739397] exI[of _ 739398]) simp
  have ne: "?sed \<noteq> [] \<and> ?cd \<noteq> [] \<and> ?sc \<noteq> []" by simp
  note inst = C4_verifier_flags_short_gaps_only[of ?sed ?cd ?sc close_exams_conflict 3]
  note inst_empty = C4_verifier_flags_short_gaps_only[of "[]" ?cd ?sc close_exams_conflict 3]
  have "(''s1'', [739398, 739397, 739397]) \<in> set ?sed" by simp
  with inst ne f have m: "close_exams_conflict \<in> set (check_final_schedule_conflicts 3 ?sed ?cd ?sc)"
    by blast
  with inst have lt: "conflict_date1 close_exams_conflict < conflict_date2 close_exams_conflict"
    by blast
  from inst_empty have e: "check_final_schedule_conflicts 3 [] ?cd ?sc = []" by blast
  from ne f m lt e show ?thesis by blast
qed

theorem C4_counterexample:
  "check_final_schedule_conflicts 2 [(''s1'', [739397, 739397])]
     [(''A'', 739397), (''B'', 739397)] [(''s1'', [''A'', ''B''])] = [] \<and>
   check_final_schedule_conflicts 2 [(''s1'', [739397, 739398])]
     [(''C'', 739399)] [(''s1'', [''A'', ''B''])] = [] \<and>
   build_student_exam_dates_from_schedule
     [\<lparr> ri_course_code = Some ''A'', ri_date = DateValid 739397 \<rparr>,
      \<lparr> ri_course_code = Some ''B'', ri_date = DateValid 739397 \<rparr>]
     [(''s1'', student_with [''A'', ''B''])] = [(''s1'', [739397, 739397])]"
  by code_simp

section \<open>The remote path and the final check of main\<close>

lemma generate_sed_ok:
  assumes "generate_schedule_locally cfg shuffle api = Inr (resp, sed, cd)"
  shows "sed_ok (min_days_between_exams cfg) sed"
proof -
  have "sed_ok (min_days_between_exams cfg) (student_exam_dates init_state)"
    by (simp add: init_state_def sed_ok_def)
  from schedule_courses_sed_ok[OF this] assms show ?thesis
    by (auto simp: generate_schedule_locally_def Let_def split: if_splits)
qed

text \<open>
  Claim C5. A remote answer that parses never reaches the verifier:
  \<^verbatim>\<open>call_deepseek_api\<close> returns two values for it, \<^verbatim>\<open>main\<close> unpacks three, and
  the scheduling stage ends in the \<^verbatim>\<open>ValueError\<close> without any output, whatever the
  answer holds; so for the remote schedule that puts both exams of student s1 on one day.
  Every output that \<^verbatim>\<open>main\<close> completes is the Greedy Scheduler's own, reached because
  the local scheduler was forced, no API key was set, the request failed or its content
  was not JSON, and the verifier finds nothing on it.
\<close>

theorem C5_parsed_remote_answer_raises_in_main:
  "call_deepseek_api cfg shuffle (ch # key) (Parsed schedule_list) api =
     Pair2 schedule_list
       (build_student_exam_dates_from_schedule schedule_list (students_full_details api)) \<and>
   main_generate cfg shuffle False (ch # key) (Parsed schedule_list) api = UnexpectedError ValueError \<and>
   (main_generate cfg shuffle local_only api_key remote api = Completed out sed cd \<longrightarrow>
      (local_only \<or> api_key = [] \<or> remote = RequestException \<or> remote = JSONDecodeError) \<and>
      generate_schedule_locally cfg shuffle api =
        Inr (out \<lparr> resp_final_conflicts := None \<rparr>, sed, cd) \<and>
      resp_final_conflicts out = Some [] \<and>
      unresolved_student_conflicts (resp_statistics out) = 0) \<and>
   call_deepseek_api demo_config no_shuffle ''key'' (Parsed same_day_remote) demo_api =
     Pair2 same_day_remote [(''s1'', [739397, 739397]), (''s2'', [739397])] \<and>
   main_generate demo_config no_shuffle False ''key'' (Parsed same_day_remote) demo_api =
     UnexpectedError ValueError"
proof (intro conjI impI)
  show "call_deepseek_api cfg shuffle (ch # key) (Parsed schedule_list) api =
     Pair2 schedule_list
       (build_student_exam_dates_from_schedule schedule_list (students_full_details api))"
    by (simp add: call_deepseek_api_def)
  then show "main_generate cfg shuffle False (ch # key) (Parsed schedule_list) api =
      UnexpectedError ValueError"
    by (simp add: main_generate_def)
  show "call_deepseek_api demo_config no_shuffle ''key'' (Parsed same_day_remote) demo_api =
     Pair2 same_day_remote [(''s1'', [739397, 739397]), (''s2'', [739397])]"
    by code_simp
  show "main_generate demo_config no_shuffle False ''key'' (Parsed same_day_remote) demo_api =
     UnexpectedError ValueError"
    by (simp add: main_generate_def call_deepseek_api_def)
next
  assume c: "main_generate cfg shuffle local_only api_key remote api = Completed out sed cd"
  show l: "local_only \<or> api_key = [] \<or> remote = RequestException \<or> remote = JSONDecodeError"
  proof (rule ccontr)
    assume "\<not> ?thesis"
    then obtain items where "\<not> local_only" "api_key \<noteq> []" "remote = Parsed items"
      by (cases remote) auto
    then have "main_generate cfg shuffle local_only api_key remote api = UnexpectedError ValueError"
      by (simp add: main_generate_def call_deepseek_api_def)
    with c show False by simp
  qed
  have m: "main_generate cfg shuffle local_only api_key remote api =
        final_check cfg (students_full_details api) (generate_schedule_locally cfg shuffle api)"
  proof (cases "local_only \<or> api_key = []")
    case True
    then show ?thesis by (simp add: main_generate_def)
  next
    case False
    with l have "remote = RequestException \<or> remote = JSONDecodeError" by blast
    with False show ?thesis
      by (auto simp: main_generate_def call_deepseek_api_def)
  qed
  from c m obtain r where g: "generate_schedule_locally cfg shuffle api = Inr r"
    by (cases "generate_schedule_locally cfg shuffle api") (auto simp: final_check_def)
  obtain resp sd cdt where r: "r = (resp, sd, cdt)" by (cases r)
  from generate_sed_ok[OF g[unfolded r]]
  have v: "check_final_schedule_conflicts (min_days_between_exams cfg) sd cdt
            (student_courses_of (students_full_details api)) = []"
    by (rule verifier_Nil)
  from g r have resp: "resp = make_response (all_course_codes api)
      (student_courses_of (students_full_details api))
      (schedule_courses cfg shuffle (student_courses_of (students_full_details api))
         (available_dates_of cfg) 0
         (sorted_courses (student_courses_of (students_full_details api)) (all_course_codes api))
         init_state)"
    by (auto simp: generate_schedule_locally_def Let_def split: if_splits)
  from c m g r v have out: "out = resp \<lparr> resp_final_conflicts := Some [],
      resp_statistics := (resp_statistics resp) \<lparr> unresolved_student_conflicts := 0 \<rparr> \<rparr>"
    and sd: "sd = sed" and cdt: "cdt = cd"
    by (auto simp: final_check_def)
  from out show "resp_final_conflicts out = Some []"
    "unresolved_student_conflicts (resp_statistics out) = 0" by simp_all
  have "out \<lparr> resp_final_conflicts := None \<rparr> = resp"
    unfolding out resp by (simp add: make_response_def Let_def)
  with g r sd cdt show "generate_schedule_locally cfg shuffle api =
        Inr (out \<lparr> resp_final_conflicts := None \<rparr>, sed, cd)" by simp
qed

theorem C5_witness:
  "main_generate demo_config no_shuffle False ''key'' RequestException demo_api =
     Completed
       \<lparr> resp_schedule = [\<lparr> item_course_code = ''A'', item_date = 739397 \<rparr>,
                          \<lparr> item_course_code = ''A'', item_date = 739397 \<rparr>,
                          \<lparr> item_course_code = ''B'', item_date = 739399 \<rparr>],
         resp_statistics = \<lparr> total_courses_requested = 2, total_courses_scheduled = 3,
           total_scheduling_days_used = 3, total_students = 2,
           unresolved_student_conflicts = 0, courses_not_scheduled = 0 \<rparr>,
         resp_issues = [], resp_final_conflicts = Some [] \<rparr>
       [(''s1'', [739397, 739399]), (''s2'', [739397])] [(''A'', 739397), (''B'', 739399)] \<and>
   generate_schedule_locally demo_config no_shuffle demo_api =
     Inr (\<lparr> resp_schedule = [\<lparr> item_course_code = ''A'', item_date = 739397 \<rparr>,
                          \<lparr> item_course_code = ''A'', item_date = 739397 \<rparr>,
                          \<lparr> item_course_code = ''B'', item_date = 739399 \<rparr>],
         resp_statistics = \<lparr> total_courses_requested = 2, total_courses_scheduled = 3,
           total_scheduling_days_used = 3, total_students = 2,
           unresolved_student_conflicts = 0, courses_not_scheduled = 0 \<rparr>,
         resp_issues = [], resp_final_conflicts = None \<rparr>,
       [(''s1'', [739397, 739399]), (''s2'', [739397])], [(''A'', 739397), (''B'', 739399)])"
proof -
  let ?out = "\<lparr> resp_schedule = [\<lparr> item_course_code = ''A'', item_date = 739397 \<rparr>,
                          \<lparr> item_course_code = ''A'', item_date = 739397 \<rparr>,
                          \<lparr> item_course_code = ''B'', item_date = 739399 \<rparr>],
         resp_statistics = \<lparr> total_courses_requested = 2, total_courses_scheduled = 3,
           total_scheduling_days_used = 3, total_students = 2,
           unresolved_student_conflicts = 0, courses_not_scheduled = 0 \<rparr>,
         resp_issues = [], resp_final_conflicts = Some [] \<rparr>"
  let ?sed = "[(''s1'', [739397, 739399]), (''s2'', [739397])]"
  let ?cd = "[(''A'', 739397), (''B'', 739399)]"
  have a: "main_generate demo_config no_shuffle False ''key'' RequestException demo_api =
      Completed ?out ?sed ?cd"
    by code_simp
  from C5_parsed_remote_answer_raises_in_main[where cfg = demo_config and shuffle = no_shuffle
      and local_only = False and api_key = "''key''" and remote = RequestException
      and api = demo_api and out = ?out and sed = ?sed and cd = ?cd] a
  have "generate_schedule_locally demo_config no_shuffle demo_api =
      Inr (?out \<lparr> resp_final_conflicts := None \<rparr>, ?sed, ?cd)" by blast
  then have b: "generate_schedule_locally demo_config no_shuffle demo_api =
     Inr (\<lparr> resp_schedule = [\<lparr> item_course_code = ''A'', item_date = 739397 \<rparr>,
                          \<lparr> item_course_code = ''A'', item_date = 739397 \<rparr>,
                          \<lparr> item_course_code = ''B'', item_date = 739399 \<rparr>],
         resp_statistics = \<lparr> total_courses_requested = 2, total_courses_scheduled = 3,
           total_scheduling_days_used = 3, total_students = 2,
           unresolved_student_conflicts = 0, courses_not_scheduled = 0 \<rparr>,
         resp_issues = [], resp_final_conflicts = None \<rparr>, ?sed, ?cd)" by simp
  from a b show ?thesis by simp
qed

end
